theory Spec2Isabelle
  imports Complex_Main "HOL-Library.Sublist"
begin

section \<open>Values of the host language\<close>

text \<open>
  The bulk import of \<^verbatim>\<open>src/components/BulkImport.tsx\<close> works on JavaScript numbers and
  strings. A number is modelled by its mathematical value, with the three non-finite
  values the code tests for (\<^verbatim>\<open>Number.isNaN\<close>, \<^verbatim>\<open>Number.isFinite\<close>) kept apart. The
  binary rounding of IEEE doubles is not part of the model: a decimal numeral denotes its
  exact rational value.

  A string is a list of characters; the case mappings and the white space test cover the
  ASCII range, every other character is left alone by \<open>toUpperCase\<close>/\<open>toLowerCase\<close> and
  is not white space.
\<close>

datatype jsnum = Fin rat | NaN | PosInf | NegInf

fun isFinite :: "jsnum \<Rightarrow> bool" where
  "isFinite (Fin _) = True"
| "isFinite _ = False"

fun isNaN :: "jsnum \<Rightarrow> bool" where
  "isNaN NaN = True"
| "isNaN _ = False"

text \<open>\<^verbatim>\<open>a < b\<close> on numbers: false as soon as one side is NaN.\<close>

fun js_lt :: "jsnum \<Rightarrow> jsnum \<Rightarrow> bool" where
  "js_lt (Fin a) (Fin b) = (a < b)"
| "js_lt NaN _ = False"
| "js_lt _ NaN = False"
| "js_lt PosInf _ = False"
| "js_lt _ PosInf = True"
| "js_lt _ NegInf = False"
| "js_lt NegInf _ = True"

definition js_gt :: "jsnum \<Rightarrow> jsnum \<Rightarrow> bool" where
  "js_gt a b = js_lt b a"

definition lowers :: string where
  "lowers = ''abcdefghijklmnopqrstuvwxyz''"

definition uppers :: string where
  "uppers = ''ABCDEFGHIJKLMNOPQRSTUVWXYZ''"

definition toUpperChar :: "char \<Rightarrow> char" where
  "toUpperChar c = (case map_of (zip lowers uppers) c of Some u \<Rightarrow> u | None \<Rightarrow> c)"

definition toLowerChar :: "char \<Rightarrow> char" where
  "toLowerChar c = (case map_of (zip uppers lowers) c of Some l \<Rightarrow> l | None \<Rightarrow> c)"

definition toUpperCase :: "string \<Rightarrow> string" where
  "toUpperCase s = map toUpperChar s"

definition toLowerCase :: "string \<Rightarrow> string" where
  "toLowerCase s = map toLowerChar s"

text \<open>White space as \<^verbatim>\<open>String.prototype.trim\<close> and the numeric parsers skip it: tab, line
  feed, vertical tab, form feed, carriage return and space.\<close>

definition is_ws :: "char \<Rightarrow> bool" where
  "is_ws c = (c \<in> set [CHR 0x09, CHR 0x0A, CHR 0x0B, CHR 0x0C, CHR 0x0D, CHR '' ''])"

definition trim :: "string \<Rightarrow> string" where
  "trim s = rev (dropWhile is_ws (rev (dropWhile is_ws s)))"

text \<open>\<^verbatim>\<open>s.split(c)\<close> for a one-character separator: the pieces between the separators, empty
  pieces included, so the result has one element more than \<open>s\<close> has separators.\<close>

fun split_acc :: "char \<Rightarrow> string \<Rightarrow> string \<Rightarrow> string list" where
  "split_acc c cur [] = [rev cur]"
| "split_acc c cur (x # xs) =
     (if x = c then rev cur # split_acc c [] xs else split_acc c (x # cur) xs)"

definition split :: "char \<Rightarrow> string \<Rightarrow> string list" where
  "split c s = split_acc c [] s"

text \<open>\<^verbatim>\<open>hay.includes(needle)\<close>: \<open>needle\<close> occurs in \<open>hay\<close> as a contiguous piece.\<close>

fun starts_with :: "string \<Rightarrow> string \<Rightarrow> bool" where
  "starts_with s [] = True"
| "starts_with [] (p # ps) = False"
| "starts_with (c # cs) (p # ps) = (c = p \<and> starts_with cs ps)"

fun str_includes :: "string \<Rightarrow> string \<Rightarrow> bool" where
  "str_includes [] needle = (needle = [])"
| "str_includes (c # cs) needle = (starts_with (c # cs) needle \<or> str_includes cs needle)"

subsection \<open>Numerals\<close>

definition digit_val :: "char \<Rightarrow> nat option" where
  "digit_val c = map_of (zip ''0123456789'' [0, 1, 2, 3, 4, 5, 6, 7, 8, 9]) c"

definition hex_val :: "char \<Rightarrow> nat option" where
  "hex_val c = map_of (zip ''0123456789abcdefABCDEF''
     [0, 1, 2, 3, 4, 5, 6, 7, 8, 9, 10, 11, 12, 13, 14, 15, 10, 11, 12, 13, 14, 15]) c"

definition is_digit :: "char \<Rightarrow> bool" where
  "is_digit c = (digit_val c \<noteq> None)"

text \<open>The value of a digit string in a radix, most significant digit first.\<close>

fun digits_val :: "nat \<Rightarrow> (char \<Rightarrow> nat option) \<Rightarrow> nat \<Rightarrow> string \<Rightarrow> nat" where
  "digits_val radix dv acc [] = acc"
| "digits_val radix dv acc (c # cs) = digits_val radix dv (acc * radix + (case dv c of Some d \<Rightarrow> d | None \<Rightarrow> 0)) cs"

text \<open>An optional sign in front of a numeral: the sign as \<open>1\<close> or \<open>-1\<close> and the rest.\<close>

fun take_sign :: "string \<Rightarrow> int \<times> string" where
  "take_sign [] = (1, [])"
| "take_sign (c # cs) =
     (if c = CHR ''-'' then (-1, cs) else if c = CHR ''+'' then (1, cs) else (1, c # cs))"

text \<open>
  \<^verbatim>\<open>parseInt(s)\<close> with no radix argument: leading white space is skipped, a sign is read,
  a \<^verbatim>\<open>0x\<close>/\<^verbatim>\<open>0X\<close> prefix selects radix 16, and the longest run of digits of the radix is
  the value; with no digit the result is NaN. Whatever follows the digits is ignored.
\<close>

definition parseInt :: "string \<Rightarrow> jsnum" where
  "parseInt s =
     (let (sgn, r) = take_sign (dropWhile is_ws s);
          hex = (starts_with r ''0x'' \<or> starts_with r ''0X'');
          body = (if hex then drop 2 r else r);
          dv = (if hex then hex_val else digit_val);
          ds = takeWhile (\<lambda>c. dv c \<noteq> None) body
      in if ds = [] then NaN
         else Fin (of_int (sgn * int (digits_val (if hex then 16 else 10) dv 0 ds))))"

text \<open>
  \<^verbatim>\<open>parseFloat(s)\<close> on the decimal forms: leading white space, a sign, digits, and a
  fraction after a dot; at least one digit must be present. The exponent part and the
  literal \<^verbatim>\<open>Infinity\<close> are left out: the one call site passes a string from which every
  character other than digits, \<^verbatim>\<open>.\<close>, \<^verbatim>\<open>+\<close> and \<^verbatim>\<open>-\<close> has been removed.
\<close>

definition parseFloat :: "string \<Rightarrow> jsnum" where
  "parseFloat s =
     (let (sgn, r) = take_sign (dropWhile is_ws s);
          ip = takeWhile is_digit r;
          r1 = dropWhile is_digit r;
          fp = (case r1 of [] \<Rightarrow> [] | c # cs \<Rightarrow> if c = CHR ''.'' then takeWhile is_digit cs else [])
      in if ip = [] \<and> fp = [] then NaN
         else Fin (of_int sgn *
                (of_nat (digits_val 10 digit_val 0 ip)
                 + of_nat (digits_val 10 digit_val 0 fp) / of_nat (10 ^ length fp))))"

section \<open>Month and year of a row\<close>

text \<open>\<^verbatim>\<open>monthMap\<close> of \<^verbatim>\<open>parseMonthYear\<close>: the twelve upper-case abbreviations. A key that
  is absent reads as \<^verbatim>\<open>undefined\<close>, here \<open>None\<close>.\<close>

definition monthTable :: "(string \<times> nat) list" where
  "monthTable =
     [(''JAN'', 1), (''FEB'', 2), (''MAR'', 3), (''APR'', 4), (''MAY'', 5), (''JUN'', 6),
      (''JUL'', 7), (''AUG'', 8), (''SEP'', 9), (''OCT'', 10), (''NOV'', 11), (''DEC'', 12)]"

definition monthMap :: "string \<Rightarrow> nat option" where
  "monthMap = map_of monthTable"

text \<open>\<^verbatim>\<open>parseMonthYear\<close>: \<open>None\<close> is the source's \<^verbatim>\<open>null\<close>. The test \<^verbatim>\<open>!month\<close> also rejects a
  month of 0, which the table does not contain.\<close>

definition parseMonthYear :: "string \<Rightarrow> (jsnum \<times> jsnum) option" where
  "parseMonthYear monthYearStr =
     (case split (CHR '' '') (trim monthYearStr) of
        [p0, p1] \<Rightarrow>
          (case monthMap (toUpperCase p0) of
             None \<Rightarrow> None
           | Some m \<Rightarrow>
               let year = parseInt p1
               in if m = 0 \<or> isNaN year then None else Some (Fin (of_nat m), year))
      | _ \<Rightarrow> None)"

section \<open>Rows, records and plans\<close>

text \<open>
  A worksheet reaches the code as the result of \<^verbatim>\<open>XLSX.utils.sheet_to_json\<close>: a list of
  row objects. A row object is modelled by its entries in \<^verbatim>\<open>Object.keys\<close> order; reading a
  key the row does not have gives \<^verbatim>\<open>undefined\<close>, here \<open>None\<close>. Properties inherited from
  \<^verbatim>\<open>Object.prototype\<close> are outside the model, so a header or sheet named like one of
  them (\<^verbatim>\<open>constructor\<close>, \<^verbatim>\<open>toString\<close>, ...) is not covered. A cell holds a number, a
  string or a boolean.
\<close>

datatype cell = CNum jsnum | CStr string | CBool bool

type_synonym row = "(string \<times> cell) list"

definition row_get :: "row \<Rightarrow> string \<Rightarrow> cell option" where
  "row_get r k = map_of r k"

record LineItem =
  category :: string
  amount :: jsnum

record ParsedRecord =
  organization :: string
  month :: jsnum
  year :: jsnum
  earnings :: "LineItem list"
  deductions :: "LineItem list"
  totalEarnings :: jsnum
  totalDeductions :: jsnum
  netSalary :: jsnum

record InvalidRow =
  sheetName :: string
  excelRowNumber :: nat
  reason :: string

text \<open>The object \<^verbatim>\<open>processSheet\<close> returns.\<close>

record SheetResult =
  records :: "ParsedRecord list"
  skippedRows :: nat
  invalidRows :: "InvalidRow list"

text \<open>\<^verbatim>\<open>SheetPlan\<close> and \<^verbatim>\<open>ImportPlan\<close>; the fields that share a name with a field above carry
  a prefix.\<close>

record SheetPlan =
  sp_sheetName :: string
  sp_records :: "ParsedRecord list"
  sp_skippedRows :: nat

record ImportPlan =
  sheets :: "SheetPlan list"
  totalRecordsToImport :: nat
  totalSkippedRows :: nat
  plan_invalidRows :: "InvalidRow list"

definition ORG_EARNINGS :: "(string \<times> string list) list" where
  "ORG_EARNINGS =
     [(''TCS'', [''Basic Salary'', ''BoB Kitty Allowance'', ''Conveyance Taxable'',
                 ''Conveyance Non Taxable'', ''HRA'', ''Sundry Medical'', ''LTA'',
                 ''Personal Allowance'', ''Miscellaneous'', ''City Allowance'',
                 ''Performance Pay'', ''Leave Encashment'']),
      (''RBS'', [''Basic Pay'', ''Supplementary Allowance'', ''HRA'', ''Statutory Bonus'',
                 ''Oncall Allowance'', ''National Holiday Pay'', ''Ovation Award'',
                 ''Leave Encashment'', ''Vaccine Payout'', ''Shift Allowance'']),
      (''CITI'', [''Basic'', ''HRA'', ''Special Allowance'', ''Location Premium Alllownace'',
                  ''Holiday Pay'', ''Citi Gratitude Bonus'', ''Award'']),
      (''NATWEST'', [''Base Salary'', ''Supplementary Allowance'', ''HRA'', ''Shift Allowance'',
                     ''Oncall Allowance'', ''Bonus'', ''Telephone Unclaimed'',
                     ''Compulsory Holiday Pay'', ''Share SIS Award''])]"

definition ORG_DEDUCTIONS :: "(string \<times> string list) list" where
  "ORG_DEDUCTIONS =
     [(''TCS'', [''Provident Fund'', ''Income Tax'', ''Health Insurance Scheme Premium'',
                 ''Professional Tax'', ''Labour Welfare'', ''Transport Recovery'',
                 ''TCS Welfar Trust'', ''Earlier Payout'', ''Principal Loan Amount'']),
      (''RBS'', [''Income Tax'', ''Provident Fund'', ''Professional Tax'',
                 ''Hospitalisation Insurance'', ''VPCP Father'', ''VPCP Mother'',
                 ''Life Insurance Topup'', ''VPCP Topup Father'', ''Voluntary PF'',
                 ''Labour Welfare Fund'']),
      (''CITI'', [''Income Tax'', ''Provident Fund'', ''Mediclaim Premium'',
                  ''Mediclaim Insurance Dependent'', ''Professional Tax'',
                  ''Citi Gratitude Deductions'', ''Insurance OPD Recovery'']),
      (''NATWEST'', [''Income Tax'', ''Provident Fund'', ''Professional Tax'',
                     ''Hospitalisation Insurance'', ''VPC Father'', ''VPC Mother'',
                     ''VPC Topup Father'', ''VPC Topup Mother'', ''Labour Welfare Fund'',
                     ''Share SIS Award''])]"

text \<open>\<^verbatim>\<open>TABLE[organization] ?? []\<close>.\<close>

definition org_lookup :: "(string \<times> string list) list \<Rightarrow> string \<Rightarrow> string list" where
  "org_lookup table org = (case map_of table org of Some cats \<Rightarrow> cats | None \<Rightarrow> [])"

definition TOTAL_EARNINGS_HEADER :: string where
  "TOTAL_EARNINGS_HEADER = ''Total Earnings''"

definition TOTAL_DEDUCTIONS_HEADER :: string where
  "TOTAL_DEDUCTIONS_HEADER = ''Total Deductions''"

definition NET_SALARY_HEADER :: string where
  "NET_SALARY_HEADER = ''Net Salary''"

definition deductionKeywords :: "string list" where
  "deductionKeywords =
     [''tax'', ''pf'', ''provident'', ''esi'', ''insurance'', ''professional'', ''labour'',
      ''welfare'', ''recovery'', ''loan'', ''tcs'', ''earlier payout'', ''principal'']"

definition isDeductionHeader :: "string \<Rightarrow> bool" where
  "isDeductionHeader header =
     (let h = toLowerCase header in list_ex (\<lambda>kw. str_includes h kw) deductionKeywords)"

text \<open>\<^verbatim>\<open>headers.find(...) ?? headers[0]\<close>; \<open>None\<close> is \<^verbatim>\<open>undefined\<close>, the value when the first
  row has no key at all.\<close>

definition find_monthYearHeader :: "string list \<Rightarrow> string option" where
  "find_monthYearHeader headers =
     (case find (\<lambda>h. str_includes (toLowerCase h) ''month'' \<and> str_includes (toLowerCase h) ''year'')
             headers of
        Some h \<Rightarrow> Some h
      | None \<Rightarrow> (case headers of [] \<Rightarrow> None | h # _ \<Rightarrow> Some h))"

text \<open>\<^verbatim>\<open>RESERVED_HEADERS.has(headerKey)\<close>.\<close>

definition RESERVED_HEADERS_has :: "string option \<Rightarrow> string \<Rightarrow> bool" where
  "RESERVED_HEADERS_has monthYearHeader headerKey =
     (Some headerKey = monthYearHeader \<or> headerKey = TOTAL_EARNINGS_HEADER
      \<or> headerKey = TOTAL_DEDUCTIONS_HEADER \<or> headerKey = NET_SALARY_HEADER)"

text \<open>The values that do not change while one sheet is processed. \<open>numToString\<close> is
  \<^verbatim>\<open>String(n)\<close> on a number, a function of the runtime that is taken as a parameter.\<close>

record SheetCtx =
  numToString :: "jsnum \<Rightarrow> string"
  ctx_organization :: string
  headers :: "string list"
  monthYearHeader :: "string option"
  orgEarnings :: "string list"
  orgDeductions :: "string list"

text \<open>The coercion of a cell to \<^verbatim>\<open>numVal\<close>; \<open>None\<close> is \<^verbatim>\<open>null\<close>. The regular expression
  \<^verbatim>\<open>/[^0-9.+-]/g\<close> keeps digits, dot, plus and minus.\<close>

definition cleaned_of :: "string \<Rightarrow> string" where
  "cleaned_of val = filter (\<lambda>c. is_digit c \<or> c = CHR ''.'' \<or> c = CHR ''+'' \<or> c = CHR ''-'') val"

definition numVal_of :: "cell option \<Rightarrow> jsnum option" where
  "numVal_of val =
     (case val of
        Some (CNum n) \<Rightarrow> Some n
      | Some (CStr s) \<Rightarrow>
          (let cleaned = cleaned_of s
           in if length cleaned > 0
              then (let parsedNum = parseFloat cleaned
                    in if \<not> isNaN parsedNum then Some parsedNum else None)
              else None)
      | _ \<Rightarrow> None)"

text \<open>The variables one row accumulates in the loop over the headers.\<close>

record RowAcc =
  acc_earnings :: "LineItem list"
  acc_deductions :: "LineItem list"
  earningsTotal :: jsnum
  deductionsTotal :: jsnum
  acc_netSalary :: jsnum

definition emptyRowAcc :: RowAcc where
  "emptyRowAcc = \<lparr>acc_earnings = [], acc_deductions = [], earningsTotal = Fin 0,
                   deductionsTotal = Fin 0, acc_netSalary = Fin 0\<rparr>"

text \<open>The body of \<^verbatim>\<open>for (const headerKey of headers)\<close>. With \<^verbatim>\<open>numVal === null\<close> the
  three tests for the total columns fail and the fourth test leaves the iteration, so
  that case comes first here.\<close>

definition headerStep :: "SheetCtx \<Rightarrow> row \<Rightarrow> RowAcc \<Rightarrow> string \<Rightarrow> RowAcc" where
  "headerStep ctx row acc headerKey =
     (case numVal_of (row_get row headerKey) of
        None \<Rightarrow> acc
      | Some numVal \<Rightarrow>
          if headerKey = TOTAL_EARNINGS_HEADER then acc\<lparr>earningsTotal := numVal\<rparr>
          else if headerKey = TOTAL_DEDUCTIONS_HEADER then acc\<lparr>deductionsTotal := numVal\<rparr>
          else if headerKey = NET_SALARY_HEADER then acc\<lparr>acc_netSalary := numVal\<rparr>
          else if RESERVED_HEADERS_has (monthYearHeader ctx) headerKey \<or> numVal = Fin 0 then acc
          else if headerKey \<in> set (orgEarnings ctx)
            then acc\<lparr>acc_earnings := acc_earnings acc @ [\<lparr>category = headerKey, amount = numVal\<rparr>]\<rparr>
          else if headerKey \<in> set (orgDeductions ctx)
            then acc\<lparr>acc_deductions := acc_deductions acc @ [\<lparr>category = headerKey, amount = numVal\<rparr>]\<rparr>
          else if isDeductionHeader headerKey
            then acc\<lparr>acc_deductions := acc_deductions acc @ [\<lparr>category = headerKey, amount = numVal\<rparr>]\<rparr>
          else acc\<lparr>acc_earnings := acc_earnings acc @ [\<lparr>category = headerKey, amount = numVal\<rparr>]\<rparr>)"

text \<open>\<^verbatim>\<open>!monthYearStr\<close>: the cell is absent, the empty string, 0, NaN or \<^verbatim>\<open>false\<close>.\<close>

definition falsy :: "cell option \<Rightarrow> bool" where
  "falsy v = (case v of
      None \<Rightarrow> True
    | Some (CStr s) \<Rightarrow> s = []
    | Some (CNum n) \<Rightarrow> n = Fin 0 \<or> n = NaN
    | Some (CBool b) \<Rightarrow> \<not> b)"

text \<open>\<^verbatim>\<open>String(v)\<close> on a cell.\<close>

definition String_of :: "(jsnum \<Rightarrow> string) \<Rightarrow> cell option \<Rightarrow> string" where
  "String_of numStr v = (case v of
      None \<Rightarrow> ''undefined''
    | Some (CStr s) \<Rightarrow> s
    | Some (CNum n) \<Rightarrow> numStr n
    | Some (CBool b) \<Rightarrow> (if b then ''true'' else ''false''))"

text \<open>\<^verbatim>\<open>row[monthYearHeader]\<close>; with no header at all the key is the string
  \<^verbatim>\<open>"undefined"\<close>.\<close>

definition monthYearCell :: "SheetCtx \<Rightarrow> row \<Rightarrow> cell option" where
  "monthYearCell ctx row =
     row_get row (case monthYearHeader ctx of Some h \<Rightarrow> h | None \<Rightarrow> ''undefined'')"

text \<open>The record pushed for a row whose month and year were parsed: the loop over the
  headers runs from empty lists and zero totals.\<close>

definition parsedRecordOf :: "SheetCtx \<Rightarrow> row \<Rightarrow> jsnum \<times> jsnum \<Rightarrow> ParsedRecord" where
  "parsedRecordOf ctx row parsed =
     (let acc = foldl (headerStep ctx row) emptyRowAcc (headers ctx)
      in \<lparr>organization = ctx_organization ctx, month = fst parsed, year = snd parsed,
          earnings = acc_earnings acc, deductions = acc_deductions acc,
          totalEarnings = earningsTotal acc, totalDeductions = deductionsTotal acc,
          netSalary = acc_netSalary acc\<rparr>)"

text \<open>The body of \<^verbatim>\<open>for (let i = 0; i < data.length; i++)\<close>.\<close>

definition rowStep :: "SheetCtx \<Rightarrow> nat \<Rightarrow> row \<Rightarrow> SheetResult \<Rightarrow> SheetResult" where
  "rowStep ctx i row res =
     (let monthYearStr = monthYearCell ctx row;
          excelRowNumber = i + 2
      in if falsy monthYearStr
         then res\<lparr>skippedRows := skippedRows res + 1,
                  invalidRows := invalidRows res @
                    [\<lparr>sheetName = ctx_organization ctx, excelRowNumber = excelRowNumber,
                      reason = ''Missing Month/Year value''\<rparr>]\<rparr>
         else
           (case parseMonthYear (String_of (numToString ctx) monthYearStr) of
              None \<Rightarrow>
                res\<lparr>skippedRows := skippedRows res + 1,
                    invalidRows := invalidRows res @
                      [\<lparr>sheetName = ctx_organization ctx, excelRowNumber = excelRowNumber,
                        reason = ''Invalid Month/Year format: ''
                                 @ String_of (numToString ctx) monthYearStr\<rparr>]\<rparr>
            | Some parsed \<Rightarrow> res\<lparr>records := records res @ [parsedRecordOf ctx row parsed]\<rparr>))"

fun rowLoop :: "SheetCtx \<Rightarrow> nat \<Rightarrow> row list \<Rightarrow> SheetResult \<Rightarrow> SheetResult" where
  "rowLoop ctx i [] res = res"
| "rowLoop ctx i (row # rest) res = rowLoop ctx (i + 1) rest (rowStep ctx i row res)"

definition emptyResult :: SheetResult where
  "emptyResult = \<lparr>records = [], skippedRows = 0, invalidRows = []\<rparr>"

definition sheetCtx :: "(jsnum \<Rightarrow> string) \<Rightarrow> row \<Rightarrow> string \<Rightarrow> SheetCtx" where
  "sheetCtx numStr firstRow org =
     (let hs = map fst firstRow
      in \<lparr>numToString = numStr, ctx_organization = org, headers = hs,
          monthYearHeader = find_monthYearHeader hs,
          orgEarnings = org_lookup ORG_EARNINGS org,
          orgDeductions = org_lookup ORG_DEDUCTIONS org\<rparr>)"

text \<open>\<^verbatim>\<open>processSheet\<close>, on the rows \<^verbatim>\<open>sheet_to_json\<close> gave for the sheet.\<close>

definition processSheet :: "(jsnum \<Rightarrow> string) \<Rightarrow> row list \<Rightarrow> string \<Rightarrow> SheetResult" where
  "processSheet numStr data org =
     (case data of
        [] \<Rightarrow> emptyResult
      | firstRow # _ \<Rightarrow> rowLoop (sheetCtx numStr firstRow org) 0 data emptyResult)"

section \<open>The import plan\<close>

text \<open>A workbook as \<^verbatim>\<open>XLSX.read\<close> returns it: the sheet names in order, and for each name
  the rows of that sheet.\<close>

record Workbook =
  SheetNames :: "string list"
  Sheets :: "string \<Rightarrow> row list"

definition emptyPlan :: ImportPlan where
  "emptyPlan = \<lparr>sheets = [], totalRecordsToImport = 0, totalSkippedRows = 0,
                 plan_invalidRows = []\<rparr>"

text \<open>The body of \<^verbatim>\<open>for (const sheetName of workbook.SheetNames)\<close> in
  \<^verbatim>\<open>handleFileUpload\<close>.\<close>

definition sheetStep :: "(jsnum \<Rightarrow> string) \<Rightarrow> Workbook \<Rightarrow> ImportPlan \<Rightarrow> string \<Rightarrow> ImportPlan" where
  "sheetStep numStr workbook plan name =
     (let res = processSheet numStr (Sheets workbook name) name
      in if length (records res) = 0 \<and> length (invalidRows res) = 0 then plan
         else plan\<lparr>sheets := sheets plan @
                       [\<lparr>sp_sheetName = name, sp_records = records res,
                         sp_skippedRows = skippedRows res\<rparr>],
                   totalRecordsToImport := totalRecordsToImport plan + length (records res),
                   totalSkippedRows := totalSkippedRows plan + skippedRows res,
                   plan_invalidRows := plan_invalidRows plan @ invalidRows res\<rparr>)"

text \<open>\<^verbatim>\<open>handleFileUpload\<close> up to \<^verbatim>\<open>setImportPlan\<close>: the plan handed to the confirmation
  dialog, or the message of the error toast when no sheet has any row to report.\<close>

definition handleFileUpload :: "(jsnum \<Rightarrow> string) \<Rightarrow> Workbook \<Rightarrow> string + ImportPlan" where
  "handleFileUpload numStr workbook =
     (let plan = foldl (sheetStep numStr workbook) emptyPlan (SheetNames workbook)
      in if length (sheets plan) = 0 then Inl ''No data found in the uploaded file.''
         else Inr plan)"

section \<open>The persistence service\<close>

text \<open>
  \<^verbatim>\<open>performImport\<close> talks to the hosted store through the \<^verbatim>\<open>supabase\<close> client. The store is
  modelled by the six tables the import touches, with the columns the import reads or
  writes, a counter for fresh row ids, and the list of calls issued so far. A call can
  fail: \<open>failAt\<close> names the position, in the sequence of calls, of the one call that
  returns an error (a transport or server failure); a failed call changes no table. Column
  types of the store (rounding to two decimals, integer columns) are not modelled: a table
  keeps the numbers the client sent.
\<close>

datatype table =
  organization_templates | template_earnings | template_deductions
  | salary_records | earnings_table | deductions_table
  | budget_history | employment_history | profiles

datatype call = Select table | Insert table | Delete table | Upsert table | Rpc string

record TemplateRow =
  template_row_id :: nat
  template_user_id :: string
  template_name :: string

record TemplateCategoryRow =
  template_id :: nat
  template_category :: string

record SalaryRow =
  salary_row_id :: nat
  user_id :: string
  row_organization :: string
  row_month :: jsnum
  row_year :: jsnum
  total_earnings :: jsnum
  total_deductions :: jsnum
  net_salary :: jsnum
  gross_salary :: jsnum

record ItemRow =
  salary_record_id :: nat
  item_category :: string
  item_amount :: jsnum

record Store =
  tbl_organization_templates :: "TemplateRow list"
  tbl_template_earnings :: "TemplateCategoryRow list"
  tbl_template_deductions :: "TemplateCategoryRow list"
  tbl_salary_records :: "SalaryRow list"
  tbl_earnings :: "ItemRow list"
  tbl_deductions :: "ItemRow list"
  nextId :: nat
  calls :: "call list"
  failAt :: "nat option"

text \<open>Issuing a call: it is appended to the list of calls, and the result says whether this is the
  call that fails.\<close>

definition issue :: "call \<Rightarrow> Store \<Rightarrow> bool \<times> Store" where
  "issue c st = (failAt st = Some (length (calls st)), st\<lparr>calls := calls st @ [c]\<rparr>)"

text \<open>\<^verbatim>\<open>from("organization_templates").select("*").eq("user_id", uid).eq("name", name)
  .maybeSingle()\<close>: no row gives \<^verbatim>\<open>null\<close>, one row gives the row, several rows give an
  error. The result is \<open>Inl ()\<close> for an error.\<close>

definition select_template :: "string \<Rightarrow> string \<Rightarrow> Store \<Rightarrow> (unit + TemplateRow option) \<times> Store" where
  "select_template uid name st =
     (let (failed, st1) = issue (Select organization_templates) st
      in if failed then (Inl (), st1)
         else (case filter (\<lambda>t. template_user_id t = uid \<and> template_name t = name)
                      (tbl_organization_templates st1) of
                 [] \<Rightarrow> (Inr None, st1)
               | [t] \<Rightarrow> (Inr (Some t), st1)
               | _ \<Rightarrow> (Inl (), st1)))"

text \<open>\<^verbatim>\<open>from("organization_templates").insert({name, user_id}).select().single()\<close>.\<close>

definition insert_template :: "string \<Rightarrow> string \<Rightarrow> Store \<Rightarrow> (unit + TemplateRow) \<times> Store" where
  "insert_template uid name st =
     (let (failed, st1) = issue (Insert organization_templates) st
      in if failed then (Inl (), st1)
         else (let t = \<lparr>template_row_id = nextId st1, template_user_id = uid, template_name = name\<rparr>
               in (Inr t, st1\<lparr>tbl_organization_templates := tbl_organization_templates st1 @ [t],
                              nextId := nextId st1 + 1\<rparr>)))"

text \<open>\<^verbatim>\<open>from("template_earnings").delete().eq("template_id", id)\<close> and the same on
  \<^verbatim>\<open>template_deductions\<close>; the boolean result is the error flag.\<close>

definition delete_template_earnings :: "nat \<Rightarrow> Store \<Rightarrow> bool \<times> Store" where
  "delete_template_earnings tid st =
     (let (failed, st1) = issue (Delete template_earnings) st
      in if failed then (True, st1)
         else (False, st1\<lparr>tbl_template_earnings :=
                 filter (\<lambda>r. template_id r \<noteq> tid) (tbl_template_earnings st1)\<rparr>))"

definition delete_template_deductions :: "nat \<Rightarrow> Store \<Rightarrow> bool \<times> Store" where
  "delete_template_deductions tid st =
     (let (failed, st1) = issue (Delete template_deductions) st
      in if failed then (True, st1)
         else (False, st1\<lparr>tbl_template_deductions :=
                 filter (\<lambda>r. template_id r \<noteq> tid) (tbl_template_deductions st1)\<rparr>))"

definition insert_template_earnings :: "TemplateCategoryRow list \<Rightarrow> Store \<Rightarrow> bool \<times> Store" where
  "insert_template_earnings rows st =
     (let (failed, st1) = issue (Insert template_earnings) st
      in if failed then (True, st1)
         else (False, st1\<lparr>tbl_template_earnings := tbl_template_earnings st1 @ rows\<rparr>))"

definition insert_template_deductions :: "TemplateCategoryRow list \<Rightarrow> Store \<Rightarrow> bool \<times> Store" where
  "insert_template_deductions rows st =
     (let (failed, st1) = issue (Insert template_deductions) st
      in if failed then (True, st1)
         else (False, st1\<lparr>tbl_template_deductions := tbl_template_deductions st1 @ rows\<rparr>))"

text \<open>
  \<^verbatim>\<open>from("salary_records").upsert(row, { onConflict: "user_id,month,year" }).select()
  .single()\<close>: a row with the same user, month and year takes the new values and keeps its
  id; otherwise the row is inserted under a fresh id. The row written is returned. The
  argument carries the id field only to have the row type; it is ignored.
\<close>

definition same_key :: "SalaryRow \<Rightarrow> SalaryRow \<Rightarrow> bool" where
  "same_key a b = (user_id a = user_id b \<and> row_month a = row_month b \<and> row_year a = row_year b)"

definition upsert_salary_record :: "SalaryRow \<Rightarrow> Store \<Rightarrow> (unit + SalaryRow) \<times> Store" where
  "upsert_salary_record new st =
     (let (failed, st1) = issue (Upsert salary_records) st
      in if failed then (Inl (), st1)
         else (case find (same_key new) (tbl_salary_records st1) of
                 Some old \<Rightarrow>
                   (let r = new\<lparr>salary_row_id := salary_row_id old\<rparr>
                    in (Inr r, st1\<lparr>tbl_salary_records :=
                          map (\<lambda>x. if same_key new x then r else x) (tbl_salary_records st1)\<rparr>))
               | None \<Rightarrow>
                   (let r = new\<lparr>salary_row_id := nextId st1\<rparr>
                    in (Inr r, st1\<lparr>tbl_salary_records := tbl_salary_records st1 @ [r],
                                   nextId := nextId st1 + 1\<rparr>))))"

definition insert_earnings :: "ItemRow list \<Rightarrow> Store \<Rightarrow> bool \<times> Store" where
  "insert_earnings rows st =
     (let (failed, st1) = issue (Insert earnings_table) st
      in if failed then (True, st1)
         else (False, st1\<lparr>tbl_earnings := tbl_earnings st1 @ rows\<rparr>))"

definition insert_deductions :: "ItemRow list \<Rightarrow> Store \<Rightarrow> bool \<times> Store" where
  "insert_deductions rows st =
     (let (failed, st1) = issue (Insert deductions_table) st
      in if failed then (True, st1)
         else (False, st1\<lparr>tbl_deductions := tbl_deductions st1 @ rows\<rparr>))"

section \<open>The import executor\<close>

definition MAX_AMOUNT :: jsnum where
  "MAX_AMOUNT = Fin 100000000"

definition MIN_YEAR :: jsnum where
  "MIN_YEAR = Fin 2000"

definition MAX_YEAR :: jsnum where
  "MAX_YEAR = Fin 2100"

text \<open>The state of one run of \<^verbatim>\<open>performImport\<close>: the store, the counters, and whether an
  error was thrown (the run then ends in the \<^verbatim>\<open>catch\<close> block with an error toast; what was
  written before stays written).\<close>

record ImportRun =
  store :: Store
  totalRecordsImported :: nat
  totalTemplates :: nat
  processedRecords :: nat
  thrown :: bool

text \<open>The three tests of \<^verbatim>\<open>performImport\<close> that end the iteration for a record with
  \<^verbatim>\<open>continue\<close>.\<close>

definition invalidMonthYear :: "ParsedRecord \<Rightarrow> bool" where
  "invalidMonthYear record =
     (\<not> isFinite (month record) \<or> js_lt (month record) (Fin 1) \<or> js_gt (month record) (Fin 12)
      \<or> \<not> isFinite (year record) \<or> js_lt (year record) MIN_YEAR \<or> js_gt (year record) MAX_YEAR)"

definition invalidTotals :: "ParsedRecord \<Rightarrow> bool" where
  "invalidTotals record =
     (\<not> isFinite (totalEarnings record) \<or> \<not> isFinite (totalDeductions record)
      \<or> \<not> isFinite (netSalary record)
      \<or> js_lt (totalEarnings record) (Fin 0) \<or> js_lt (totalDeductions record) (Fin 0)
      \<or> js_gt (totalEarnings record) MAX_AMOUNT \<or> js_gt (totalDeductions record) MAX_AMOUNT)"

definition invalidItem :: "LineItem \<Rightarrow> bool" where
  "invalidItem e =
     (\<not> isFinite (amount e) \<or> js_lt (amount e) (Fin 0) \<or> js_gt (amount e) MAX_AMOUNT)"

definition hasInvalidLineItem :: "ParsedRecord \<Rightarrow> bool" where
  "hasInvalidLineItem record =
     (list_ex invalidItem (earnings record) \<or> list_ex invalidItem (deductions record))"

definition itemRows :: "nat \<Rightarrow> LineItem list \<Rightarrow> ItemRow list" where
  "itemRows rid items =
     map (\<lambda>e. \<lparr>salary_record_id = rid, item_category = category e, item_amount = amount e\<rparr>) items"

text \<open>The body of \<^verbatim>\<open>for (const record of records)\<close>.\<close>

definition importRecord :: "string \<Rightarrow> ParsedRecord \<Rightarrow> ImportRun \<Rightarrow> ImportRun" where
  "importRecord uid record run =
     (if invalidMonthYear record then run
      else if invalidTotals record then run
      else if hasInvalidLineItem record then run
      else
        (case upsert_salary_record
                \<lparr>salary_row_id = 0, user_id = uid, row_organization = organization record,
                 row_month = month record, row_year = year record,
                 total_earnings = totalEarnings record,
                 total_deductions = totalDeductions record,
                 net_salary = netSalary record, gross_salary = totalEarnings record\<rparr>
                (store run) of
           (Inl _, st1) \<Rightarrow> run\<lparr>store := st1, thrown := True\<rparr>
         | (Inr salaryRecord, st1) \<Rightarrow>
             (let run1 = run\<lparr>store := st1,
                             totalRecordsImported := totalRecordsImported run + 1,
                             processedRecords := processedRecords run + 1\<rparr>;
                  (earningsError, st2) =
                    (if length (earnings record) > 0
                     then insert_earnings (itemRows (salary_row_id salaryRecord) (earnings record)) st1
                     else (False, st1))
              in if earningsError then run1\<lparr>store := st2, thrown := True\<rparr>
                 else
                   (let (deductionsError, st3) =
                          (if length (deductions record) > 0
                           then insert_deductions
                                  (itemRows (salary_row_id salaryRecord) (deductions record)) st2
                           else (False, st2))
                    in if deductionsError then run1\<lparr>store := st3, thrown := True\<rparr>
                       else run1\<lparr>store := st3\<rparr>))))"

text \<open>The loop over the records of a sheet; a thrown error leaves every loop.\<close>

fun recordsLoop :: "string \<Rightarrow> ParsedRecord list \<Rightarrow> ImportRun \<Rightarrow> ImportRun" where
  "recordsLoop uid [] run = run"
| "recordsLoop uid (record # rest) run =
     (let run1 = importRecord uid record run
      in if thrown run1 then run1 else recordsLoop uid rest run1)"

text \<open>A \<^verbatim>\<open>Set<string>\<close> in insertion order.\<close>

definition set_add :: "string list \<Rightarrow> string \<Rightarrow> string list" where
  "set_add xs x = (if x \<in> set xs then xs else xs @ [x])"

definition allEarningsCategories :: "ParsedRecord list \<Rightarrow> string list" where
  "allEarningsCategories rs = foldl (\<lambda>acc r. foldl set_add acc (map category (earnings r))) [] rs"

definition allDeductionsCategories :: "ParsedRecord list \<Rightarrow> string list" where
  "allDeductionsCategories rs = foldl (\<lambda>acc r. foldl set_add acc (map category (deductions r))) [] rs"

definition categoryRows :: "nat \<Rightarrow> string list \<Rightarrow> TemplateCategoryRow list" where
  "categoryRows tid cats = map (\<lambda>c. \<lparr>template_id = tid, template_category = c\<rparr>) cats"

text \<open>The part of the sheet loop that finds or creates the template and empties the
  category lists of a template that exists. The result is the template, or \<open>None\<close> after a
  throw.\<close>

definition findOrCreateTemplate :: "string \<Rightarrow> string \<Rightarrow> Store \<Rightarrow> TemplateRow option \<times> Store" where
  "findOrCreateTemplate uid name st =
     (case select_template uid name st of
        (Inl _, st1) \<Rightarrow> (None, st1)
      | (Inr None, st1) \<Rightarrow>
          (case insert_template uid name st1 of
             (Inl _, st2) \<Rightarrow> (None, st2)
           | (Inr newTemplate, st2) \<Rightarrow> (Some newTemplate, st2))
      | (Inr (Some template), st1) \<Rightarrow>
          (let (deleteEarningsError, st2) = delete_template_earnings (template_row_id template) st1
           in if deleteEarningsError then (None, st2)
              else (let (deleteDeductionsError, st3) =
                          delete_template_deductions (template_row_id template) st2
                    in if deleteDeductionsError then (None, st3) else (Some template, st3))))"

text \<open>The body of \<^verbatim>\<open>for (const { sheetName, records } of sheets)\<close>.\<close>

definition importSheet :: "string \<Rightarrow> SheetPlan \<Rightarrow> ImportRun \<Rightarrow> ImportRun" where
  "importSheet uid sp run =
     (if length (sp_records sp) = 0 then run
      else
        (case findOrCreateTemplate uid (sp_sheetName sp) (store run) of
           (None, st1) \<Rightarrow> run\<lparr>store := st1, thrown := True\<rparr>
         | (Some template, st1) \<Rightarrow>
             (let run1 = run\<lparr>store := st1, totalTemplates := totalTemplates run + 1\<rparr>;
                  earningsInserts =
                    categoryRows (template_row_id template) (allEarningsCategories (sp_records sp));
                  (earningsError, st2) =
                    (if length earningsInserts > 0 then insert_template_earnings earningsInserts st1
                     else (False, st1))
              in if earningsError then run1\<lparr>store := st2, thrown := True\<rparr>
                 else
                   (let deductionsInserts =
                          categoryRows (template_row_id template)
                            (allDeductionsCategories (sp_records sp));
                        (deductionsError, st3) =
                          (if length deductionsInserts > 0
                           then insert_template_deductions deductionsInserts st2
                           else (False, st2))
                    in if deductionsError then run1\<lparr>store := st3, thrown := True\<rparr>
                       else recordsLoop uid (sp_records sp) (run1\<lparr>store := st3\<rparr>)))))"

fun sheetsLoop :: "string \<Rightarrow> SheetPlan list \<Rightarrow> ImportRun \<Rightarrow> ImportRun" where
  "sheetsLoop uid [] run = run"
| "sheetsLoop uid (sp # rest) run =
     (let run1 = importSheet uid sp run
      in if thrown run1 then run1 else sheetsLoop uid rest run1)"

text \<open>\<^verbatim>\<open>performImport\<close> for the signed-in user \<open>uid\<close>: without a plan it returns at once.\<close>

definition performImport :: "string \<Rightarrow> ImportPlan option \<Rightarrow> Store \<Rightarrow> ImportRun" where
  "performImport uid importPlan st =
     (let run0 = \<lparr>store = st, totalRecordsImported = 0, totalTemplates = 0,
                  processedRecords = 0, thrown = False\<rparr>
      in case importPlan of
           None \<Rightarrow> run0
         | Some plan \<Rightarrow> sheetsLoop uid (sheets plan) run0)"

section \<open>Notions used in the statements\<close>

text \<open>A number lies in a closed interval of rationals; NaN and the infinities lie in
  none.\<close>

definition in_range :: "rat \<Rightarrow> rat \<Rightarrow> jsnum \<Rightarrow> bool" where
  "in_range lo hi n = (case n of Fin q \<Rightarrow> lo \<le> q \<and> q \<le> hi | _ \<Rightarrow> False)"

text \<open>The bounds under which the executor writes a record, as the code has them: the net
  salary only has to be finite.\<close>

definition executor_bounds :: "ParsedRecord \<Rightarrow> bool" where
  "executor_bounds r =
     (in_range 1 12 (month r) \<and> in_range 2000 2100 (year r)
      \<and> in_range 0 100000000 (totalEarnings r) \<and> in_range 0 100000000 (totalDeductions r)
      \<and> isFinite (netSalary r)
      \<and> (\<forall>e \<in> set (earnings r) \<union> set (deductions r). in_range 0 100000000 (amount e)))"

text \<open>The bounds in the words of the specification: every monetary value, the net salary
  included, lies between 0 and 100,000,000.\<close>

definition spec_bounds :: "ParsedRecord \<Rightarrow> bool" where
  "spec_bounds r =
     (in_range 1 12 (month r) \<and> in_range 2000 2100 (year r)
      \<and> in_range 0 100000000 (totalEarnings r) \<and> in_range 0 100000000 (totalDeductions r)
      \<and> in_range 0 100000000 (netSalary r)
      \<and> (\<forall>e \<in> set (earnings r) \<union> set (deductions r). in_range 0 100000000 (amount e)))"

text \<open>\<^verbatim>\<open>MONTHS\<close> of \<^verbatim>\<open>src/types/salary.ts\<close>.\<close>

definition MONTHS :: "string list" where
  "MONTHS = [''January'', ''February'', ''March'', ''April'', ''May'', ''June'',
             ''July'', ''August'', ''September'', ''October'', ''November'', ''December'']"

text \<open>The Month/Year format in the words of the specification: a three-letter month
  abbreviation or a month name, in any case, one space, and a year of four digits.\<close>

definition spec_monthYear_format :: "string \<Rightarrow> bool" where
  "spec_monthYear_format s =
     (case split (CHR '' '') s of
        [tok, yr] \<Rightarrow>
          (toUpperCase tok \<in> set (map fst monthTable) \<or> toUpperCase tok \<in> set (map toUpperCase MONTHS))
          \<and> length yr = 4 \<and> list_all is_digit yr
      | _ \<Rightarrow> False)"

text \<open>A line item of a row's record stems from a cell of that row with a numeric value
  other than 0.\<close>

definition item_ok :: "row \<Rightarrow> LineItem \<Rightarrow> bool" where
  "item_ok row e = (numVal_of (row_get row (category e)) = Some (amount e) \<and> amount e \<noteq> Fin 0)"

text \<open>The counts and the diagnostics of a plan agree with its sheets.\<close>

definition plan_consistent :: "(jsnum \<Rightarrow> string) \<Rightarrow> Workbook \<Rightarrow> ImportPlan \<Rightarrow> bool" where
  "plan_consistent numStr wb plan =
     ((\<forall>sp \<in> set (sheets plan).
          sp_skippedRows sp =
            length (invalidRows (processSheet numStr (Sheets wb (sp_sheetName sp)) (sp_sheetName sp)))
        \<and> sp_records sp = records (processSheet numStr (Sheets wb (sp_sheetName sp)) (sp_sheetName sp)))
      \<and> totalRecordsToImport plan = sum_list (map (\<lambda>sp. length (sp_records sp)) (sheets plan))
      \<and> totalSkippedRows plan = sum_list (map sp_skippedRows (sheets plan))
      \<and> plan_invalidRows plan =
          concat (map (\<lambda>sp. invalidRows (processSheet numStr (Sheets wb (sp_sheetName sp))
                                           (sp_sheetName sp)))
                    (sheets plan)))"

subsection \<open>Example data\<close>

definition exRow :: row where
  "exRow = [(''Month Year'', CStr ''JAN 2025''), (''Conveyance Taxable'', CNum (Fin 1600)),
            (''HRA'', CNum (Fin 0)), (''Income Tax'', CStr ''18,000'')]"

definition exRowMissing :: row where
  "exRowMissing = [(''Month Year'', CStr []), (''HRA'', CNum (Fin 32000))]"

definition exRowBadMonth :: row where
  "exRowBadMonth = [(''Month Year'', CStr ''January 2025''), (''HRA'', CNum (Fin 32000))]"

definition exRowNegative :: row where
  "exRowNegative = [(''Month Year'', CStr ''JAN 2025''), (''Bonus'', CNum (Fin (- 500)))]"

definition exNumStr :: "jsnum \<Rightarrow> string" where
  "exNumStr n = ''0''"

definition exCtx :: SheetCtx where
  "exCtx = sheetCtx exNumStr exRow ''TCS''"

definition exWorkbook :: Workbook where
  "exWorkbook = \<lparr>SheetNames = [''Cover'', ''TCS''],
                  Sheets = (\<lambda>name. if name = ''TCS'' then [exRow, exRowMissing, exRowBadMonth] else [])\<rparr>"

definition exRecord :: ParsedRecord where
  "exRecord = \<lparr>organization = ''TCS'', month = Fin 1, year = Fin 2025,
                earnings = [\<lparr>category = ''Conveyance Taxable'', amount = Fin 1600\<rparr>],
                deductions = [\<lparr>category = ''Income Tax'', amount = Fin 18000\<rparr>],
                totalEarnings = Fin 0, totalDeductions = Fin 0, netSalary = Fin 0\<rparr>"

definition exPlan :: ImportPlan where
  "exPlan = \<lparr>sheets = [\<lparr>sp_sheetName = ''TCS'', sp_records = [exRecord], sp_skippedRows = 2\<rparr>],
              totalRecordsToImport = 1, totalSkippedRows = 2,
              plan_invalidRows =
                [\<lparr>sheetName = ''TCS'', excelRowNumber = 3, reason = ''Missing Month/Year value''\<rparr>,
                 \<lparr>sheetName = ''TCS'', excelRowNumber = 4,
                   reason = ''Invalid Month/Year format: January 2025''\<rparr>]\<rparr>"

definition emptyStore :: Store where
  "emptyStore = \<lparr>tbl_organization_templates = [], tbl_template_earnings = [],
                  tbl_template_deductions = [], tbl_salary_records = [], tbl_earnings = [],
                  tbl_deductions = [], nextId = 1, calls = [], failAt = None\<rparr>"

definition exRun :: ImportRun where
  "exRun = \<lparr>store = emptyStore, totalRecordsImported = 0, totalTemplates = 0,
             processedRecords = 0, thrown = False\<rparr>"

text \<open>Records that differ from \<open>exRecord\<close> in one value: a net salary above the cap, an
  earning above the cap, and new line items for the same month.\<close>

definition exRecordBigNet :: ParsedRecord where
  "exRecordBigNet = exRecord\<lparr>netSalary := Fin 150000000\<rparr>"

definition exRecordBigAmount :: ParsedRecord where
  "exRecordBigAmount =
     exRecord\<lparr>earnings := [\<lparr>category = ''Conveyance Taxable'', amount = Fin 150000000\<rparr>]\<rparr>"

definition exRecordRevised :: ParsedRecord where
  "exRecordRevised =
     exRecord\<lparr>earnings := [\<lparr>category = ''HRA'', amount = Fin 32000\<rparr>],
               totalEarnings := Fin 32000, netSalary := Fin 14000\<rparr>"

definition exPlanRevised :: ImportPlan where
  "exPlanRevised =
     \<lparr>sheets = [\<lparr>sp_sheetName = ''TCS'', sp_records = [exRecordRevised], sp_skippedRows = 0\<rparr>],
      totalRecordsToImport = 1, totalSkippedRows = 0, plan_invalidRows = []\<rparr>"

section \<open>Backup import\<close>

text \<open>
  A backup file reaches \<^verbatim>\<open>handleImportBackupFile\<close> with a size and a text; the text goes
  through \<^verbatim>\<open>JSON.parse\<close>. The file is modelled by its size in bytes and the parsed value,
  \<open>None\<close> when \<^verbatim>\<open>JSON.parse\<close> throws. The entries of an object are in a list; a key that is
  absent reads as \<^verbatim>\<open>undefined\<close>, here \<open>None\<close>, and so does any property of a value that
  is not an object.
\<close>

datatype json =
  JNull | JBool bool | JNum jsnum | JStr string | JArr "json list" | JObj "(string \<times> json) list"

record BackupFile =
  file_size :: nat
  file_json :: "json option"

definition MAX_FILE_SIZE :: nat where
  "MAX_FILE_SIZE = 10 * 1024 * 1024"

fun json_get :: "json \<Rightarrow> string \<Rightarrow> json option" where
  "json_get (JObj kvs) k = map_of kvs k"
| "json_get _ k = None"

text \<open>\<^verbatim>\<open>!v\<close> and \<^verbatim>\<open>typeof v === "object"\<close> on a parsed value.\<close>

fun json_falsy :: "json \<Rightarrow> bool" where
  "json_falsy JNull = True"
| "json_falsy (JBool b) = (\<not> b)"
| "json_falsy (JNum n) = (n = Fin 0 \<or> n = NaN)"
| "json_falsy (JStr s) = (s = [])"
| "json_falsy _ = False"

fun typeof_object :: "json \<Rightarrow> bool" where
  "typeof_object JNull = True"
| "typeof_object (JArr _) = True"
| "typeof_object (JObj _) = True"
| "typeof_object _ = False"

text \<open>\<^verbatim>\<open>Array.isArray(v) ? v.length : 0\<close> on a property that may be absent.\<close>

definition array_length :: "json option \<Rightarrow> nat" where
  "array_length v = (case v of Some (JArr xs) \<Rightarrow> length xs | _ \<Rightarrow> 0)"

record BackupCounts =
  cnt_totalTemplates :: nat
  cnt_totalSalaryRecords :: nat
  cnt_totalEmploymentHistory :: nat
  cnt_totalProfileEntries :: nat
  cnt_totalBudgetHistory :: nat
  cnt_totalImportItems :: nat

datatype toast = ErrorToast string | StoreErrorToast | SuccessToast string

text \<open>The part of the component state the backup import reads and writes, and the toasts
  shown so far. \<open>StoreErrorToast\<close> is the error toast whose text comes from an error object
  thrown during the restore.\<close>

record BackupSummary =
  sum_totalTemplates :: nat
  sum_totalSalaryRecords :: nat
  sum_totalEmploymentHistory :: nat
  sum_totalProfileEntries :: nat
  sum_totalBudgetHistory :: nat

record BackupUi =
  pendingBackupData :: "json option"
  pendingBackupCounts :: "BackupCounts option"
  backupConfirmOpen :: bool
  backupImportSummary :: "BackupSummary option"
  toasts :: "toast list"

definition backupCounts :: "json \<Rightarrow> BackupCounts" where
  "backupCounts data =
     (let totalTemplates = array_length (json_get data ''organizationTemplates'');
          totalSalaryRecords = array_length (json_get data ''salaryRecords'');
          totalEmploymentHistory = array_length (json_get data ''employmentHistory'');
          totalProfileEntries =
            (case json_get data ''profile'' of
               Some p \<Rightarrow> if \<not> json_falsy p \<and> typeof_object p then 1 else 0
             | None \<Rightarrow> 0);
          totalBudgetHistory = array_length (json_get data ''budgetHistory'')
      in \<lparr>cnt_totalTemplates = totalTemplates, cnt_totalSalaryRecords = totalSalaryRecords,
          cnt_totalEmploymentHistory = totalEmploymentHistory,
          cnt_totalProfileEntries = totalProfileEntries,
          cnt_totalBudgetHistory = totalBudgetHistory,
          cnt_totalImportItems = totalTemplates + totalSalaryRecords + totalEmploymentHistory
                                 + totalProfileEntries + totalBudgetHistory\<rparr>)"

text \<open>\<^verbatim>\<open>handleImportBackupFile\<close> for a signed-in user. Every \<^verbatim>\<open>throw\<close> of its \<^verbatim>\<open>try\<close> block ends
  in the \<^verbatim>\<open>catch\<close> block, which shows the message of the error. The function makes no call
  to the store.\<close>

definition handleImportBackupFile :: "BackupFile option \<Rightarrow> BackupUi \<Rightarrow> BackupUi" where
  "handleImportBackupFile file ui =
     (case file of
        None \<Rightarrow> ui
      | Some f \<Rightarrow>
          if file_size f > MAX_FILE_SIZE
          then ui\<lparr>toasts := toasts ui @ [ErrorToast ''Backup file is too large (max 10MB)'']\<rparr>
          else
            (case file_json f of
               None \<Rightarrow> ui\<lparr>toasts := toasts ui @ [ErrorToast ''Invalid backup file format'']\<rparr>
             | Some rawData \<Rightarrow>
                 if json_falsy rawData \<or> \<not> typeof_object rawData
                    \<or> json_get rawData ''version'' \<noteq> Some (JNum (Fin 1))
                 then ui\<lparr>toasts := toasts ui @ [ErrorToast ''Invalid backup file format'']\<rparr>
                 else ui\<lparr>pendingBackupData := Some rawData,
                         pendingBackupCounts := Some (backupCounts rawData),
                         backupImportSummary := None,
                         backupConfirmOpen := True\<rparr>))"

text \<open>
  The restore is observed through the calls it issues: the store is the list of calls
  issued so far and, as before, the position of the one call that fails. A step of the
  restore returns whether it threw.
\<close>

record Remote =
  issued :: "call list"
  failing :: "nat option"

type_synonym step = "Remote \<Rightarrow> bool \<times> Remote"

definition request :: "call \<Rightarrow> step" where
  "request c r = (failing r = Some (length (issued r)), r\<lparr>issued := issued r @ [c]\<rparr>)"

definition throwTypeError :: step where
  "throwTypeError r = (True, r)"

definition skip :: step where
  "skip r = (False, r)"

definition seq :: "step \<Rightarrow> step \<Rightarrow> step" where
  "seq a b r = (case a r of (True, r1) \<Rightarrow> (True, r1) | (False, r1) \<Rightarrow> b r1)"

fun forEach :: "('a \<Rightarrow> step) \<Rightarrow> 'a list \<Rightarrow> step" where
  "forEach f [] = skip"
| "forEach f (x # xs) = seq (f x) (forEach f xs)"

text \<open>\<^verbatim>\<open>if (Array.isArray(v)) for (const x of v) ...\<close>.\<close>

definition forArray :: "(json \<Rightarrow> step) \<Rightarrow> json option \<Rightarrow> step" where
  "forArray f v = (case v of Some (JArr xs) \<Rightarrow> forEach f xs | _ \<Rightarrow> skip)"

text \<open>The insert of the line items of one restored row: \<^verbatim>\<open>if (Array.isArray(items) &&
  items.length > 0) insert(items.map(e => ({ ..., category: e.category })))\<close>. Reading a
  property of \<^verbatim>\<open>null\<close> throws before the call is made.\<close>

definition insertItems :: "table \<Rightarrow> json option \<Rightarrow> step" where
  "insertItems tbl v =
     (case v of
        Some (JArr es) \<Rightarrow>
          if length es > 0
          then (if JNull \<in> set es then throwTypeError else request (Insert tbl))
          else skip
      | _ \<Rightarrow> skip)"

text \<open>The bodies of the four loops of the restore. Destructuring \<^verbatim>\<open>null\<close> throws.\<close>

definition restoreTemplate :: "json \<Rightarrow> step" where
  "restoreTemplate template =
     (if template = JNull then throwTypeError
      else seq (request (Insert organization_templates))
             (seq (insertItems template_earnings (json_get template ''template_earnings''))
                  (insertItems template_deductions (json_get template ''template_deductions''))))"

definition restoreSalaryRecord :: "json \<Rightarrow> step" where
  "restoreSalaryRecord record =
     (if record = JNull then throwTypeError
      else seq (request (Insert salary_records))
             (seq (insertItems earnings_table (json_get record ''earnings''))
                  (insertItems deductions_table (json_get record ''deductions''))))"

definition restoreEmployment :: "json \<Rightarrow> step" where
  "restoreEmployment item =
     (if item = JNull then throwTypeError else request (Insert employment_history))"

definition restoreBudget :: "json \<Rightarrow> step" where
  "restoreBudget entry =
     (if entry = JNull then throwTypeError else request (Insert budget_history))"

definition restoreProfile :: "json option \<Rightarrow> step" where
  "restoreProfile profile =
     (case profile of
        Some p \<Rightarrow> if \<not> json_falsy p \<and> typeof_object p then request (Upsert profiles) else skip
      | None \<Rightarrow> skip)"

text \<open>The \<^verbatim>\<open>try\<close> block of \<^verbatim>\<open>performBackupImport\<close>: the wipe, the delete of the budget
  history, and the restore.\<close>

definition wipeAndRestore :: "json \<Rightarrow> step" where
  "wipeAndRestore data =
     seq (request (Rpc ''wipe_all_salary_data''))
    (seq (request (Delete budget_history))
    (seq (forArray restoreTemplate (json_get data ''organizationTemplates''))
    (seq (forArray restoreSalaryRecord (json_get data ''salaryRecords''))
    (seq (forArray restoreEmployment (json_get data ''employmentHistory''))
    (seq (forArray restoreBudget (json_get data ''budgetHistory''))
         (restoreProfile (json_get data ''profile'')))))))"

text \<open>\<^verbatim>\<open>performBackupImport\<close> for a signed-in user: without pending data or counts it
  returns at once. The \<^verbatim>\<open>finally\<close> block clears the pending data. The progress counters,
  which it resets, are left out.\<close>

definition performBackupImport :: "BackupUi \<times> Remote \<Rightarrow> BackupUi \<times> Remote" where
  "performBackupImport s =
     (case s of (ui, remote) \<Rightarrow>
        (case (pendingBackupData ui, pendingBackupCounts ui) of
           (Some data, Some counts) \<Rightarrow>
             (case wipeAndRestore data remote of
                (True, remote1) \<Rightarrow>
                  (ui\<lparr>backupConfirmOpen := False, pendingBackupData := None,
                      pendingBackupCounts := None,
                      toasts := toasts ui @ [StoreErrorToast]\<rparr>, remote1)
              | (False, remote1) \<Rightarrow>
                  (ui\<lparr>backupConfirmOpen := False, pendingBackupData := None,
                      pendingBackupCounts := None,
                      backupImportSummary :=
                        Some \<lparr>sum_totalTemplates = cnt_totalTemplates counts,
                              sum_totalSalaryRecords = cnt_totalSalaryRecords counts,
                              sum_totalEmploymentHistory = cnt_totalEmploymentHistory counts,
                              sum_totalProfileEntries = cnt_totalProfileEntries counts,
                              sum_totalBudgetHistory = cnt_totalBudgetHistory counts\<rparr>,
                      toasts := toasts ui @ [SuccessToast ''Backup imported successfully'']\<rparr>,
                   remote1))
         | _ \<Rightarrow> (ui, remote)))"

text \<open>
  What the user can do with the backup card: choose a file (or dismiss the file dialog),
  press the action button of the confirmation dialog, or close that dialog. The button is
  on the page only while the dialog is open; the model lets the handler run in any state,
  which covers more runs than the page allows.
\<close>

datatype event = SelectBackupFile "BackupFile option" | ConfirmBackupImport | CloseBackupDialog

fun backup_step :: "BackupUi \<times> Remote \<Rightarrow> event \<Rightarrow> BackupUi \<times> Remote" where
  "backup_step (ui, remote) (SelectBackupFile file) = (handleImportBackupFile file ui, remote)"
| "backup_step (ui, remote) ConfirmBackupImport = performBackupImport (ui, remote)"
| "backup_step (ui, remote) CloseBackupDialog = (ui\<lparr>backupConfirmOpen := False\<rparr>, remote)"

definition backup_run :: "event list \<Rightarrow> BackupUi \<times> Remote \<Rightarrow> BackupUi \<times> Remote" where
  "backup_run es s = foldl backup_step s es"

definition initialUi :: BackupUi where
  "initialUi = \<lparr>pendingBackupData = None, pendingBackupCounts = None, backupConfirmOpen = False,
                 backupImportSummary = None, toasts = []\<rparr>"

text \<open>The files the claim speaks of: larger than 10 MB, not parsable, or parsed to a value
  whose \<^verbatim>\<open>version\<close> is not the number 1.\<close>

definition rejected_file :: "BackupFile \<Rightarrow> bool" where
  "rejected_file f =
     (file_size f > MAX_FILE_SIZE
      \<or> (case file_json f of
            None \<Rightarrow> True
          | Some d \<Rightarrow> json_get d ''version'' \<noteq> Some (JNum (Fin 1))))"

definition exBackup :: json where
  "exBackup = JObj [(''version'', JNum (Fin 1)),
                    (''salaryRecords'', JArr [JObj [(''month'', JNum (Fin 1)),
                                                    (''earnings'', JArr [JObj [(''category'', JStr ''HRA'')]])]]),
                    (''profile'', JObj [(''full_name'', JStr ''A'')])]"

definition exGoodFile :: BackupFile where
  "exGoodFile = \<lparr>file_size = 2048, file_json = Some exBackup\<rparr>"

definition exOldFile :: BackupFile where
  "exOldFile = \<lparr>file_size = 2048, file_json = Some (JObj [(''version'', JNum (Fin 2))])\<rparr>"

definition exRemote :: Remote where
  "exRemote = \<lparr>issued = [], failing = None\<rparr>"

text \<open>A step only adds calls to the ones issued before it.\<close>

definition appends_calls :: "step \<Rightarrow> bool" where
  "appends_calls s = (\<forall>r. \<exists>cs. issued (snd (s r)) = issued r @ cs)"

text \<open>In a list of events, a file that is not rejected is chosen; and such a file is
  chosen and the action button is pressed later.\<close>

definition selected_valid :: "event list \<Rightarrow> bool" where
  "selected_valid es =
     (\<exists>es1 f es2. es = es1 @ SelectBackupFile (Some f) # es2 \<and> \<not> rejected_file f)"

definition confirmed_valid :: "event list \<Rightarrow> bool" where
  "confirmed_valid es =
     (\<exists>es1 f es2 es3. es = es1 @ SelectBackupFile (Some f) # es2 @ ConfirmBackupImport # es3
        \<and> \<not> rejected_file f)"

section \<open>Export to a workbook\<close>

text \<open>
  \<^verbatim>\<open>handleExportToExcel\<close> reads the user's salary records with their earnings and deductions
  nested, groups them by organisation and builds one worksheet for each. A row of the
  result of the select is an \<open>ExportRecord\<close>; the organisation may be \<^verbatim>\<open>null\<close>, here \<open>None\<close>.
\<close>

record ExportRecord =
  exp_month :: jsnum
  exp_year :: jsnum
  exp_organization :: "string option"
  exp_total_earnings :: jsnum
  exp_total_deductions :: jsnum
  exp_net_salary :: jsnum
  exp_earnings :: "LineItem list"
  exp_deductions :: "LineItem list"

text \<open>\<^verbatim>\<open>a >= b\<close>, \<^verbatim>\<open>a <= b\<close>, \<^verbatim>\<open>a === b\<close> and \<^verbatim>\<open>a - b\<close> on numbers.\<close>

definition js_eq :: "jsnum \<Rightarrow> jsnum \<Rightarrow> bool" where
  "js_eq a b = (a = b \<and> a \<noteq> NaN)"

definition js_ge :: "jsnum \<Rightarrow> jsnum \<Rightarrow> bool" where
  "js_ge a b = (js_gt a b \<or> js_eq a b)"

definition js_le :: "jsnum \<Rightarrow> jsnum \<Rightarrow> bool" where
  "js_le a b = (js_lt a b \<or> js_eq a b)"

fun js_sub :: "jsnum \<Rightarrow> jsnum \<Rightarrow> jsnum" where
  "js_sub (Fin a) (Fin b) = Fin (a - b)"
| "js_sub NaN _ = NaN"
| "js_sub _ NaN = NaN"
| "js_sub PosInf PosInf = NaN"
| "js_sub NegInf NegInf = NaN"
| "js_sub PosInf _ = PosInf"
| "js_sub NegInf _ = NegInf"
| "js_sub _ PosInf = NegInf"
| "js_sub _ NegInf = PosInf"

text \<open>\<^verbatim>\<open>Number(x) || 0\<close> on a number: NaN and 0 give 0.\<close>

definition or_zero :: "jsnum \<Rightarrow> jsnum" where
  "or_zero x = (if x = NaN \<or> x = Fin 0 then Fin 0 else x)"

definition normalizeOrgName :: "string option \<Rightarrow> string" where
  "normalizeOrgName rawOrg =
     (let trimmed = trim (case rawOrg of None \<Rightarrow> [] | Some s \<Rightarrow> s)
      in if trimmed = [] then ''Not specified''
         else
           (let upper = toUpperCase trimmed
            in if str_includes upper ''TATA CONSULTANCY'' \<or> upper = ''TCS'' then ''TCS''
               else if str_includes upper ''NATWEST'' \<or> str_includes upper ''NATIONAL WESTMINSTER''
                 then ''NATWEST''
               else if str_includes upper ''RBS'' \<or> str_includes upper ''ROYAL BANK OF SCOTLAND''
                 then ''RBS''
               else if str_includes upper ''CITI'' \<or> str_includes upper ''CITIBANK'' then ''CITI''
               else trimmed))"

text \<open>\<^verbatim>\<open>normalizeOrgName(record.organization || "Not specified")\<close>.\<close>

definition exportOrgName :: "ExportRecord \<Rightarrow> string" where
  "exportOrgName record =
     normalizeOrgName
       (case exp_organization record of
          None \<Rightarrow> Some ''Not specified''
        | Some s \<Rightarrow> if s = [] then Some ''Not specified'' else Some s)"

text \<open>\<^verbatim>\<open>OrgExportData\<close>: the sets are lists in insertion order, the maps of counts are
  functions that give 0 for a category not yet counted.\<close>

record OrgExportData =
  org_records :: "ExportRecord list"
  earningCategories :: "string list"
  deductionCategories :: "string list"
  earningCounts :: "string \<Rightarrow> nat"
  deductionCounts :: "string \<Rightarrow> nat"

definition emptyOrgData :: OrgExportData where
  "emptyOrgData = \<lparr>org_records = [], earningCategories = [], deductionCategories = [],
                    earningCounts = (\<lambda>c. 0), deductionCounts = (\<lambda>c. 0)\<rparr>"

definition addEarning :: "OrgExportData \<Rightarrow> LineItem \<Rightarrow> OrgExportData" where
  "addEarning d e =
     d\<lparr>earningCategories := set_add (earningCategories d) (category e),
       earningCounts := (earningCounts d)(category e := earningCounts d (category e) + 1)\<rparr>"

definition addDeduction :: "OrgExportData \<Rightarrow> LineItem \<Rightarrow> OrgExportData" where
  "addDeduction d e =
     d\<lparr>deductionCategories := set_add (deductionCategories d) (category e),
       deductionCounts := (deductionCounts d)(category e := deductionCounts d (category e) + 1)\<rparr>"

definition addRecord :: "OrgExportData \<Rightarrow> ExportRecord \<Rightarrow> OrgExportData" where
  "addRecord d record =
     foldl addDeduction
       (foldl addEarning (d\<lparr>org_records := org_records d @ [record]\<rparr>) (exp_earnings record))
       (exp_deductions record)"

text \<open>\<^verbatim>\<open>orgMap\<close>, a \<^verbatim>\<open>Map\<close> in insertion order; the body of
  \<^verbatim>\<open>filteredRecords.forEach\<close>.\<close>

definition orgMapStep :: "(string \<times> OrgExportData) list \<Rightarrow> ExportRecord \<Rightarrow> (string \<times> OrgExportData) list" where
  "orgMapStep orgMap record =
     (let orgName = exportOrgName record;
          orgMap1 = (if orgName \<in> set (map fst orgMap) then orgMap
                     else orgMap @ [(orgName, emptyOrgData)])
      in map (\<lambda>(k, d). if k = orgName then (k, addRecord d record) else (k, d)) orgMap1)"

text \<open>\<^verbatim>\<open>records.sort((a, b) => a.year === b.year ? a.month - b.month : a.year - b.year)\<close>.
  The sort is stable; it is written as insertion from the right, which gives the stable
  order whenever the comparator is a consistent order, as it is on finite numbers.\<close>

definition compareRecords :: "ExportRecord \<Rightarrow> ExportRecord \<Rightarrow> jsnum" where
  "compareRecords a b =
     (if js_eq (exp_year a) (exp_year b) then js_sub (exp_month a) (exp_month b)
      else js_sub (exp_year a) (exp_year b))"

fun insertRecord :: "ExportRecord \<Rightarrow> ExportRecord list \<Rightarrow> ExportRecord list" where
  "insertRecord x [] = [x]"
| "insertRecord x (y # ys) =
     (if js_gt (compareRecords x y) (Fin 0) then y # insertRecord x ys else x # y # ys)"

definition sortRecords :: "ExportRecord list \<Rightarrow> ExportRecord list" where
  "sortRecords rs = foldr insertRecord rs []"

text \<open>\<^verbatim>\<open>Array.from(set).sort()\<close> on strings: the order of the code units, a proper prefix
  first.\<close>

fun str_le :: "string \<Rightarrow> string \<Rightarrow> bool" where
  "str_le [] t = True"
| "str_le (c # cs) [] = False"
| "str_le (c # cs) (d # ds) =
     ((of_char c :: nat) < of_char d \<or> (c = d \<and> str_le cs ds))"

fun insertString :: "string \<Rightarrow> string list \<Rightarrow> string list" where
  "insertString x [] = [x]"
| "insertString x (y # ys) = (if str_le x y then x # y # ys else y # insertString x ys)"

definition sortStrings :: "string list \<Rightarrow> string list" where
  "sortStrings xs = foldr insertString xs []"

text \<open>\<^verbatim>\<open>MONTHS[record.month - 1]\<close>: \<^verbatim>\<open>undefined\<close>, here \<open>None\<close>, unless the month is one of the
  integers 1 to 12.\<close>

definition monthName :: "jsnum \<Rightarrow> string option" where
  "monthName m =
     (case m of
        Fin q \<Rightarrow> if q = of_int \<lfloor>q\<rfloor> \<and> 1 \<le> q \<and> q \<le> 12 then Some (MONTHS ! nat (\<lfloor>q\<rfloor> - 1)) else None
      | _ \<Rightarrow> None)"

text \<open>The value written under a category: \<^verbatim>\<open>entry ? Number(entry.amount) : 0\<close> for the first
  entry of the record with that category.\<close>

definition categoryValue :: "LineItem list \<Rightarrow> string \<Rightarrow> jsnum" where
  "categoryValue items cat =
     (case find (\<lambda>e. category e = cat) items of Some entry \<Rightarrow> amount entry | None \<Rightarrow> Fin 0)"

text \<open>One row of a worksheet; \<open>None\<close> when reading \<^verbatim>\<open>.slice\<close> of \<^verbatim>\<open>undefined\<close> throws.\<close>

definition exportRow :: "(jsnum \<Rightarrow> string) \<Rightarrow> string list \<Rightarrow> string list \<Rightarrow> ExportRecord \<Rightarrow> cell list option" where
  "exportRow numStr earningCats deductionCats record =
     (case monthName (exp_month record) of
        None \<Rightarrow> None
      | Some name \<Rightarrow>
          (let monthLabel = toUpperCase (take 3 name) @ '' '' @ numStr (exp_year record)
           in Some ([CStr monthLabel]
                    @ map (\<lambda>cat. CNum (categoryValue (exp_earnings record) cat)) earningCats
                    @ map (\<lambda>cat. CNum (categoryValue (exp_deductions record) cat)) deductionCats
                    @ [CNum (or_zero (exp_total_earnings record)),
                       CNum (or_zero (exp_total_deductions record)),
                       CNum (or_zero (exp_net_salary record))])))"

text \<open>All rows, or \<open>None\<close> when one of them throws.\<close>

fun exportRows :: "(ExportRecord \<Rightarrow> cell list option) \<Rightarrow> ExportRecord list \<Rightarrow> cell list list option" where
  "exportRows f [] = Some []"
| "exportRows f (r # rs) =
     (case f r of
        None \<Rightarrow> None
      | Some row \<Rightarrow> (case exportRows f rs of None \<Rightarrow> None | Some rows \<Rightarrow> Some (row # rows)))"

text \<open>A worksheet handed to \<^verbatim>\<open>book_append_sheet\<close>: its name, the header row and the data
  rows.\<close>

record ExportSheet =
  sheet_name :: string
  sheet_headers :: "string list"
  sheet_rows :: "cell list list"

definition RARE_CATEGORY_THRESHOLD :: nat where
  "RARE_CATEGORY_THRESHOLD = 3"

text \<open>The settings of the export card: the bounds of the year range, \<open>None\<close> for an empty
  field and else the number the field's text converts to, and the two flags for rare
  categories.\<close>

record ExportSettings =
  exportYearFrom :: "jsnum option"
  exportYearTo :: "jsnum option"
  includeRareEarningCategories :: bool
  includeRareDeductionCategories :: bool

text \<open>The body of \<^verbatim>\<open>orgMap.forEach\<close>.\<close>

definition orgSheet :: "(jsnum \<Rightarrow> string) \<Rightarrow> ExportSettings \<Rightarrow> string \<times> OrgExportData \<Rightarrow> ExportSheet option" where
  "orgSheet numStr settings entry =
     (case entry of (orgName, orgData) \<Rightarrow>
        (let sortedE = sortStrings (earningCategories orgData);
             sortedD = sortStrings (deductionCategories orgData);
             earningCats =
               (if \<not> includeRareEarningCategories settings
                then filter (\<lambda>cat. earningCounts orgData cat \<ge> RARE_CATEGORY_THRESHOLD) sortedE
                else sortedE);
             deductionCats =
               (if \<not> includeRareDeductionCategories settings
                then filter (\<lambda>cat. deductionCounts orgData cat \<ge> RARE_CATEGORY_THRESHOLD) sortedD
                else sortedD);
             hs = [''Month Year''] @ earningCats @ deductionCats
                  @ [''Total Earnings'', ''Total Deductions'', ''Net Pay'']
         in case exportRows (exportRow numStr earningCats deductionCats)
                   (sortRecords (org_records orgData)) of
              None \<Rightarrow> None
            | Some rows \<Rightarrow>
                Some \<lparr>sheet_name = (if take 31 orgName = [] then ''Organisation''
                                     else take 31 orgName),
                      sheet_headers = hs, sheet_rows = rows\<rparr>))"

fun orgSheets :: "(jsnum \<Rightarrow> string) \<Rightarrow> ExportSettings \<Rightarrow> (string \<times> OrgExportData) list \<Rightarrow> ExportSheet list option" where
  "orgSheets numStr settings [] = Some []"
| "orgSheets numStr settings (entry # rest) =
     (case orgSheet numStr settings entry of
        None \<Rightarrow> None
      | Some sheet \<Rightarrow>
          (case orgSheets numStr settings rest of
             None \<Rightarrow> None
           | Some others \<Rightarrow> Some (sheet # others)))"

datatype export_error = NoRecords | NoRecordsInRange | Thrown

text \<open>\<^verbatim>\<open>handleExportToExcel\<close> from the result of the select to the worksheets appended to the
  workbook. The two early returns show an error toast; a throw ends in the \<^verbatim>\<open>catch\<close>
  block.\<close>

definition handleExportToExcel :: "(jsnum \<Rightarrow> string) \<Rightarrow> ExportSettings \<Rightarrow> ExportRecord list \<Rightarrow> export_error + ExportSheet list" where
  "handleExportToExcel numStr settings salaryRecords =
     (if length salaryRecords = 0 then Inl NoRecords
      else
        (let filtered1 = (case exportYearFrom settings of
                            None \<Rightarrow> salaryRecords
                          | Some fromYear \<Rightarrow> filter (\<lambda>r. js_ge (exp_year r) fromYear) salaryRecords);
             filteredRecords = (case exportYearTo settings of
                                  None \<Rightarrow> filtered1
                                | Some toYear \<Rightarrow> filter (\<lambda>r. js_le (exp_year r) toYear) filtered1)
         in if length filteredRecords = 0 then Inl NoRecordsInRange
            else (case orgSheets numStr settings (foldl orgMapStep [] filteredRecords) of
                    None \<Rightarrow> Inl Thrown
                  | Some exported \<Rightarrow> Inr exported)))"

subsection \<open>The spreadsheet codec\<close>

text \<open>
  Modelled from the spec: the spreadsheet codec (the \<^verbatim>\<open>xlsx\<close> library), which is not part
  of the repository. Written worksheets come back, on reading, as the sheet names in
  order and for each sheet its rows as header-keyed value maps: a data row gives the
  entries of its cells under the headers of the header row. \<^verbatim>\<open>book_append_sheet\<close> refuses
  a name that is already in the workbook; the export then ends in its \<^verbatim>\<open>catch\<close> block.
  The model applies to distinct, non-empty headers and to sheet names the library
  accepts.
\<close>

definition sheetRowObjects :: "ExportSheet \<Rightarrow> row list" where
  "sheetRowObjects sheet = map (\<lambda>vals. zip (sheet_headers sheet) vals) (sheet_rows sheet)"

definition writeAndRead :: "ExportSheet list \<Rightarrow> Workbook option" where
  "writeAndRead exported =
     (if distinct (map sheet_name exported)
      then Some \<lparr>SheetNames = map sheet_name exported,
                 Sheets = (\<lambda>name. case find (\<lambda>s. sheet_name s = name) exported of
                                     None \<Rightarrow> []
                                   | Some s \<Rightarrow> sheetRowObjects s)\<rparr>
      else None)"

text \<open>Export, then import of the file written: the plan of the import, if both succeed.\<close>

definition exportThenImport :: "(jsnum \<Rightarrow> string) \<Rightarrow> ExportSettings \<Rightarrow> ExportRecord list \<Rightarrow> ImportPlan option" where
  "exportThenImport numStr settings salaryRecords =
     (case handleExportToExcel numStr settings salaryRecords of
        Inl _ \<Rightarrow> None
      | Inr exported \<Rightarrow>
          (case writeAndRead exported of
             None \<Rightarrow> None
           | Some workbook \<Rightarrow>
               (case handleFileUpload numStr workbook of
                  Inl _ \<Rightarrow> None
                | Inr plan \<Rightarrow> Some plan)))"

definition defaultSettings :: ExportSettings where
  "defaultSettings = \<lparr>exportYearFrom = None, exportYearTo = None,
                      includeRareEarningCategories = True,
                      includeRareDeductionCategories = True\<rparr>"

text \<open>A printer of numbers for the examples: the decimal form of the two years they
  use.\<close>

definition exDecimal :: "jsnum \<Rightarrow> string" where
  "exDecimal n = (if n = Fin 2025 then ''2025'' else if n = Fin 2024 then ''2024'' else ''0'')"

definition exExportRecord :: ExportRecord where
  "exExportRecord =
     \<lparr>exp_month = Fin 1, exp_year = Fin 2025, exp_organization = Some ''TCS'',
      exp_total_earnings = Fin 32000, exp_total_deductions = Fin 18000,
      exp_net_salary = Fin 14000,
      exp_earnings = [\<lparr>category = ''HRA'', amount = Fin 32000\<rparr>],
      exp_deductions = [\<lparr>category = ''Income Tax'', amount = Fin 18000\<rparr>]\<rparr>"

text \<open>The same record under the employer's full name and with a net salary of 0.\<close>

definition exExportRecordLongName :: ExportRecord where
  "exExportRecordLongName =
     exExportRecord\<lparr>exp_organization := Some ''Tata Consultancy Services'',
                    exp_net_salary := Fin 0\<rparr>"

subsection \<open>Notions for the round trip\<close>

text \<open>The headers with a fixed place in an exported sheet or a fixed meaning on import.\<close>

definition fixedHeaders :: "string list" where
  "fixedHeaders = [''Month Year'', ''Total Earnings'', ''Total Deductions'', ''Net Salary'',
                   ''Net Pay'']"

text \<open>The import classifies a category of an organisation as an earning, or as a
  deduction.\<close>

definition imports_as_earning :: "string \<Rightarrow> string \<Rightarrow> bool" where
  "imports_as_earning org c =
     (c \<notin> set fixedHeaders
      \<and> (c \<in> set (org_lookup ORG_EARNINGS org)
         \<or> (c \<notin> set (org_lookup ORG_DEDUCTIONS org) \<and> \<not> isDeductionHeader c)))"

definition imports_as_deduction :: "string \<Rightarrow> string \<Rightarrow> bool" where
  "imports_as_deduction org c =
     (c \<notin> set fixedHeaders \<and> c \<notin> set (org_lookup ORG_EARNINGS org)
      \<and> (c \<in> set (org_lookup ORG_DEDUCTIONS org) \<or> isDeductionHeader c))"

text \<open>The printed year is read back by \<^verbatim>\<open>parseInt\<close> and contains no white space.\<close>

definition year_prints :: "(jsnum \<Rightarrow> string) \<Rightarrow> jsnum \<Rightarrow> bool" where
  "year_prints numStr y =
     (parseInt (numStr y) = y \<and> y \<noteq> NaN \<and> (\<forall>c \<in> set (numStr y). \<not> is_ws c))"

text \<open>
  The records for which the round trip is stated: the month is an integer from 1 to 12,
  the year prints and parses, the organisation is its own normal form of at most 31
  characters, the two totals are numbers, and within the earnings and within the
  deductions the categories are distinct, the amounts are not 0, and the import puts
  each category on the side it is stored on.
\<close>

definition roundtrip_ready :: "(jsnum \<Rightarrow> string) \<Rightarrow> ExportRecord \<Rightarrow> bool" where
  "roundtrip_ready numStr r =
     ((\<exists>m. 1 \<le> m \<and> m \<le> 12 \<and> exp_month r = Fin (of_nat m))
      \<and> year_prints numStr (exp_year r)
      \<and> exp_organization r = Some (exportOrgName r) \<and> length (exportOrgName r) \<le> 31
      \<and> exp_total_earnings r \<noteq> NaN \<and> exp_total_deductions r \<noteq> NaN
      \<and> distinct (map category (exp_earnings r)) \<and> distinct (map category (exp_deductions r))
      \<and> (\<forall>e \<in> set (exp_earnings r).
            amount e \<noteq> Fin 0 \<and> imports_as_earning (exportOrgName r) (category e))
      \<and> (\<forall>e \<in> set (exp_deductions r).
            amount e \<noteq> Fin 0 \<and> imports_as_deduction (exportOrgName r) (category e)))"

text \<open>The amount a list of line items has for a category.\<close>

definition amount_of :: "LineItem list \<Rightarrow> string \<Rightarrow> jsnum option" where
  "amount_of items c = map_of (map (\<lambda>e. (category e, amount e)) items) c"

text \<open>An imported record agrees with a persisted one: the same organisation, month, year,
  total earnings and total deductions, and for every category other than \<^verbatim>\<open>Net Pay\<close> the
  same earning and the same deduction. The net salary is not compared.\<close>

definition corresponds :: "ExportRecord \<Rightarrow> ParsedRecord \<Rightarrow> bool" where
  "corresponds r p =
     (Some (organization p) = exp_organization r \<and> month p = exp_month r \<and> year p = exp_year r
      \<and> totalEarnings p = exp_total_earnings r \<and> totalDeductions p = exp_total_deductions r
      \<and> (\<forall>c. c \<noteq> ''Net Pay'' \<longrightarrow>
             amount_of (earnings p) c = amount_of (exp_earnings r) c
           \<and> amount_of (deductions p) c = amount_of (exp_deductions r) c))"

text \<open>The data of one organisation in \<^verbatim>\<open>orgMap\<close> after the records \<open>rs\<close>.\<close>

definition groupData :: "string \<Rightarrow> ExportRecord list \<Rightarrow> OrgExportData" where
  "groupData org rs = foldl addRecord emptyOrgData (filter (\<lambda>r. exportOrgName r = org) rs)"

definition orgMap_inv :: "ExportRecord list \<Rightarrow> (string \<times> OrgExportData) list \<Rightarrow> bool" where
  "orgMap_inv rs orgMap =
     (distinct (map fst orgMap)
      \<and> (\<forall>(k, d) \<in> set orgMap. d = groupData k rs \<and> k \<in> exportOrgName ` set rs)
      \<and> exportOrgName ` set rs \<subseteq> fst ` set orgMap)"

text \<open>The record the import builds from the exported row of a persisted record, under the
  category columns \<open>es\<close> and \<open>ds\<close> of the sheet.\<close>

definition reimported :: "string \<Rightarrow> string list \<Rightarrow> string list \<Rightarrow> ExportRecord \<Rightarrow> ParsedRecord" where
  "reimported org es ds r =
     \<lparr>organization = org, month = exp_month r, year = exp_year r,
      earnings =
        map (\<lambda>c. \<lparr>category = c, amount = categoryValue (exp_earnings r) c\<rparr>)
          (filter (\<lambda>c. categoryValue (exp_earnings r) c \<noteq> Fin 0) es)
        @ (if or_zero (exp_net_salary r) = Fin 0 then []
           else [\<lparr>category = ''Net Pay'', amount = or_zero (exp_net_salary r)\<rparr>]),
      deductions =
        map (\<lambda>c. \<lparr>category = c, amount = categoryValue (exp_deductions r) c\<rparr>)
          (filter (\<lambda>c. categoryValue (exp_deductions r) c \<noteq> Fin 0) ds),
      totalEarnings = or_zero (exp_total_earnings r),
      totalDeductions = or_zero (exp_total_deductions r), netSalary = Fin 0\<rparr>"

text \<open>The header row of an exported sheet with the category columns \<open>es\<close> and \<open>ds\<close>, the
  label of a record's row, and the row object the codec returns for the record.\<close>

definition sheetHeadersOf :: "string list \<Rightarrow> string list \<Rightarrow> string list" where
  "sheetHeadersOf es ds =
     [''Month Year''] @ es @ ds @ [''Total Earnings'', ''Total Deductions'', ''Net Pay'']"

definition monthLabelOf :: "(jsnum \<Rightarrow> string) \<Rightarrow> ExportRecord \<Rightarrow> string" where
  "monthLabelOf numStr r =
     toUpperCase (take 3 (case monthName (exp_month r) of Some name \<Rightarrow> name | None \<Rightarrow> []))
     @ '' '' @ numStr (exp_year r)"

definition rowObjectOf :: "(jsnum \<Rightarrow> string) \<Rightarrow> string list \<Rightarrow> string list \<Rightarrow> ExportRecord \<Rightarrow> row" where
  "rowObjectOf numStr es ds r =
     (''Month Year'', CStr (monthLabelOf numStr r))
     # map (\<lambda>c. (c, CNum (categoryValue (exp_earnings r) c))) es
     @ map (\<lambda>c. (c, CNum (categoryValue (exp_deductions r) c))) ds
     @ [(''Total Earnings'', CNum (or_zero (exp_total_earnings r))),
        (''Total Deductions'', CNum (or_zero (exp_total_deductions r))),
        (''Net Pay'', CNum (or_zero (exp_net_salary r)))]"

text \<open>The category columns of an organisation's sheet fit the import: they are distinct,
  none is a fixed header, and the import takes each earning column for an earning and
  each deduction column for a deduction.\<close>

definition columns_fit :: "string \<Rightarrow> string list \<Rightarrow> string list \<Rightarrow> bool" where
  "columns_fit org es ds =
     (distinct es \<and> distinct ds
      \<and> (\<forall>c \<in> set es. imports_as_earning org c) \<and> (\<forall>c \<in> set ds. imports_as_deduction org c))"

text \<open>For the organisation \<open>k\<close> among the records \<open>rs\<close>: the sorted category columns, the
  sorted records, the sheet the export builds, and the records the import reads from
  it.\<close>

definition earningColumns :: "ExportRecord list \<Rightarrow> string \<Rightarrow> string list" where
  "earningColumns rs k = sortStrings (earningCategories (groupData k rs))"

definition deductionColumns :: "ExportRecord list \<Rightarrow> string \<Rightarrow> string list" where
  "deductionColumns rs k = sortStrings (deductionCategories (groupData k rs))"

definition sortedOf :: "ExportRecord list \<Rightarrow> string \<Rightarrow> ExportRecord list" where
  "sortedOf rs k = sortRecords (org_records (groupData k rs))"

definition exportedSheet :: "(jsnum \<Rightarrow> string) \<Rightarrow> ExportRecord list \<Rightarrow> string \<Rightarrow> ExportSheet" where
  "exportedSheet numStr rs k =
     \<lparr>sheet_name = k,
      sheet_headers = sheetHeadersOf (earningColumns rs k) (deductionColumns rs k),
      sheet_rows = map (\<lambda>r. the (exportRow numStr (earningColumns rs k) (deductionColumns rs k) r))
                     (sortedOf rs k)\<rparr>"

definition reimportedOf :: "ExportRecord list \<Rightarrow> string \<Rightarrow> ParsedRecord list" where
  "reimportedOf rs k =
     map (reimported k (earningColumns rs k) (deductionColumns rs k)) (sortedOf rs k)"

section \<open>Verified properties\<close>

subsection \<open>Strings\<close>

lemma starts_with_iff: "starts_with s p \<longleftrightarrow> (\<exists>ss. s = p @ ss)"
  by (induction s p rule: starts_with.induct) auto

lemma str_includes_iff: "str_includes hay needle \<longleftrightarrow> (\<exists>ps ss. hay = ps @ needle @ ss)"
proof (induction hay)
  case Nil
  then show ?case by simp
next
  case (Cons c cs)
  have "(\<exists>ps ss. c # cs = ps @ needle @ ss)
        \<longleftrightarrow> (\<exists>ss. c # cs = needle @ ss) \<or> (\<exists>ps ss. cs = ps @ needle @ ss)"
  proof
    assume "\<exists>ps ss. c # cs = ps @ needle @ ss"
    then obtain ps ss where e: "c # cs = ps @ needle @ ss" by blast
    show "(\<exists>ss. c # cs = needle @ ss) \<or> (\<exists>ps ss. cs = ps @ needle @ ss)"
    proof (cases ps)
      case Nil
      then show ?thesis using e by auto
    next
      case (Cons p ps')
      then show ?thesis using e by auto
    qed
  next
    assume "(\<exists>ss. c # cs = needle @ ss) \<or> (\<exists>ps ss. cs = ps @ needle @ ss)"
    then show "\<exists>ps ss. c # cs = ps @ needle @ ss"
    proof
      assume "\<exists>ss. c # cs = needle @ ss"
      then obtain ss where "c # cs = [] @ needle @ ss" by auto
      then show ?thesis by blast
    next
      assume "\<exists>ps ss. cs = ps @ needle @ ss"
      then obtain ps ss where "cs = ps @ needle @ ss" by blast
      then have "c # cs = (c # ps) @ needle @ ss" by simp
      then show ?thesis by blast
    qed
  qed
  then show ?case using Cons.IH by (simp add: starts_with_iff)
qed

lemma split_acc_nonempty: "split_acc c cur s \<noteq> []"
  by (induction s arbitrary: cur) auto

lemma split_acc_single:
  "split_acc c cur s = [p] \<longleftrightarrow> (c \<notin> set s \<and> p = rev cur @ s)"
  by (induction s arbitrary: cur p) (auto simp: split_acc_nonempty)

lemma split_acc_two:
  "split_acc c cur s = [p0, p1] \<longleftrightarrow>
     (\<exists>a. s = a @ c # p1 \<and> p0 = rev cur @ a \<and> c \<notin> set a \<and> c \<notin> set p1)"
proof (induction s arbitrary: cur)
  case Nil
  then show ?case by simp
next
  case (Cons x xs)
  show ?case
  proof (cases "x = c")
    case True
    have "(\<exists>a. c # xs = a @ c # p1 \<and> p0 = rev cur @ a \<and> c \<notin> set a \<and> c \<notin> set p1)
          \<longleftrightarrow> (xs = p1 \<and> p0 = rev cur \<and> c \<notin> set p1)"
      by (auto simp: Cons_eq_append_conv)
    then show ?thesis using True by (auto simp: split_acc_single)
  next
    case False
    have "(\<exists>a. x # xs = a @ c # p1 \<and> p0 = rev cur @ a \<and> c \<notin> set a \<and> c \<notin> set p1)
          \<longleftrightarrow> (\<exists>a. xs = a @ c # p1 \<and> p0 = rev (x # cur) @ a \<and> c \<notin> set a \<and> c \<notin> set p1)"
      using False by (auto simp: Cons_eq_append_conv)
    then show ?thesis using False Cons.IH [of "x # cur"] by simp
  qed
qed

lemma split_two:
  "split c s = [p0, p1] \<longleftrightarrow> (s = p0 @ c # p1 \<and> c \<notin> set p0 \<and> c \<notin> set p1)"
  by (auto simp: split_def split_acc_two)

subsection \<open>Month and year\<close>

lemma monthMap_Some: "monthMap u = Some k \<longleftrightarrow> (u, k) \<in> set monthTable"
  unfolding monthMap_def by (rule map_of_eq_Some_iff) (simp add: monthTable_def)

lemma monthTable_pos: "(u, k) \<in> set monthTable \<Longrightarrow> k \<noteq> 0"
  by (auto simp: monthTable_def)

lemma parseMonthYear_Some:
  "parseMonthYear s = Some (m, y) \<longleftrightarrow>
     (\<exists>tok yr k. trim s = tok @ CHR '' '' # yr \<and> CHR '' '' \<notin> set tok \<and> CHR '' '' \<notin> set yr
        \<and> (toUpperCase tok, k) \<in> set monthTable \<and> m = Fin (of_nat k)
        \<and> y = parseInt yr \<and> y \<noteq> NaN)"
proof
  assume a: "parseMonthYear s = Some (m, y)"
  then obtain p0 p1 where sp: "split (CHR '' '') (trim s) = [p0, p1]"
    by (auto simp: parseMonthYear_def split: list.splits)
  with a obtain k where k: "monthMap (toUpperCase p0) = Some k"
    by (auto simp: parseMonthYear_def split: option.splits)
  from a sp k have "m = Fin (of_nat k)" "y = parseInt p1" "\<not> isNaN (parseInt p1)"
    by (auto simp: parseMonthYear_def Let_def split: if_splits)
  moreover have "y \<noteq> NaN" using \<open>y = parseInt p1\<close> \<open>\<not> isNaN (parseInt p1)\<close> by auto
  ultimately show "\<exists>tok yr k. trim s = tok @ CHR '' '' # yr \<and> CHR '' '' \<notin> set tok
        \<and> CHR '' '' \<notin> set yr \<and> (toUpperCase tok, k) \<in> set monthTable \<and> m = Fin (of_nat k)
        \<and> y = parseInt yr \<and> y \<noteq> NaN"
    using sp k by (auto simp: split_two monthMap_Some)
next
  assume "\<exists>tok yr k. trim s = tok @ CHR '' '' # yr \<and> CHR '' '' \<notin> set tok \<and> CHR '' '' \<notin> set yr
        \<and> (toUpperCase tok, k) \<in> set monthTable \<and> m = Fin (of_nat k)
        \<and> y = parseInt yr \<and> y \<noteq> NaN"
  then obtain tok yr k where h: "trim s = tok @ CHR '' '' # yr" "CHR '' '' \<notin> set tok"
      "CHR '' '' \<notin> set yr" "(toUpperCase tok, k) \<in> set monthTable" "m = Fin (of_nat k)"
      "y = parseInt yr" "y \<noteq> NaN"
    by blast
  have sp: "split (CHR '' '') (trim s) = [tok, yr]" using h(1-3) by (simp add: split_two)
  have k: "monthMap (toUpperCase tok) = Some k" using h(4) by (simp add: monthMap_Some)
  have k0: "k \<noteq> 0" using h(4) by (rule monthTable_pos)
  have nn: "\<not> isNaN (parseInt yr)" using h(6,7) by (cases "parseInt yr") auto
  show "parseMonthYear s = Some (m, y)"
    using sp k k0 nn h(5,6) by (simp add: parseMonthYear_def Let_def)
qed

subsection \<open>The loop over the rows\<close>

lemma sheetCtx_sel [simp]:
  "numToString (sheetCtx numStr firstRow org) = numStr"
  "ctx_organization (sheetCtx numStr firstRow org) = org"
  "headers (sheetCtx numStr firstRow org) = map fst firstRow"
  "monthYearHeader (sheetCtx numStr firstRow org) = find_monthYearHeader (map fst firstRow)"
  "orgEarnings (sheetCtx numStr firstRow org) = org_lookup ORG_EARNINGS org"
  "orgDeductions (sheetCtx numStr firstRow org) = org_lookup ORG_DEDUCTIONS org"
  by (simp_all add: sheetCtx_def Let_def)

lemma processSheet_rowLoop:
  "data \<noteq> [] \<Longrightarrow>
   processSheet numStr data org = rowLoop (sheetCtx numStr (hd data) org) 0 data emptyResult"
  by (cases data) (simp_all add: processSheet_def del: rowLoop.simps)

lemma rowStep_skipped_invalid:
  "skippedRows res = length (invalidRows res) \<Longrightarrow>
   skippedRows (rowStep ctx i row res) = length (invalidRows (rowStep ctx i row res))"
  by (simp add: rowStep_def Let_def split: option.splits)

lemma rowLoop_skipped_invalid:
  "skippedRows res = length (invalidRows res) \<Longrightarrow>
   skippedRows (rowLoop ctx i rows res) = length (invalidRows (rowLoop ctx i rows res))"
  by (induction rows arbitrary: i res) (simp_all add: rowStep_skipped_invalid)

lemma processSheet_skipped_invalid:
  "skippedRows (processSheet numStr data org) = length (invalidRows (processSheet numStr data org))"
  by (cases data)
     (simp_all add: processSheet_def emptyResult_def rowLoop_skipped_invalid del: rowLoop.simps)

lemma rowLoop_append:
  "rowLoop ctx i (xs @ ys) res = rowLoop ctx (i + length xs) ys (rowLoop ctx i xs res)"
  by (induction xs arbitrary: i res) simp_all

lemma rowStep_invalid_mono: "set (invalidRows res) \<subseteq> set (invalidRows (rowStep ctx i row res))"
  by (auto simp add: rowStep_def Let_def split: option.splits)

lemma rowLoop_invalid_mono: "set (invalidRows res) \<subseteq> set (invalidRows (rowLoop ctx i rows res))"
proof (induction rows arbitrary: i res)
  case Nil
  then show ?case by simp
next
  case (Cons r rs)
  have "set (invalidRows res) \<subseteq> set (invalidRows (rowStep ctx i r res))"
    by (rule rowStep_invalid_mono)
  also have "\<dots> \<subseteq> set (invalidRows (rowLoop ctx (i + 1) rs (rowStep ctx i r res)))"
    by (rule Cons.IH)
  finally show ?case by simp
qed

lemma rowLoop_split:
  assumes "i < length rows"
  shows "rowLoop ctx 0 rows res =
         rowLoop ctx (i + 1) (drop (i + 1) rows)
           (rowStep ctx i (rows ! i) (rowLoop ctx 0 (take i rows) res))"
proof -
  have "rows = take i rows @ (rows ! i) # drop (i + 1) rows"
    using assms by (simp add: id_take_nth_drop)
  then have "rowLoop ctx 0 rows res =
             rowLoop ctx 0 (take i rows @ (rows ! i) # drop (i + 1) rows) res"
    by simp
  also have "\<dots> = rowLoop ctx (i + 1) (drop (i + 1) rows)
                     (rowStep ctx i (rows ! i) (rowLoop ctx 0 (take i rows) res))"
    using assms by (simp add: rowLoop_append)
  finally show ?thesis .
qed

lemma rowStep_records:
  "r \<in> set (records (rowStep ctx i row res)) \<Longrightarrow>
   r \<in> set (records res) \<or> (\<exists>parsed. r = parsedRecordOf ctx row parsed)"
  by (auto simp: rowStep_def Let_def split: option.splits if_splits)

lemma rowLoop_records:
  "r \<in> set (records (rowLoop ctx i rows res)) \<Longrightarrow>
   r \<in> set (records res) \<or> (\<exists>row \<in> set rows. \<exists>parsed. r = parsedRecordOf ctx row parsed)"
proof (induction rows arbitrary: i res)
  case Nil
  then show ?case by simp
next
  case (Cons r0 rs)
  from Cons.prems have "r \<in> set (records (rowLoop ctx (i + 1) rs (rowStep ctx i r0 res)))"
    by simp
  then have "r \<in> set (records (rowStep ctx i r0 res))
             \<or> (\<exists>row \<in> set rs. \<exists>parsed. r = parsedRecordOf ctx row parsed)"
    by (rule Cons.IH)
  then show ?case
  proof
    assume "r \<in> set (records (rowStep ctx i r0 res))"
    then have "r \<in> set (records res) \<or> (\<exists>parsed. r = parsedRecordOf ctx r0 parsed)"
      by (rule rowStep_records)
    then show ?thesis by auto
  next
    assume "\<exists>row \<in> set rs. \<exists>parsed. r = parsedRecordOf ctx row parsed"
    then show ?thesis by auto
  qed
qed

lemma processSheet_records:
  assumes "r \<in> set (records (processSheet numStr data org))"
  shows "\<exists>row \<in> set data. \<exists>parsed. r = parsedRecordOf (sheetCtx numStr (hd data) org) row parsed"
proof (cases data)
  case Nil
  then show ?thesis using assms by (simp add: processSheet_def emptyResult_def)
next
  case (Cons r0 rs)
  then have "processSheet numStr data org =
             rowLoop (sheetCtx numStr (hd data) org) 0 data emptyResult"
    by (simp add: processSheet_rowLoop)
  then have "r \<in> set (records (rowLoop (sheetCtx numStr (hd data) org) 0 data emptyResult))"
    using assms by simp
  then have "r \<in> set (records emptyResult)
             \<or> (\<exists>row \<in> set data. \<exists>parsed.
                   r = parsedRecordOf (sheetCtx numStr (hd data) org) row parsed)"
    by (rule rowLoop_records)
  then show ?thesis by (simp add: emptyResult_def)
qed

subsection \<open>The loop over the headers\<close>

lemma headerStep_items:
  assumes "\<forall>e \<in> set (acc_earnings acc) \<union> set (acc_deductions acc). item_ok row e"
  shows "\<forall>e \<in> set (acc_earnings (headerStep ctx row acc h))
              \<union> set (acc_deductions (headerStep ctx row acc h)). item_ok row e"
  using assms by (auto simp: headerStep_def item_ok_def split: option.splits)

lemma foldl_headerStep_items:
  assumes "\<forall>e \<in> set (acc_earnings acc) \<union> set (acc_deductions acc). item_ok row e"
  shows "\<forall>e \<in> set (acc_earnings (foldl (headerStep ctx row) acc hs))
              \<union> set (acc_deductions (foldl (headerStep ctx row) acc hs)). item_ok row e"
  using assms
proof (induction hs arbitrary: acc)
  case Nil
  then show ?case by simp
next
  case (Cons h hs)
  show ?case unfolding foldl_Cons by (rule Cons.IH) (rule headerStep_items [OF Cons.prems])
qed

lemma parsedRecordOf_items:
  "\<forall>e \<in> set (earnings (parsedRecordOf ctx row parsed))
         \<union> set (deductions (parsedRecordOf ctx row parsed)). item_ok row e"
  using foldl_headerStep_items [of emptyRowAcc row ctx "headers ctx"]
  by (simp add: parsedRecordOf_def Let_def emptyRowAcc_def)

lemma processSheet_items:
  assumes "r \<in> set (records (processSheet numStr data org))"
    and "e \<in> set (earnings r) \<union> set (deductions r)"
  shows "amount e \<noteq> Fin 0"
proof -
  from processSheet_records [OF assms(1)] obtain row parsed where
    "r = parsedRecordOf (sheetCtx numStr (hd data) org) row parsed" by blast
  then have "item_ok row e" using parsedRecordOf_items assms(2) by blast
  then show ?thesis by (simp add: item_ok_def)
qed

lemma isDeductionHeader_iff:
  "isDeductionHeader h \<longleftrightarrow>
     (\<exists>kw \<in> set deductionKeywords. \<exists>ps ss. toLowerCase h = ps @ kw @ ss)"
  by (simp add: isDeductionHeader_def Let_def list_ex_iff str_includes_iff)

subsection \<open>The plan\<close>

lemma sheetStep_consistent:
  "plan_consistent numStr wb plan \<Longrightarrow> plan_consistent numStr wb (sheetStep numStr wb plan name)"
  by (simp add: plan_consistent_def sheetStep_def Let_def processSheet_skipped_invalid)

lemma foldl_sheetStep_consistent:
  "plan_consistent numStr wb plan \<Longrightarrow>
   plan_consistent numStr wb (foldl (sheetStep numStr wb) plan names)"
  by (induction names arbitrary: plan) (simp_all add: sheetStep_consistent)

lemma handleFileUpload_consistent:
  assumes "handleFileUpload numStr wb = Inr plan"
  shows "plan_consistent numStr wb plan"
proof -
  have "plan_consistent numStr wb emptyPlan" by (simp add: plan_consistent_def emptyPlan_def)
  then have "plan_consistent numStr wb (foldl (sheetStep numStr wb) emptyPlan (SheetNames wb))"
    by (rule foldl_sheetStep_consistent)
  moreover have "plan = foldl (sheetStep numStr wb) emptyPlan (SheetNames wb)"
    using assms by (simp add: handleFileUpload_def Let_def split: if_splits)
  ultimately show ?thesis by simp
qed

subsection \<open>The executor\<close>

lemma in_range_iff:
  "in_range lo hi n \<longleftrightarrow> isFinite n \<and> \<not> js_lt n (Fin lo) \<and> \<not> js_gt n (Fin hi)"
  by (cases n) (auto simp: in_range_def js_gt_def)

lemma invalidItem_iff: "invalidItem e \<longleftrightarrow> \<not> in_range 0 100000000 (amount e)"
  by (auto simp: invalidItem_def in_range_iff MAX_AMOUNT_def)

lemma executor_bounds_iff:
  "executor_bounds r \<longleftrightarrow> \<not> invalidMonthYear r \<and> \<not> invalidTotals r \<and> \<not> hasInvalidLineItem r"
  by (auto simp: executor_bounds_def invalidMonthYear_def invalidTotals_def
        hasInvalidLineItem_def list_ex_iff invalidItem_iff in_range_iff MAX_AMOUNT_def
        MIN_YEAR_def MAX_YEAR_def)

lemma upsert_calls:
  "calls (snd (upsert_salary_record new st)) = calls st @ [Upsert salary_records]"
  by (simp add: upsert_salary_record_def issue_def Let_def split: option.splits)

lemma insert_earnings_calls:
  "calls (snd (insert_earnings rows st)) = calls st @ [Insert earnings_table]"
  by (simp add: insert_earnings_def issue_def Let_def)

lemma insert_deductions_calls:
  "calls (snd (insert_deductions rows st)) = calls st @ [Insert deductions_table]"
  by (simp add: insert_deductions_def issue_def Let_def)

lemma insert_earnings_salary [simp]:
  "tbl_salary_records (snd (insert_earnings rows st)) = tbl_salary_records st"
  by (simp add: insert_earnings_def issue_def Let_def)

lemma insert_deductions_salary [simp]:
  "tbl_salary_records (snd (insert_deductions rows st)) = tbl_salary_records st"
  by (simp add: insert_deductions_def issue_def Let_def)

lemma importRecord_skip: "\<not> executor_bounds r \<Longrightarrow> importRecord uid r run = run"
  by (auto simp: executor_bounds_iff importRecord_def)

lemma importRecord_calls:
  assumes "executor_bounds r"
  shows "\<exists>cs. calls (store (importRecord uid r run)) = calls (store run) @ Upsert salary_records # cs"
proof -
  let ?new = "\<lparr>salary_row_id = 0, user_id = uid, row_organization = organization r,
                 row_month = month r, row_year = year r,
                 total_earnings = totalEarnings r,
                 total_deductions = totalDeductions r,
                 net_salary = netSalary r, gross_salary = totalEarnings r\<rparr>"
  obtain res st1 where u: "upsert_salary_record ?new (store run) = (res, st1)"
    by (cases "upsert_salary_record ?new (store run)")
  have l1: "calls st1 = calls (store run) @ [Upsert salary_records]"
    using upsert_calls [of ?new "store run"] u by simp
  obtain e1 st2 where
    i1: "insert_earnings (itemRows (salary_row_id (projr res)) (earnings r)) st1 = (e1, st2)"
    by (cases "insert_earnings (itemRows (salary_row_id (projr res)) (earnings r)) st1")
  have l2: "calls st2 = calls st1 @ [Insert earnings_table]"
    using insert_earnings_calls [of "itemRows (salary_row_id (projr res)) (earnings r)" st1] i1
    by simp
  obtain e2 st3 where
    i2: "insert_deductions (itemRows (salary_row_id (projr res)) (deductions r)) st2 = (e2, st3)"
    by (cases "insert_deductions (itemRows (salary_row_id (projr res)) (deductions r)) st2")
  have l3: "calls st3 = calls st2 @ [Insert deductions_table]"
    using insert_deductions_calls [of "itemRows (salary_row_id (projr res)) (deductions r)" st2] i2
    by simp
  obtain e2' st3' where
    i2': "insert_deductions (itemRows (salary_row_id (projr res)) (deductions r)) st1 = (e2', st3')"
    by (cases "insert_deductions (itemRows (salary_row_id (projr res)) (deductions r)) st1")
  have l3': "calls st3' = calls st1 @ [Insert deductions_table]"
    using insert_deductions_calls [of "itemRows (salary_row_id (projr res)) (deductions r)" st1] i2'
    by simp
  show ?thesis
    using assms u l1 i1 l2 i2 l3 i2' l3'
    by (cases res) (auto simp: executor_bounds_iff importRecord_def Let_def)
qed

lemma find_same_key_in_map:
  assumes "find (same_key new) rows = Some old"
  shows "r \<in> set (map (\<lambda>x. if same_key new x then r else x) rows)"
proof -
  from assms have "old \<in> set rows" "same_key new old"
    by (auto simp: find_Some_iff)
  then show ?thesis by force
qed

lemma upsert_ok:
  assumes "failAt st \<noteq> Some (length (calls st))"
  shows "\<exists>rid st1. upsert_salary_record new st = (Inr (new\<lparr>salary_row_id := rid\<rparr>), st1)
            \<and> new\<lparr>salary_row_id := rid\<rparr> \<in> set (tbl_salary_records st1)"
proof (cases "find (same_key new) (tbl_salary_records st)")
  case None
  then show ?thesis using assms
    by (intro exI [of _ "nextId st"]) (simp add: upsert_salary_record_def issue_def Let_def)
next
  case (Some old)
  then show ?thesis using assms find_same_key_in_map [OF Some]
    by (intro exI [of _ "salary_row_id old"])
       (simp add: upsert_salary_record_def issue_def Let_def)
qed

lemma importRecord_row:
  assumes "executor_bounds r" and "failAt (store run) \<noteq> Some (length (calls (store run)))"
  shows "\<exists>rid. \<lparr>salary_row_id = rid, user_id = uid, row_organization = organization r,
                 row_month = month r, row_year = year r,
                 total_earnings = totalEarnings r,
                 total_deductions = totalDeductions r,
                 net_salary = netSalary r, gross_salary = totalEarnings r\<rparr>
               \<in> set (tbl_salary_records (store (importRecord uid r run)))"
proof -
  let ?new = "\<lparr>salary_row_id = 0, user_id = uid, row_organization = organization r,
                 row_month = month r, row_year = year r,
                 total_earnings = totalEarnings r,
                 total_deductions = totalDeductions r,
                 net_salary = netSalary r, gross_salary = totalEarnings r\<rparr>"
  from upsert_ok [OF assms(2), of ?new] obtain rid st1 where
    u: "upsert_salary_record ?new (store run) = (Inr (?new\<lparr>salary_row_id := rid\<rparr>), st1)"
    and m: "?new\<lparr>salary_row_id := rid\<rparr> \<in> set (tbl_salary_records st1)" by blast
  have keep: "tbl_salary_records (store (importRecord uid r run)) = tbl_salary_records st1"
  proof -
    obtain e1 st2 where i1: "insert_earnings (itemRows rid (earnings r)) st1 = (e1, st2)"
      by (cases "insert_earnings (itemRows rid (earnings r)) st1")
    have k2: "tbl_salary_records st2 = tbl_salary_records st1"
      using insert_earnings_salary [of "itemRows rid (earnings r)" st1] i1 by simp
    obtain e2 st3 where i2: "insert_deductions (itemRows rid (deductions r)) st2 = (e2, st3)"
      by (cases "insert_deductions (itemRows rid (deductions r)) st2")
    have k3: "tbl_salary_records st3 = tbl_salary_records st2"
      using insert_deductions_salary [of "itemRows rid (deductions r)" st2] i2 by simp
    obtain e2' st3' where i2': "insert_deductions (itemRows rid (deductions r)) st1 = (e2', st3')"
      by (cases "insert_deductions (itemRows rid (deductions r)) st1")
    have k3': "tbl_salary_records st3' = tbl_salary_records st1"
      using insert_deductions_salary [of "itemRows rid (deductions r)" st1] i2' by simp
    show ?thesis
      using assms(1) u i1 k2 i2 k3 i2' k3'
      by (auto simp: executor_bounds_iff importRecord_def Let_def)
  qed
  show ?thesis using m keep by auto
qed

subsection \<open>The example data, evaluated\<close>

lemmas str_defs = toLowerCase_def toLowerChar_def toUpperCase_def toUpperChar_def lowers_def
  uppers_def

lemmas header_defs = TOTAL_EARNINGS_HEADER_def TOTAL_DEDUCTIONS_HEADER_def NET_SALARY_HEADER_def
  RESERVED_HEADERS_has_def

lemma ex_monthYearHeader:
  "find_monthYearHeader [''Month Year'', ''Conveyance Taxable'', ''HRA'', ''Income Tax'']
     = Some ''Month Year''"
  "find_monthYearHeader [''Month Year'', ''Bonus''] = Some ''Month Year''"
  by (simp_all add: find_monthYearHeader_def str_defs)

lemma ex_org_lists:
  "org_lookup ORG_EARNINGS ''TCS'' =
     [''Basic Salary'', ''BoB Kitty Allowance'', ''Conveyance Taxable'',
      ''Conveyance Non Taxable'', ''HRA'', ''Sundry Medical'', ''LTA'', ''Personal Allowance'',
      ''Miscellaneous'', ''City Allowance'', ''Performance Pay'', ''Leave Encashment'']"
  "org_lookup ORG_DEDUCTIONS ''TCS'' =
     [''Provident Fund'', ''Income Tax'', ''Health Insurance Scheme Premium'',
      ''Professional Tax'', ''Labour Welfare'', ''Transport Recovery'', ''TCS Welfar Trust'',
      ''Earlier Payout'', ''Principal Loan Amount'']"
  "org_lookup ORG_EARNINGS ''ACME'' = []"
  "org_lookup ORG_DEDUCTIONS ''ACME'' = []"
  by (simp_all add: org_lookup_def ORG_EARNINGS_def ORG_DEDUCTIONS_def)

lemma exCtx_sel:
  "numToString exCtx = exNumStr"
  "ctx_organization exCtx = ''TCS''"
  "headers exCtx = [''Month Year'', ''Conveyance Taxable'', ''HRA'', ''Income Tax'']"
  "monthYearHeader exCtx = Some ''Month Year''"
  "orgEarnings exCtx = org_lookup ORG_EARNINGS ''TCS''"
  "orgDeductions exCtx = org_lookup ORG_DEDUCTIONS ''TCS''"
  by (simp_all add: exCtx_def exRow_def ex_monthYearHeader)

lemma ex_parse:
  "parseMonthYear ''JAN 2025'' = Some (Fin 1, Fin 2025)"
  "parseMonthYear ''JAN 25'' = Some (Fin 1, Fin 25)"
  "parseMonthYear ''January 2025'' = None"
  by code_simp+

lemma ex_numVal:
  "numVal_of (row_get exRow ''Month Year'') = Some (Fin 2025)"
  "numVal_of (row_get exRow ''Conveyance Taxable'') = Some (Fin 1600)"
  "numVal_of (row_get exRow ''HRA'') = Some (Fin 0)"
  "numVal_of (row_get exRow ''Income Tax'') = Some (Fin 18000)"
  by (simp_all add: row_get_def exRow_def numVal_of_def cleaned_of_def is_digit_def
        digit_val_def parseFloat_def is_ws_def)

lemma ex_headerSteps:
  "headerStep exCtx exRow acc ''Month Year'' = acc"
  "headerStep exCtx exRow acc ''Conveyance Taxable'' =
     acc\<lparr>acc_earnings := acc_earnings acc @ [\<lparr>category = ''Conveyance Taxable'', amount = Fin 1600\<rparr>]\<rparr>"
  "headerStep exCtx exRow acc ''HRA'' = acc"
  "headerStep exCtx exRow acc ''Income Tax'' =
     acc\<lparr>acc_deductions := acc_deductions acc @ [\<lparr>category = ''Income Tax'', amount = Fin 18000\<rparr>]\<rparr>"
  by (simp_all add: headerStep_def ex_numVal exCtx_sel ex_org_lists header_defs)

lemma ex_record: "parsedRecordOf exCtx exRow (Fin 1, Fin 2025) = exRecord"
  by (simp add: parsedRecordOf_def exCtx_sel ex_headerSteps emptyRowAcc_def exRecord_def)

lemma ex_cells:
  "monthYearCell exCtx exRow = Some (CStr ''JAN 2025'')"
  "monthYearCell exCtx exRowMissing = Some (CStr [])"
  "monthYearCell exCtx exRowBadMonth = Some (CStr ''January 2025'')"
  by (simp_all add: monthYearCell_def exCtx_sel row_get_def exRow_def exRowMissing_def
        exRowBadMonth_def)

lemma ex_rowSteps:
  "rowStep exCtx i exRow res = res\<lparr>records := records res @ [exRecord]\<rparr>"
  "rowStep exCtx i exRowMissing res =
     res\<lparr>skippedRows := skippedRows res + 1,
         invalidRows := invalidRows res @
           [\<lparr>sheetName = ''TCS'', excelRowNumber = i + 2, reason = ''Missing Month/Year value''\<rparr>]\<rparr>"
  "rowStep exCtx i exRowBadMonth res =
     res\<lparr>skippedRows := skippedRows res + 1,
         invalidRows := invalidRows res @
           [\<lparr>sheetName = ''TCS'', excelRowNumber = i + 2,
             reason = ''Invalid Month/Year format: January 2025''\<rparr>]\<rparr>"
  by (simp_all add: rowStep_def ex_cells falsy_def String_of_def ex_parse ex_record exCtx_sel)

lemma ex_sheet:
  "processSheet exNumStr [exRow, exRowMissing, exRowBadMonth] ''TCS'' =
     \<lparr>records = [exRecord], skippedRows = 2,
      invalidRows =
        [\<lparr>sheetName = ''TCS'', excelRowNumber = 3, reason = ''Missing Month/Year value''\<rparr>,
         \<lparr>sheetName = ''TCS'', excelRowNumber = 4,
           reason = ''Invalid Month/Year format: January 2025''\<rparr>]\<rparr>"
  "processSheet exNumStr [exRow] ''TCS'' = \<lparr>records = [exRecord], skippedRows = 0, invalidRows = []\<rparr>"
  "processSheet exNumStr [] ''Cover'' = \<lparr>records = [], skippedRows = 0, invalidRows = []\<rparr>"
  by (simp_all add: processSheet_def exCtx_def [symmetric] ex_rowSteps emptyResult_def)

lemma ex_plan: "handleFileUpload exNumStr exWorkbook = Inr exPlan"
  by (simp add: handleFileUpload_def exWorkbook_def sheetStep_def ex_sheet emptyPlan_def
        exPlan_def)

subsection \<open>Claims on the row parser and the plan\<close>

text \<open>
  C7. A data row whose Month/Year cell is missing or the empty string is skipped: the
  loop body adds 1 to \<open>skippedRows\<close>, appends an \<open>InvalidRow\<close> with the reason
  \<^verbatim>\<open>Missing Month/Year value\<close> and the row number \<open>i + 2\<close> for the row at index \<open>i\<close>
  (the header row is row 1), and leaves \<open>records\<close> as it is; the diagnostic is among the
  invalid rows \<^verbatim>\<open>processSheet\<close> returns for the sheet.
\<close>

theorem missing_month_year_row:
  assumes "i < length data"
    and "monthYearCell (sheetCtx numStr (hd data) org) (data ! i) = None
         \<or> monthYearCell (sheetCtx numStr (hd data) org) (data ! i) = Some (CStr [])"
  shows "rowStep (sheetCtx numStr (hd data) org) i (data ! i) res =
           res\<lparr>skippedRows := skippedRows res + 1,
               invalidRows := invalidRows res @
                 [\<lparr>sheetName = org, excelRowNumber = i + 2,
                   reason = ''Missing Month/Year value''\<rparr>]\<rparr>
     \<and> records (rowStep (sheetCtx numStr (hd data) org) i (data ! i) res) = records res
     \<and> \<lparr>sheetName = org, excelRowNumber = i + 2, reason = ''Missing Month/Year value''\<rparr>
           \<in> set (invalidRows (processSheet numStr data org))"
proof -
  let ?ctx = "sheetCtx numStr (hd data) org"
  let ?bad = "\<lparr>sheetName = org, excelRowNumber = i + 2, reason = ''Missing Month/Year value''\<rparr>"
  have f: "falsy (monthYearCell ?ctx (data ! i))" using assms(2) by (auto simp: falsy_def)
  have step: "rowStep ?ctx i (data ! i) res' =
           res'\<lparr>skippedRows := skippedRows res' + 1, invalidRows := invalidRows res' @ [?bad]\<rparr>"
    for res'
    using f by (simp add: rowStep_def Let_def)
  have ne: "data \<noteq> []" using assms(1) by auto
  have "processSheet numStr data org = rowLoop ?ctx 0 data emptyResult"
    using ne by (rule processSheet_rowLoop)
  also have "\<dots> = rowLoop ?ctx (i + 1) (drop (i + 1) data)
                     (rowStep ?ctx i (data ! i) (rowLoop ?ctx 0 (take i data) emptyResult))"
    using assms(1) by (rule rowLoop_split)
  finally have eq: "processSheet numStr data org = rowLoop ?ctx (i + 1) (drop (i + 1) data)
                     (rowStep ?ctx i (data ! i) (rowLoop ?ctx 0 (take i data) emptyResult))" .
  have "?bad \<in> set (invalidRows (rowStep ?ctx i (data ! i)
                                   (rowLoop ?ctx 0 (take i data) emptyResult)))"
    by (simp add: step)
  then have "?bad \<in> set (invalidRows (rowLoop ?ctx (i + 1) (drop (i + 1) data)
                     (rowStep ?ctx i (data ! i) (rowLoop ?ctx 0 (take i data) emptyResult))))"
    by (rule subsetD [OF rowLoop_invalid_mono])
  then have mem: "?bad \<in> set (invalidRows (processSheet numStr data org))"
    by (simp only: eq)
  show ?thesis using step [of res] mem by simp
qed

theorem missing_month_year_row_witness:
  "(1::nat) < length [exRow, exRowMissing, exRowBadMonth]
   \<and> monthYearCell (sheetCtx exNumStr (hd [exRow, exRowMissing, exRowBadMonth]) ''TCS'')
        ([exRow, exRowMissing, exRowBadMonth] ! 1) = Some (CStr [])
   \<and> rowStep (sheetCtx exNumStr (hd [exRow, exRowMissing, exRowBadMonth]) ''TCS'') 1
        ([exRow, exRowMissing, exRowBadMonth] ! 1) emptyResult =
       emptyResult\<lparr>skippedRows := 1,
         invalidRows := [\<lparr>sheetName = ''TCS'', excelRowNumber = 3,
                           reason = ''Missing Month/Year value''\<rparr>]\<rparr>
   \<and> \<lparr>sheetName = ''TCS'', excelRowNumber = 3, reason = ''Missing Month/Year value''\<rparr>
        \<in> set (invalidRows (processSheet exNumStr [exRow, exRowMissing, exRowBadMonth] ''TCS''))"
proof -
  let ?data = "[exRow, exRowMissing, exRowBadMonth]"
  have h1: "(1::nat) < length ?data" by simp
  have c: "monthYearCell (sheetCtx exNumStr (hd ?data) ''TCS'') (?data ! 1) = Some (CStr [])"
    by (simp add: exCtx_def [symmetric] ex_cells)
  then have h2: "monthYearCell (sheetCtx exNumStr (hd ?data) ''TCS'') (?data ! 1) = None
     \<or> monthYearCell (sheetCtx exNumStr (hd ?data) ''TCS'') (?data ! 1) = Some (CStr [])"
    by simp
  show ?thesis
    using h1 c missing_month_year_row [OF h1 h2, of emptyResult]
    by (simp add: emptyResult_def numeral_3_eq_3)
qed

text \<open>
  C10. A plan built by \<^verbatim>\<open>handleFileUpload\<close> is consistent: for each sheet of the plan
  \<open>skippedRows\<close> is the number of invalid rows \<^verbatim>\<open>processSheet\<close> reports for that sheet,
  \<open>totalRecordsToImport\<close> is the sum of the lengths of the sheets' record lists,
  \<open>totalSkippedRows\<close> is the sum of their \<open>skippedRows\<close>, and \<open>invalidRows\<close> is the
  concatenation of the sheets' invalid rows in sheet order.
\<close>

theorem import_plan_consistent:
  assumes "handleFileUpload numStr wb = Inr plan"
  shows "(\<forall>sp \<in> set (sheets plan).
            sp_skippedRows sp =
              length (invalidRows (processSheet numStr (Sheets wb (sp_sheetName sp))
                                     (sp_sheetName sp))))
     \<and> totalRecordsToImport plan = sum_list (map (\<lambda>sp. length (sp_records sp)) (sheets plan))
     \<and> totalSkippedRows plan = sum_list (map sp_skippedRows (sheets plan))
     \<and> plan_invalidRows plan =
          concat (map (\<lambda>sp. invalidRows (processSheet numStr (Sheets wb (sp_sheetName sp))
                                           (sp_sheetName sp)))
                    (sheets plan))"
  using handleFileUpload_consistent [OF assms] by (simp add: plan_consistent_def)

theorem import_plan_consistent_witness:
  "handleFileUpload exNumStr exWorkbook = Inr exPlan
   \<and> sheets exPlan \<noteq> []
   \<and> list_all (\<lambda>sp. sp_skippedRows sp =
           length (invalidRows (processSheet exNumStr (Sheets exWorkbook (sp_sheetName sp))
                                  (sp_sheetName sp))))
        (sheets exPlan)
   \<and> totalRecordsToImport exPlan = sum_list (map (\<lambda>sp. length (sp_records sp)) (sheets exPlan))
   \<and> totalSkippedRows exPlan = sum_list (map sp_skippedRows (sheets exPlan))
   \<and> plan_invalidRows exPlan =
        concat (map (\<lambda>sp. invalidRows (processSheet exNumStr (Sheets exWorkbook (sp_sheetName sp))
                                         (sp_sheetName sp)))
                  (sheets exPlan))"
proof -
  have h: "handleFileUpload exNumStr exWorkbook = Inr exPlan" by (rule ex_plan)
  have ne: "sheets exPlan \<noteq> []" by (simp add: exPlan_def)
  show ?thesis using h ne import_plan_consistent [OF h] unfolding list_all_iff by blast
qed

text \<open>
  C6. A cell that is numeric 0, or that cannot be coerced to a number, gives no line item:
  its header is the category of no entry of the earnings and of the deductions of the
  row's record; and no record \<^verbatim>\<open>processSheet\<close> returns has a line item with amount 0.
\<close>

theorem no_zero_line_items:
  "(numVal_of (row_get row h) = None \<or> numVal_of (row_get row h) = Some (Fin 0)
      \<longrightarrow> h \<notin> category ` set (earnings (parsedRecordOf ctx row parsed))
        \<and> h \<notin> category ` set (deductions (parsedRecordOf ctx row parsed)))
   \<and> (\<forall>r \<in> set (records (processSheet numStr data org)).
         \<forall>e \<in> set (earnings r) \<union> set (deductions r). amount e \<noteq> Fin 0)"
proof (intro conjI impI ballI)
  assume z: "numVal_of (row_get row h) = None \<or> numVal_of (row_get row h) = Some (Fin 0)"
  have ok: "\<forall>e \<in> set (earnings (parsedRecordOf ctx row parsed))
                  \<union> set (deductions (parsedRecordOf ctx row parsed)). item_ok row e"
    by (rule parsedRecordOf_items)
  show "h \<notin> category ` set (earnings (parsedRecordOf ctx row parsed))"
    using ok z by (auto simp: item_ok_def)
  show "h \<notin> category ` set (deductions (parsedRecordOf ctx row parsed))"
    using ok z by (auto simp: item_ok_def)
next
  fix r e
  assume "r \<in> set (records (processSheet numStr data org))"
    and "e \<in> set (earnings r) \<union> set (deductions r)"
  then show "amount e \<noteq> Fin 0" by (rule processSheet_items)
qed

theorem no_zero_line_items_witness:
  "numVal_of (row_get exRow ''HRA'') = Some (Fin 0)
   \<and> ''HRA'' \<notin> category ` set (earnings (parsedRecordOf exCtx exRow (Fin 1, Fin 2025)))
   \<and> ''HRA'' \<notin> category ` set (deductions (parsedRecordOf exCtx exRow (Fin 1, Fin 2025)))
   \<and> records (processSheet exNumStr [exRow] ''TCS'') = [exRecord]
   \<and> list_all (\<lambda>r. list_all (\<lambda>e. amount e \<noteq> Fin 0) (earnings r @ deductions r))
        (records (processSheet exNumStr [exRow] ''TCS''))"
proof -
  have h: "numVal_of (row_get exRow ''HRA'') = Some (Fin 0)" by (rule ex_numVal)
  have r: "records (processSheet exNumStr [exRow] ''TCS'') = [exRecord]" by (simp add: ex_sheet)
  note t = no_zero_line_items [of exRow "''HRA''" exCtx "(Fin 1, Fin 2025)" exNumStr "[exRow]"
                                  "''TCS''"]
  have a: "''HRA'' \<notin> category ` set (earnings (parsedRecordOf exCtx exRow (Fin 1, Fin 2025)))
     \<and> ''HRA'' \<notin> category ` set (deductions (parsedRecordOf exCtx exRow (Fin 1, Fin 2025)))"
    using t h by blast
  have b: "list_all (\<lambda>r. list_all (\<lambda>e. amount e \<noteq> Fin 0) (earnings r @ deductions r))
        (records (processSheet exNumStr [exRow] ''TCS''))"
    using t unfolding list_all_iff by auto
  show ?thesis using h r a b by blast
qed

text \<open>
  C5. For a header that is not reserved and whose cell has a numeric value other than 0,
  the checks run in a fixed order and the first match decides: a header in the
  organization's earning list is an earning (also when it contains a deduction keyword),
  else a header in the organization's deduction list is a deduction, else a header whose
  lower-case form contains one of the deduction keywords is a deduction, else it is an
  earning.
\<close>

theorem classifier_order:
  assumes "\<not> RESERVED_HEADERS_has (monthYearHeader ctx) h"
    and "numVal_of (row_get row h) = Some n"
    and "n \<noteq> Fin 0"
  shows "headerStep ctx row acc h =
     (if h \<in> set (orgEarnings ctx)
        then acc\<lparr>acc_earnings := acc_earnings acc @ [\<lparr>category = h, amount = n\<rparr>]\<rparr>
      else if h \<in> set (orgDeductions ctx)
        then acc\<lparr>acc_deductions := acc_deductions acc @ [\<lparr>category = h, amount = n\<rparr>]\<rparr>
      else if (\<exists>kw \<in> set deductionKeywords. \<exists>ps ss. toLowerCase h = ps @ kw @ ss)
        then acc\<lparr>acc_deductions := acc_deductions acc @ [\<lparr>category = h, amount = n\<rparr>]\<rparr>
      else acc\<lparr>acc_earnings := acc_earnings acc @ [\<lparr>category = h, amount = n\<rparr>]\<rparr>)"
proof -
  have nr: "h \<noteq> TOTAL_EARNINGS_HEADER" "h \<noteq> TOTAL_DEDUCTIONS_HEADER" "h \<noteq> NET_SALARY_HEADER"
    using assms(1) by (auto simp: RESERVED_HEADERS_has_def)
  show ?thesis
    unfolding isDeductionHeader_iff [symmetric]
    using assms nr by (simp add: headerStep_def)
qed

theorem classifier_order_witness:
  "\<not> RESERVED_HEADERS_has (monthYearHeader exCtx) ''Conveyance Taxable''
   \<and> numVal_of (row_get exRow ''Conveyance Taxable'') = Some (Fin 1600)
   \<and> Fin 1600 \<noteq> Fin 0
   \<and> ''Conveyance Taxable'' \<in> set (orgEarnings exCtx)
   \<and> isDeductionHeader ''Conveyance Taxable''
   \<and> headerStep exCtx exRow emptyRowAcc ''Conveyance Taxable''
       = emptyRowAcc\<lparr>acc_earnings := [\<lparr>category = ''Conveyance Taxable'', amount = Fin 1600\<rparr>]\<rparr>"
proof -
  have h1: "\<not> RESERVED_HEADERS_has (monthYearHeader exCtx) ''Conveyance Taxable''"
    by (simp add: exCtx_sel header_defs)
  have h2: "numVal_of (row_get exRow ''Conveyance Taxable'') = Some (Fin 1600)"
    by (rule ex_numVal)
  have h3: "Fin 1600 \<noteq> Fin 0" by simp
  have h4: "isDeductionHeader ''Conveyance Taxable''"
    by (simp add: isDeductionHeader_def deductionKeywords_def str_defs)
  have mem: "''Conveyance Taxable'' \<in> set (orgEarnings exCtx)"
    by (simp add: exCtx_sel ex_org_lists)
  show ?thesis
    using h1 h2 h3 h4 mem classifier_order [OF h1 h2 h3, of emptyRowAcc]
    by (simp add: emptyRowAcc_def)
qed




subsection \<open>Claims on the import executor\<close>

text \<open>
  C9, as stated, fails: the row parser keeps a negative amount. A sheet with the cell
  \<open>-500\<close> under the header \<^verbatim>\<open>Bonus\<close> gives a record with that earning.
\<close>

theorem negative_amount_counterexample:
  "records (processSheet exNumStr [exRowNegative] ''ACME'') =
     [\<lparr>organization = ''ACME'', month = Fin 1, year = Fin 2025,
       earnings = [\<lparr>category = ''Bonus'', amount = Fin (- 500)\<rparr>], deductions = [],
       totalEarnings = Fin 0, totalDeductions = Fin 0, netSalary = Fin 0\<rparr>]
   \<and> js_lt (Fin (- 500)) (Fin 0)"
proof -
  let ?ctx = "sheetCtx exNumStr exRowNegative ''ACME''"
  have hs: "map fst exRowNegative = [''Month Year'', ''Bonus'']" by (simp add: exRowNegative_def)
  have nv: "numVal_of (row_get exRowNegative ''Month Year'') = Some (Fin 2025)"
    "numVal_of (row_get exRowNegative ''Bonus'') = Some (Fin (- 500))"
    by (simp_all add: row_get_def exRowNegative_def numVal_of_def cleaned_of_def is_digit_def
          digit_val_def parseFloat_def is_ws_def)
  have nd: "\<not> isDeductionHeader ''Bonus''"
    by (simp add: isDeductionHeader_def deductionKeywords_def str_defs)
  have st: "headerStep ?ctx exRowNegative acc ''Month Year'' = acc"
    "headerStep ?ctx exRowNegative acc ''Bonus'' =
       acc\<lparr>acc_earnings := acc_earnings acc @ [\<lparr>category = ''Bonus'', amount = Fin (- 500)\<rparr>]\<rparr>"
    for acc
    by (simp_all add: headerStep_def nv hs ex_monthYearHeader ex_org_lists header_defs nd)
  have cell: "monthYearCell ?ctx exRowNegative = Some (CStr ''JAN 2025'')"
    by (simp add: monthYearCell_def hs ex_monthYearHeader)
       (simp add: row_get_def exRowNegative_def)
  have "rowStep ?ctx 0 exRowNegative emptyResult =
          emptyResult\<lparr>records :=
            [\<lparr>organization = ''ACME'', month = Fin 1, year = Fin 2025,
              earnings = [\<lparr>category = ''Bonus'', amount = Fin (- 500)\<rparr>], deductions = [],
              totalEarnings = Fin 0, totalDeductions = Fin 0, netSalary = Fin 0\<rparr>]\<rparr>"
    by (simp add: rowStep_def cell falsy_def String_of_def ex_parse parsedRecordOf_def hs st
          emptyRowAcc_def emptyResult_def)
  then show ?thesis by (simp add: processSheet_def emptyResult_def)
qed

text \<open>
  C9, amended. Every line item of a record the row parser produces has an amount other
  than 0, which may be negative; for a record on which the executor acts at all, every
  line-item amount lies between 0 and 100,000,000.
\<close>

theorem plan_amounts:
  "\<forall>r \<in> set (records (processSheet numStr data org)).
     \<forall>e \<in> set (earnings r) \<union> set (deductions r).
       amount e \<noteq> Fin 0
       \<and> (importRecord uid r run \<noteq> run \<longrightarrow> in_range 0 100000000 (amount e))"
proof (intro ballI conjI impI)
  fix r e
  assume r: "r \<in> set (records (processSheet numStr data org))"
    and e: "e \<in> set (earnings r) \<union> set (deductions r)"
  show "amount e \<noteq> Fin 0" using r e by (rule processSheet_items)
  assume "importRecord uid r run \<noteq> run"
  then have "executor_bounds r" using importRecord_skip by blast
  then show "in_range 0 100000000 (amount e)" using e by (simp add: executor_bounds_def)
qed

theorem plan_amounts_witness:
  "records (processSheet exNumStr [exRow] ''TCS'') = [exRecord]
   \<and> importRecord ''u1'' exRecord exRun \<noteq> exRun
   \<and> list_all (\<lambda>e. amount e \<noteq> Fin 0 \<and> in_range 0 100000000 (amount e))
        (earnings exRecord @ deductions exRecord)"
proof -
  have r: "records (processSheet exNumStr [exRow] ''TCS'') = [exRecord]" by (simp add: ex_sheet)
  have b: "executor_bounds exRecord" by (simp add: executor_bounds_def exRecord_def in_range_def)
  have "calls (store (importRecord ''u1'' exRecord exRun)) \<noteq> calls (store exRun)"
    using importRecord_calls [OF b, of "''u1''" exRun] by auto
  then have w: "importRecord ''u1'' exRecord exRun \<noteq> exRun" by auto
  show ?thesis
    using r w plan_amounts [of exNumStr "[exRow]" "''TCS''" "''u1''" exRun]
    unfolding list_all_iff by auto
qed




text \<open>
  C1 does not hold for the code: \<^verbatim>\<open>performImport\<close> issues no delete on \<^verbatim>\<open>earnings\<close> or
  \<^verbatim>\<open>deductions\<close>. Importing a sheet for January 2025 and then a revised sheet for the
  same month, whose record has the one earning \<^verbatim>\<open>HRA\<close> and the one deduction
  \<^verbatim>\<open>Income Tax\<close>, leaves the salary record with the earning of the first import beside
  the new one and with the deduction twice.
\<close>

theorem reimport_keeps_old_line_items:
  "earnings exRecordRevised = [\<lparr>category = ''HRA'', amount = Fin 32000\<rparr>]
   \<and> deductions exRecordRevised = [\<lparr>category = ''Income Tax'', amount = Fin 18000\<rparr>]
   \<and> tbl_earnings (store (performImport ''u1'' (Some exPlanRevised)
                            (store (performImport ''u1'' (Some exPlan) emptyStore)))) =
       [\<lparr>salary_record_id = 2, item_category = ''Conveyance Taxable'', item_amount = Fin 1600\<rparr>,
        \<lparr>salary_record_id = 2, item_category = ''HRA'', item_amount = Fin 32000\<rparr>]
   \<and> tbl_deductions (store (performImport ''u1'' (Some exPlanRevised)
                              (store (performImport ''u1'' (Some exPlan) emptyStore)))) =
       [\<lparr>salary_record_id = 2, item_category = ''Income Tax'', item_amount = Fin 18000\<rparr>,
        \<lparr>salary_record_id = 2, item_category = ''Income Tax'', item_amount = Fin 18000\<rparr>]
   \<and> map salary_row_id
        (tbl_salary_records (store (performImport ''u1'' (Some exPlanRevised)
                                      (store (performImport ''u1'' (Some exPlan) emptyStore))))) = [2]
   \<and> calls (store (performImport ''u1'' (Some exPlanRevised)
                     (store (performImport ''u1'' (Some exPlan) emptyStore)))) =
       [Select organization_templates, Insert organization_templates, Insert template_earnings,
        Insert template_deductions, Upsert salary_records, Insert earnings_table,
        Insert deductions_table,
        Select organization_templates, Delete template_earnings, Delete template_deductions,
        Insert template_earnings, Insert template_deductions, Upsert salary_records,
        Insert earnings_table, Insert deductions_table]"
  by code_simp

subsection \<open>Claims on the backup import\<close>

lemma version_one_is_object:
  "json_get d ''version'' = Some (JNum (Fin 1)) \<Longrightarrow> \<not> json_falsy d \<and> typeof_object d"
  by (cases d) simp_all

lemma handleImportBackupFile_rejected:
  assumes "rejected_file f"
  shows "handleImportBackupFile (Some f) ui =
           ui\<lparr>toasts := toasts ui @
                 [ErrorToast (if file_size f > MAX_FILE_SIZE
                              then ''Backup file is too large (max 10MB)''
                              else ''Invalid backup file format'')]\<rparr>"
  using assms by (auto simp: rejected_file_def handleImportBackupFile_def split: option.splits)

lemma handleImportBackupFile_accepted:
  assumes "\<not> rejected_file f"
  shows "\<exists>d. file_json f = Some d
           \<and> handleImportBackupFile (Some f) ui =
               ui\<lparr>pendingBackupData := Some d, pendingBackupCounts := Some (backupCounts d),
                   backupImportSummary := None, backupConfirmOpen := True\<rparr>"
  using assms version_one_is_object
  by (auto simp: rejected_file_def handleImportBackupFile_def split: option.splits)

lemma handleImportBackupFile_pending:
  assumes "pendingBackupData (handleImportBackupFile chosen ui) \<noteq> pendingBackupData ui"
  shows "\<exists>f. chosen = Some f \<and> \<not> rejected_file f"
proof (cases chosen)
  case None
  then show ?thesis using assms by (simp add: handleImportBackupFile_def)
next
  case (Some f)
  have "\<not> rejected_file f"
  proof
    assume "rejected_file f"
    then have "pendingBackupData (handleImportBackupFile (Some f) ui) = pendingBackupData ui"
      by (simp add: handleImportBackupFile_rejected)
    then show False using assms Some by simp
  qed
  then show ?thesis using Some by simp
qed

lemma appends_request: "appends_calls (request c)"
  by (simp add: appends_calls_def request_def)

lemma appends_skip: "appends_calls skip"
  by (simp add: appends_calls_def skip_def)

lemma appends_throw: "appends_calls throwTypeError"
  by (simp add: appends_calls_def throwTypeError_def)

lemma appends_seq:
  assumes "appends_calls a" and "appends_calls b"
  shows "appends_calls (seq a b)"
  unfolding appends_calls_def
proof
  fix r
  obtain t r1 where a: "a r = (t, r1)" by (cases "a r")
  from assms(1) obtain cs1 where c1: "issued r1 = issued r @ cs1"
    using a unfolding appends_calls_def by (metis snd_conv)
  show "\<exists>cs. issued (snd (seq a b r)) = issued r @ cs"
  proof (cases t)
    case True
    then show ?thesis using a c1 by (simp add: seq_def)
  next
    case False
    from assms(2) obtain cs2 where "issued (snd (b r1)) = issued r1 @ cs2"
      unfolding appends_calls_def by blast
    then show ?thesis using False a c1 by (simp add: seq_def)
  qed
qed

lemma appends_forEach:
  assumes "\<And>x. appends_calls (f x)"
  shows "appends_calls (forEach f xs)"
  by (induction xs) (simp_all add: appends_skip appends_seq assms)

lemma appends_forArray:
  assumes "\<And>x. appends_calls (f x)"
  shows "appends_calls (forArray f v)"
  by (auto simp: forArray_def appends_skip appends_forEach assms split: option.splits json.splits)

lemma appends_insertItems: "appends_calls (insertItems tbl v)"
  by (auto simp: insertItems_def appends_skip appends_throw appends_request
        split: option.splits json.splits)

lemma appends_restore:
  "appends_calls (restoreTemplate x)"
  "appends_calls (restoreSalaryRecord x)"
  "appends_calls (restoreEmployment x)"
  "appends_calls (restoreBudget x)"
  "appends_calls (restoreProfile p)"
  by (auto simp: restoreTemplate_def restoreSalaryRecord_def restoreEmployment_def
        restoreBudget_def restoreProfile_def appends_seq appends_request appends_throw
        appends_skip appends_insertItems split: option.splits)

lemma seq_request_issued:
  assumes "appends_calls b"
  shows "\<exists>cs. issued (snd (seq (request c) b r)) = issued r @ c # cs"
proof (cases "failing r = Some (length (issued r))")
  case True
  then show ?thesis by (simp add: seq_def request_def)
next
  case False
  from assms obtain cs where
    "issued (snd (b (r\<lparr>issued := issued r @ [c]\<rparr>))) = issued (r\<lparr>issued := issued r @ [c]\<rparr>) @ cs"
    unfolding appends_calls_def by blast
  then show ?thesis using False by (simp add: seq_def request_def)
qed

lemma wipeAndRestore_issued:
  "\<exists>cs. issued (snd (wipeAndRestore data r)) = issued r @ Rpc ''wipe_all_salary_data'' # cs"
  unfolding wipeAndRestore_def
  by (intro seq_request_issued appends_seq appends_request appends_forArray appends_restore)

lemma performBackupImport_no_pending:
  "pendingBackupData ui = None \<or> pendingBackupCounts ui = None \<Longrightarrow>
   performBackupImport (ui, remote) = (ui, remote)"
  by (auto simp: performBackupImport_def split: option.splits)

lemma performBackupImport_issued:
  assumes "pendingBackupData ui \<noteq> None" and "pendingBackupCounts ui \<noteq> None"
  shows "\<exists>cs. issued (snd (performBackupImport (ui, remote))) =
               issued remote @ Rpc ''wipe_all_salary_data'' # cs"
proof -
  from assms obtain data counts where
    p: "pendingBackupData ui = Some data" "pendingBackupCounts ui = Some counts" by auto
  obtain t r1 where w: "wipeAndRestore data remote = (t, r1)"
    by (cases "wipeAndRestore data remote")
  from wipeAndRestore_issued [of data remote] w obtain cs where
    "issued r1 = issued remote @ Rpc ''wipe_all_salary_data'' # cs" by auto
  then show ?thesis using p w by (cases t) (simp_all add: performBackupImport_def)
qed

lemma performBackupImport_clears:
  assumes "pendingBackupData ui \<noteq> None" and "pendingBackupCounts ui \<noteq> None"
  shows "pendingBackupData (fst (performBackupImport (ui, remote))) = None"
proof -
  from assms obtain data counts where
    p: "pendingBackupData ui = Some data" "pendingBackupCounts ui = Some counts" by auto
  obtain t r1 where w: "wipeAndRestore data remote = (t, r1)"
    by (cases "wipeAndRestore data remote")
  show ?thesis using p w by (cases t) (simp_all add: performBackupImport_def)
qed

lemma selected_valid_append: "selected_valid es \<Longrightarrow> selected_valid (es @ es')"
  unfolding selected_valid_def by (metis append_Cons append_assoc)

lemma confirmed_valid_append: "confirmed_valid es \<Longrightarrow> confirmed_valid (es @ es')"
  unfolding confirmed_valid_def by (metis append_Cons append_assoc)

lemma selected_then_confirm: "selected_valid es \<Longrightarrow> confirmed_valid (es @ [ConfirmBackupImport])"
  unfolding selected_valid_def confirmed_valid_def by (metis append_Cons append_assoc)

lemma backup_run_snoc: "backup_run (es @ [e]) s = backup_step (backup_run es s) e"
  by (simp add: backup_run_def)

lemma backup_run_invariant:
  "(pendingBackupData (fst (backup_run es (initialUi, remote))) \<noteq> None \<longrightarrow> selected_valid es)
   \<and> (issued (snd (backup_run es (initialUi, remote))) \<noteq> issued remote \<longrightarrow> confirmed_valid es)"
proof (induction es rule: rev_induct)
  case Nil
  then show ?case by (simp add: backup_run_def initialUi_def)
next
  case (snoc e es)
  obtain ui r where s: "backup_run es (initialUi, remote) = (ui, r)"
    by (cases "backup_run es (initialUi, remote)")
  from snoc s have ih1: "pendingBackupData ui \<noteq> None \<Longrightarrow> selected_valid es"
    and ih2: "issued r \<noteq> issued remote \<Longrightarrow> confirmed_valid es" by auto
  show ?case
  proof (cases e)
    case (SelectBackupFile chosen)
    have st: "backup_run (es @ [e]) (initialUi, remote) = (handleImportBackupFile chosen ui, r)"
      using s SelectBackupFile by (simp add: backup_run_snoc)
    have a: "selected_valid (es @ [e])"
      if "pendingBackupData (handleImportBackupFile chosen ui) \<noteq> None"
    proof (cases "pendingBackupData (handleImportBackupFile chosen ui) = pendingBackupData ui")
      case True
      then show ?thesis using that ih1 selected_valid_append by auto
    next
      case False
      then obtain f where "chosen = Some f" "\<not> rejected_file f"
        using handleImportBackupFile_pending by blast
      then have "es @ [e] = es @ SelectBackupFile (Some f) # []" using SelectBackupFile by simp
      then show ?thesis using \<open>\<not> rejected_file f\<close> unfolding selected_valid_def by blast
    qed
    show ?thesis using st a ih2 confirmed_valid_append by auto
  next
    case ConfirmBackupImport
    have st: "backup_run (es @ [e]) (initialUi, remote) = performBackupImport (ui, r)"
      using s ConfirmBackupImport by (simp add: backup_run_snoc)
    show ?thesis
    proof (cases "pendingBackupData ui = None \<or> pendingBackupCounts ui = None")
      case True
      then have "performBackupImport (ui, r) = (ui, r)" by (rule performBackupImport_no_pending)
      then show ?thesis using st ih1 ih2 selected_valid_append confirmed_valid_append by auto
    next
      case False
      then have "selected_valid es" using ih1 by simp
      then have c: "confirmed_valid (es @ [e])"
        using ConfirmBackupImport selected_then_confirm by simp
      have "pendingBackupData (fst (performBackupImport (ui, r))) = None"
        using False by (intro performBackupImport_clears) auto
      then show ?thesis using st c by simp
    qed
  next
    case CloseBackupDialog
    have st: "backup_run (es @ [e]) (initialUi, remote) = (ui\<lparr>backupConfirmOpen := False\<rparr>, r)"
      using s CloseBackupDialog by (simp add: backup_run_snoc)
    show ?thesis using st ih1 ih2 selected_valid_append confirmed_valid_append by auto
  qed
qed

text \<open>
  C8. A backup file that is larger than 10 MB, is not parsable, or whose parsed value has
  no \<^verbatim>\<open>version\<close> equal to 1 is rejected with an error message, and the handler changes
  nothing else. Whatever the user does from the initial state, the store receives a call
  only if a file that is not rejected was chosen and the action button of the
  confirmation dialog was pressed afterwards; so with rejected files only, no call is
  issued. Once data is pending, the confirmed import issues the wipe first.
\<close>

theorem backup_rejected_no_destructive_action:
  "(rejected_file f \<longrightarrow>
      handleImportBackupFile (Some f) ui =
        ui\<lparr>toasts := toasts ui @
              [ErrorToast (if file_size f > MAX_FILE_SIZE
                           then ''Backup file is too large (max 10MB)''
                           else ''Invalid backup file format'')]\<rparr>)
   \<and> (issued (snd (backup_run es (initialUi, remote))) \<noteq> issued remote \<longrightarrow>
        (\<exists>es1 g es2 es3.
            es = es1 @ SelectBackupFile (Some g) # es2 @ ConfirmBackupImport # es3
            \<and> \<not> rejected_file g))
   \<and> ((\<forall>g. SelectBackupFile (Some g) \<in> set es \<longrightarrow> rejected_file g) \<longrightarrow>
        issued (snd (backup_run es (initialUi, remote))) = issued remote)
   \<and> (pendingBackupData ui \<noteq> None \<and> pendingBackupCounts ui \<noteq> None \<longrightarrow>
        (\<exists>cs. issued (snd (performBackupImport (ui, remote))) =
                issued remote @ Rpc ''wipe_all_salary_data'' # cs))"
proof (intro conjI impI)
  assume "rejected_file f"
  then show "handleImportBackupFile (Some f) ui =
        ui\<lparr>toasts := toasts ui @
              [ErrorToast (if file_size f > MAX_FILE_SIZE
                           then ''Backup file is too large (max 10MB)''
                           else ''Invalid backup file format'')]\<rparr>"
    by (rule handleImportBackupFile_rejected)
next
  assume "issued (snd (backup_run es (initialUi, remote))) \<noteq> issued remote"
  then have "confirmed_valid es" using backup_run_invariant by blast
  then show "\<exists>es1 g es2 es3.
            es = es1 @ SelectBackupFile (Some g) # es2 @ ConfirmBackupImport # es3
            \<and> \<not> rejected_file g"
    by (simp add: confirmed_valid_def)
next
  assume all: "\<forall>g. SelectBackupFile (Some g) \<in> set es \<longrightarrow> rejected_file g"
  show "issued (snd (backup_run es (initialUi, remote))) = issued remote"
  proof (rule ccontr)
    assume "issued (snd (backup_run es (initialUi, remote))) \<noteq> issued remote"
    then have "confirmed_valid es" using backup_run_invariant by blast
    then obtain es1 g es2 es3 where
      "es = es1 @ SelectBackupFile (Some g) # es2 @ ConfirmBackupImport # es3" "\<not> rejected_file g"
      unfolding confirmed_valid_def by blast
    then show False using all by auto
  qed
next
  assume "pendingBackupData ui \<noteq> None \<and> pendingBackupCounts ui \<noteq> None"
  then show "\<exists>cs. issued (snd (performBackupImport (ui, remote))) =
                issued remote @ Rpc ''wipe_all_salary_data'' # cs"
    using performBackupImport_issued by blast
qed

theorem backup_rejected_no_destructive_action_witness:
  "rejected_file exOldFile
   \<and> handleImportBackupFile (Some exOldFile) initialUi =
       initialUi\<lparr>toasts := [ErrorToast ''Invalid backup file format'']\<rparr>
   \<and> issued (snd (backup_run [SelectBackupFile (Some exOldFile), ConfirmBackupImport]
                    (initialUi, exRemote))) = issued exRemote
   \<and> issued (snd (backup_run [SelectBackupFile (Some exGoodFile), ConfirmBackupImport]
                    (initialUi, exRemote))) \<noteq> issued exRemote
   \<and> (\<exists>es1 g es2 es3.
         [SelectBackupFile (Some exGoodFile), ConfirmBackupImport] =
           es1 @ SelectBackupFile (Some g) # es2 @ ConfirmBackupImport # es3
         \<and> \<not> rejected_file g)
   \<and> pendingBackupData (handleImportBackupFile (Some exGoodFile) initialUi) \<noteq> None
   \<and> pendingBackupCounts (handleImportBackupFile (Some exGoodFile) initialUi) \<noteq> None
   \<and> (\<exists>cs. issued (snd (performBackupImport
                           (handleImportBackupFile (Some exGoodFile) initialUi, exRemote))) =
             issued exRemote @ Rpc ''wipe_all_salary_data'' # cs)"
proof -
  let ?bad = "[SelectBackupFile (Some exOldFile), ConfirmBackupImport]"
  let ?good = "[SelectBackupFile (Some exGoodFile), ConfirmBackupImport]"
  let ?ui = "handleImportBackupFile (Some exGoodFile) initialUi"
  have rj: "rejected_file exOldFile"
    by (simp add: rejected_file_def exOldFile_def MAX_FILE_SIZE_def)
  have sz: "\<not> file_size exOldFile > MAX_FILE_SIZE" by (simp add: exOldFile_def MAX_FILE_SIZE_def)
  have nrj: "\<not> rejected_file exGoodFile"
    by (simp add: rejected_file_def exGoodFile_def exBackup_def MAX_FILE_SIZE_def)
  have allbad: "\<forall>g. SelectBackupFile (Some g) \<in> set ?bad \<longrightarrow> rejected_file g"
    using rj by simp
  from handleImportBackupFile_accepted [OF nrj, of initialUi]
  have pend: "pendingBackupData ?ui \<noteq> None \<and> pendingBackupCounts ?ui \<noteq> None" by auto
  have run: "backup_run ?good (initialUi, exRemote) = performBackupImport (?ui, exRemote)"
    by (simp add: backup_run_def)
  note t1 = backup_rejected_no_destructive_action [of exOldFile initialUi ?bad exRemote]
  note t2 = backup_rejected_no_destructive_action [of exOldFile ?ui ?good exRemote]
  from t2 pend obtain cs where
    cs: "issued (snd (performBackupImport (?ui, exRemote))) =
           issued exRemote @ Rpc ''wipe_all_salary_data'' # cs" by blast
  then have ne: "issued (snd (backup_run ?good (initialUi, exRemote))) \<noteq> issued exRemote"
    using run by simp
  have a: "handleImportBackupFile (Some exOldFile) initialUi =
       initialUi\<lparr>toasts := [ErrorToast ''Invalid backup file format'']\<rparr>"
    using t1 rj sz by (simp add: initialUi_def)
  have b: "issued (snd (backup_run ?bad (initialUi, exRemote))) = issued exRemote"
    using t1 allbad by blast
  have c: "\<exists>es1 g es2 es3. ?good = es1 @ SelectBackupFile (Some g) # es2 @ ConfirmBackupImport # es3
         \<and> \<not> rejected_file g"
    using t2 ne by blast
  show ?thesis using rj a b ne c pend cs by blast
qed

subsection \<open>Grouping and sorting in the export\<close>

lemma set_add_set [simp]: "set (set_add xs x) = insert x (set xs)"
  by (auto simp: set_add_def)

lemma set_add_distinct [simp]: "distinct (set_add xs x) = distinct xs"
  by (auto simp: set_add_def)

lemma foldl_addEarning:
  "org_records (foldl addEarning d es) = org_records d
   \<and> deductionCategories (foldl addEarning d es) = deductionCategories d
   \<and> set (earningCategories (foldl addEarning d es)) = set (earningCategories d) \<union> category ` set es
   \<and> distinct (earningCategories (foldl addEarning d es)) = distinct (earningCategories d)"
  by (induction es arbitrary: d) (auto simp: addEarning_def)

lemma foldl_addDeduction:
  "org_records (foldl addDeduction d es) = org_records d
   \<and> earningCategories (foldl addDeduction d es) = earningCategories d
   \<and> set (deductionCategories (foldl addDeduction d es))
       = set (deductionCategories d) \<union> category ` set es
   \<and> distinct (deductionCategories (foldl addDeduction d es)) = distinct (deductionCategories d)"
  by (induction es arbitrary: d) (auto simp: addDeduction_def)

lemma addRecord_props:
  "org_records (addRecord d r) = org_records d @ [r]"
  "set (earningCategories (addRecord d r)) = set (earningCategories d) \<union> category ` set (exp_earnings r)"
  "set (deductionCategories (addRecord d r))
     = set (deductionCategories d) \<union> category ` set (exp_deductions r)"
  "distinct (earningCategories (addRecord d r)) = distinct (earningCategories d)"
  "distinct (deductionCategories (addRecord d r)) = distinct (deductionCategories d)"
  by (simp_all add: addRecord_def foldl_addEarning foldl_addDeduction)

lemma foldl_addRecord_props:
  "org_records (foldl addRecord d rs) = org_records d @ rs"
  "set (earningCategories (foldl addRecord d rs))
     = set (earningCategories d) \<union> (\<Union>r \<in> set rs. category ` set (exp_earnings r))"
  "set (deductionCategories (foldl addRecord d rs))
     = set (deductionCategories d) \<union> (\<Union>r \<in> set rs. category ` set (exp_deductions r))"
  "distinct (earningCategories (foldl addRecord d rs)) = distinct (earningCategories d)"
  "distinct (deductionCategories (foldl addRecord d rs)) = distinct (deductionCategories d)"
  by (induction rs arbitrary: d) (auto simp: addRecord_props)

lemma groupData_props:
  "org_records (groupData k rs) = filter (\<lambda>r. exportOrgName r = k) rs"
  "set (earningCategories (groupData k rs))
     = (\<Union>r \<in> set (filter (\<lambda>r. exportOrgName r = k) rs). category ` set (exp_earnings r))"
  "set (deductionCategories (groupData k rs))
     = (\<Union>r \<in> set (filter (\<lambda>r. exportOrgName r = k) rs). category ` set (exp_deductions r))"
  "distinct (earningCategories (groupData k rs))"
  "distinct (deductionCategories (groupData k rs))"
  by (simp_all add: groupData_def foldl_addRecord_props emptyOrgData_def)

lemma groupData_snoc:
  "groupData k (rs @ [r]) =
     (if exportOrgName r = k then addRecord (groupData k rs) r else groupData k rs)"
  by (simp add: groupData_def)

lemma groupData_none:
  "k \<notin> exportOrgName ` set rs \<Longrightarrow> groupData k rs = emptyOrgData"
proof -
  assume "k \<notin> exportOrgName ` set rs"
  then have "filter (\<lambda>r. exportOrgName r = k) rs = []" by (auto simp: filter_empty_conv)
  then show ?thesis by (simp add: groupData_def)
qed

lemma orgMapStep_inv:
  assumes "orgMap_inv rs orgMap"
  shows "orgMap_inv (rs @ [r]) (orgMapStep orgMap r)"
proof -
  let ?o = "exportOrgName r"
  let ?m1 = "if ?o \<in> set (map fst orgMap) then orgMap else orgMap @ [(?o, emptyOrgData)]"
  let ?upd = "\<lambda>(k, d). if k = ?o then (k, addRecord d r) else (k, d)"
  have step: "orgMapStep orgMap r = map ?upd ?m1" by (simp add: orgMapStep_def Let_def)
  from assms have dist: "distinct (map fst orgMap)"
    and data: "\<And>k d. (k, d) \<in> set orgMap \<Longrightarrow> d = groupData k rs \<and> k \<in> exportOrgName ` set rs"
    and cover: "exportOrgName ` set rs \<subseteq> fst ` set orgMap"
    by (auto simp: orgMap_inv_def)
  have keys: "map fst (map ?upd ?m1) = map fst ?m1" by (auto simp: case_prod_beta)
  have d1: "distinct (map fst ?m1)" using dist by auto
  have data1: "d = groupData k rs" if "(k, d) \<in> set ?m1" for k d
  proof (cases "(k, d) \<in> set orgMap")
    case True
    then show ?thesis using data by blast
  next
    case False
    then have kd: "k = ?o" "d = emptyOrgData" "?o \<notin> set (map fst orgMap)"
      using that by (auto split: if_splits)
    then have "?o \<notin> exportOrgName ` set rs" using cover by auto
    then show ?thesis using kd groupData_none by simp
  qed
  have mem1: "k \<in> exportOrgName ` set (rs @ [r])" if "(k, d) \<in> set ?m1" for k d
    using that data by (auto split: if_splits)
  have data2: "d = groupData k (rs @ [r]) \<and> k \<in> exportOrgName ` set (rs @ [r])"
    if "(k, d) \<in> set (map ?upd ?m1)" for k d
  proof -
    from that obtain k0 d0 where in1: "(k0, d0) \<in> set ?m1" and e: "(k, d) = ?upd (k0, d0)"
      by auto
    have k: "k = k0" using e by (auto split: if_splits)
    have "d = (if k0 = ?o then addRecord d0 r else d0)" using e by (auto split: if_splits)
    moreover have "d0 = groupData k0 rs" using in1 by (rule data1)
    ultimately have "d = groupData k (rs @ [r])" using k by (auto simp: groupData_snoc)
    moreover have "k \<in> exportOrgName ` set (rs @ [r])" using in1 k mem1 by blast
    ultimately show ?thesis by simp
  qed
  have cover2: "exportOrgName ` set (rs @ [r]) \<subseteq> fst ` set (map ?upd ?m1)"
  proof -
    have "fst ` set (map ?upd ?m1) = set (map fst (map ?upd ?m1))" by (simp only: set_map)
    also have "\<dots> = set (map fst ?m1)" by (simp only: keys)
    finally have eq: "fst ` set (map ?upd ?m1) = set (map fst ?m1)" .
    have "exportOrgName ` set (rs @ [r]) \<subseteq> set (map fst ?m1)" using cover by auto
    then show ?thesis by (simp only: eq)
  qed
  have "distinct (map fst (map ?upd ?m1))" using d1 by (simp only: keys)
  then show ?thesis
    unfolding step orgMap_inv_def using data2 cover2 by blast
qed

lemma foldl_orgMapStep_inv: "orgMap_inv rs (foldl orgMapStep [] rs)"
proof (induction rs rule: rev_induct)
  case Nil
  then show ?case by (simp add: orgMap_inv_def)
next
  case (snoc r rs)
  then show ?case by (simp add: orgMapStep_inv)
qed

lemma insertString_set [simp]: "set (insertString x ys) = insert x (set ys)"
  by (induction ys) auto

lemma insertString_distinct [simp]: "distinct (insertString x ys) = (x \<notin> set ys \<and> distinct ys)"
  by (induction ys) auto

lemma sortStrings_set [simp]: "set (sortStrings xs) = set xs"
  by (induction xs) (simp_all add: sortStrings_def)

lemma sortStrings_distinct [simp]: "distinct (sortStrings xs) = distinct xs"
  by (induction xs) (simp_all add: sortStrings_def del: insertString.simps,
      simp_all add: sortStrings_def [symmetric])

lemma insertRecord_set [simp]: "set (insertRecord x ys) = insert x (set ys)"
  by (induction ys) auto

lemma sortRecords_set [simp]: "set (sortRecords rs) = set rs"
  by (induction rs) (simp_all add: sortRecords_def)

subsection \<open>One exported row, imported\<close>

lemma zip_map_same: "zip xs (map f xs) = map (\<lambda>x. (x, f x)) xs"
  by (induction xs) simp_all

lemma map_of_map_key:
  "map_of (map (\<lambda>c. (c, g c)) cs) k = (if k \<in> set cs then Some (g k) else None)"
  by (induction cs) auto

lemma month_is_name:
  assumes "1 \<le> m" and "m \<le> 12"
  shows "monthName (Fin (of_nat m)) = Some (MONTHS ! (m - 1))"
proof -
  have "\<lfloor>(of_nat m :: rat)\<rfloor> = int m" by simp
  then show ?thesis using assms by (simp add: monthName_def nat_diff_distrib')
qed

lemma month_token:
  assumes "1 \<le> m" and "m \<le> 12"
  shows "(toUpperCase (take 3 (MONTHS ! (m - 1))), m) \<in> set monthTable
         \<and> toUpperCase (toUpperCase (take 3 (MONTHS ! (m - 1)))) = toUpperCase (take 3 (MONTHS ! (m - 1)))
         \<and> length (toUpperCase (take 3 (MONTHS ! (m - 1)))) = 3
         \<and> (\<forall>c \<in> set (toUpperCase (take 3 (MONTHS ! (m - 1)))). \<not> is_ws c)"
proof -
  from assms have "m = 1 \<or> m = 2 \<or> m = 3 \<or> m = 4 \<or> m = 5 \<or> m = 6 \<or> m = 7 \<or> m = 8 \<or> m = 9
      \<or> m = 10 \<or> m = 11 \<or> m = 12" by arith
  then show ?thesis
    by (elim disjE) (simp_all add: MONTHS_def monthTable_def str_defs is_ws_def)
qed

lemma trim_id:
  assumes "s \<noteq> []" and "\<not> is_ws (hd s)" and "\<not> is_ws (last s)"
  shows "trim s = s"
proof -
  have a: "dropWhile is_ws s = s" using assms(1,2) by (cases s) auto
  have "rev s \<noteq> []" "\<not> is_ws (hd (rev s))" using assms(1,3) by (simp_all add: hd_rev)
  then have b: "dropWhile is_ws (rev s) = rev s" by (cases "rev s") auto
  show ?thesis by (simp add: trim_def a b)
qed

lemma space_is_ws: "is_ws (CHR '' '')"
  by (simp add: is_ws_def)

lemma parse_label:
  assumes "1 \<le> m" and "m \<le> 12" and "exp_month r = Fin (of_nat m)"
    and "year_prints numStr (exp_year r)"
  shows "parseMonthYear (monthLabelOf numStr r) = Some (exp_month r, exp_year r)"
    and "monthLabelOf numStr r \<noteq> []"
proof -
  let ?tok = "toUpperCase (take 3 (MONTHS ! (m - 1)))"
  let ?yr = "numStr (exp_year r)"
  have lab: "monthLabelOf numStr r = ?tok @ CHR '' '' # ?yr"
    using assms(1-3) by (simp add: monthLabelOf_def month_is_name)
  from month_token [OF assms(1,2)] have
    tab: "(?tok, m) \<in> set monthTable" and up: "toUpperCase ?tok = ?tok"
    and len: "length ?tok = 3" and now: "\<forall>c \<in> set ?tok. \<not> is_ws c" by blast+
  from assms(4) have py: "parseInt ?yr = exp_year r" and nn: "exp_year r \<noteq> NaN"
    and yws: "\<forall>c \<in> set ?yr. \<not> is_ws c" by (auto simp: year_prints_def)
  have yne: "?yr \<noteq> []"
  proof
    assume "?yr = []"
    then have "parseInt ?yr = NaN" by (simp add: parseInt_def)
    then show False using py nn by simp
  qed
  show ne: "monthLabelOf numStr r \<noteq> []" using lab by simp
  have tokne: "?tok \<noteq> []" using len by auto
  have h: "\<not> is_ws (hd (monthLabelOf numStr r))"
    using lab tokne now by (simp add: hd_append)
  have l: "\<not> is_ws (last (monthLabelOf numStr r))"
    using lab yne yws by simp
  have tr: "trim (monthLabelOf numStr r) = ?tok @ CHR '' '' # ?yr"
    using trim_id [OF ne h l] lab by simp
  have sp1: "CHR '' '' \<notin> set ?tok" using now space_is_ws by blast
  have sp2: "CHR '' '' \<notin> set ?yr" using yws space_is_ws by blast
  have "\<exists>tok yr k. trim (monthLabelOf numStr r) = tok @ CHR '' '' # yr \<and> CHR '' '' \<notin> set tok
        \<and> CHR '' '' \<notin> set yr \<and> (toUpperCase tok, k) \<in> set monthTable
        \<and> exp_month r = Fin (of_nat k) \<and> exp_year r = parseInt yr \<and> exp_year r \<noteq> NaN"
    using tr sp1 sp2 tab up assms(3) py nn by (intro exI [of _ ?tok] exI [of _ ?yr] exI [of _ m]) simp
  then show "parseMonthYear (monthLabelOf numStr r) = Some (exp_month r, exp_year r)"
    by (simp add: parseMonthYear_Some)
qed

lemma exportRow_rowObject:
  assumes "1 \<le> m" and "m \<le> 12" and "exp_month r = Fin (of_nat m)"
  shows "\<exists>vals. exportRow numStr es ds r = Some vals
           \<and> zip (sheetHeadersOf es ds) vals = rowObjectOf numStr es ds r"
  using assms
  by (simp add: exportRow_def month_is_name sheetHeadersOf_def rowObjectOf_def monthLabelOf_def
        zip_map_same)

lemma org_tables_no_net_pay:
  "''Net Pay'' \<notin> set (org_lookup ORG_EARNINGS org)"
  "''Net Pay'' \<notin> set (org_lookup ORG_DEDUCTIONS org)"
proof -
  have e: "\<forall>(k, cats) \<in> set ORG_EARNINGS. ''Net Pay'' \<notin> set cats"
    by (simp add: ORG_EARNINGS_def)
  have d: "\<forall>(k, cats) \<in> set ORG_DEDUCTIONS. ''Net Pay'' \<notin> set cats"
    by (simp add: ORG_DEDUCTIONS_def)
  show "''Net Pay'' \<notin> set (org_lookup ORG_EARNINGS org)"
  proof (cases "map_of ORG_EARNINGS org")
    case None
    then show ?thesis by (simp add: org_lookup_def)
  next
    case (Some cats)
    from map_of_SomeD [OF Some] have "(org, cats) \<in> set ORG_EARNINGS" .
    with e have "''Net Pay'' \<notin> set cats" by blast
    then show ?thesis by (simp add: org_lookup_def Some)
  qed
  show "''Net Pay'' \<notin> set (org_lookup ORG_DEDUCTIONS org)"
  proof (cases "map_of ORG_DEDUCTIONS org")
    case None
    then show ?thesis by (simp add: org_lookup_def)
  next
    case (Some cats)
    from map_of_SomeD [OF Some] have "(org, cats) \<in> set ORG_DEDUCTIONS" .
    with d have "''Net Pay'' \<notin> set cats" by blast
    then show ?thesis by (simp add: org_lookup_def Some)
  qed
qed

lemma net_pay_no_keyword: "\<not> isDeductionHeader ''Net Pay''"
  by (simp add: isDeductionHeader_def deductionKeywords_def str_defs)

lemma imports_exclusive: "imports_as_earning org c \<Longrightarrow> \<not> imports_as_deduction org c"
  by (auto simp: imports_as_earning_def imports_as_deduction_def)

lemma not_fixed:
  assumes "c \<notin> set fixedHeaders"
  shows "c \<noteq> ''Month Year''" "c \<noteq> TOTAL_EARNINGS_HEADER" "c \<noteq> TOTAL_DEDUCTIONS_HEADER"
    "c \<noteq> NET_SALARY_HEADER" "c \<noteq> ''Net Pay''" "c \<noteq> ''Total Earnings''" "c \<noteq> ''Total Deductions''"
  using assms by (auto simp: fixedHeaders_def header_defs)

lemma rowObject_get:
  assumes "columns_fit org es ds"
  shows "row_get (rowObjectOf numStr es ds r) ''Month Year'' = Some (CStr (monthLabelOf numStr r))"
    and "\<And>c. c \<in> set es \<Longrightarrow>
           row_get (rowObjectOf numStr es ds r) c = Some (CNum (categoryValue (exp_earnings r) c))"
    and "\<And>c. c \<in> set ds \<Longrightarrow>
           row_get (rowObjectOf numStr es ds r) c = Some (CNum (categoryValue (exp_deductions r) c))"
    and "row_get (rowObjectOf numStr es ds r) ''Total Earnings''
           = Some (CNum (or_zero (exp_total_earnings r)))"
    and "row_get (rowObjectOf numStr es ds r) ''Total Deductions''
           = Some (CNum (or_zero (exp_total_deductions r)))"
    and "row_get (rowObjectOf numStr es ds r) ''Net Pay'' = Some (CNum (or_zero (exp_net_salary r)))"
proof -
  from assms have fe: "\<And>c. c \<in> set es \<Longrightarrow> c \<notin> set fixedHeaders"
    and fd: "\<And>c. c \<in> set ds \<Longrightarrow> c \<notin> set fixedHeaders"
    and dis: "\<And>c. c \<in> set ds \<Longrightarrow> c \<notin> set es"
    using imports_exclusive
    by (auto simp: columns_fit_def imports_as_earning_def imports_as_deduction_def)
  have fx: "''Total Earnings'' \<in> set fixedHeaders" "''Total Deductions'' \<in> set fixedHeaders"
    "''Net Pay'' \<in> set fixedHeaders" "''Month Year'' \<in> set fixedHeaders"
    by (simp_all add: fixedHeaders_def)
  have te: "''Total Earnings'' \<notin> set es" "''Total Earnings'' \<notin> set ds"
    and td: "''Total Deductions'' \<notin> set es" "''Total Deductions'' \<notin> set ds"
    and np: "''Net Pay'' \<notin> set es" "''Net Pay'' \<notin> set ds"
    using fe fd fx by blast+
  show "row_get (rowObjectOf numStr es ds r) ''Month Year'' = Some (CStr (monthLabelOf numStr r))"
    by (simp add: row_get_def rowObjectOf_def)
  show "row_get (rowObjectOf numStr es ds r) c = Some (CNum (categoryValue (exp_earnings r) c))"
    if "c \<in> set es" for c
    using that not_fixed(1) [OF fe [OF that]]
    by (simp add: row_get_def rowObjectOf_def map_add_def map_of_map_key)
  show "row_get (rowObjectOf numStr es ds r) c = Some (CNum (categoryValue (exp_deductions r) c))"
    if "c \<in> set ds" for c
    using that not_fixed(1) [OF fd [OF that]] dis [OF that]
    by (simp add: row_get_def rowObjectOf_def map_add_def map_of_map_key)
  show "row_get (rowObjectOf numStr es ds r) ''Total Earnings''
           = Some (CNum (or_zero (exp_total_earnings r)))"
    using te by (simp add: row_get_def rowObjectOf_def map_add_def map_of_map_key)
  show "row_get (rowObjectOf numStr es ds r) ''Total Deductions''
           = Some (CNum (or_zero (exp_total_deductions r)))"
    using td by (simp add: row_get_def rowObjectOf_def map_add_def map_of_map_key)
  show "row_get (rowObjectOf numStr es ds r) ''Net Pay'' = Some (CNum (or_zero (exp_net_salary r)))"
    using np by (simp add: row_get_def rowObjectOf_def map_add_def map_of_map_key)
qed

lemma numVal_CNum [simp]: "numVal_of (Some (CNum n)) = Some n"
  by (simp add: numVal_of_def)

lemma headerStep_earning:
  assumes "monthYearHeader ctx = Some ''Month Year''"
    and "orgEarnings ctx = org_lookup ORG_EARNINGS org"
    and "orgDeductions ctx = org_lookup ORG_DEDUCTIONS org"
    and "imports_as_earning org c" and "numVal_of (row_get row c) = Some v"
  shows "headerStep ctx row acc c =
           (if v = Fin 0 then acc
            else acc\<lparr>acc_earnings := acc_earnings acc @ [\<lparr>category = c, amount = v\<rparr>]\<rparr>)"
proof -
  from assms(4) have nf: "c \<notin> set fixedHeaders" by (simp add: imports_as_earning_def)
  note n = not_fixed [OF nf]
  have nr: "\<not> RESERVED_HEADERS_has (monthYearHeader ctx) c"
    using n assms(1) by (simp add: RESERVED_HEADERS_has_def)
  show ?thesis
    using assms nr n by (auto simp: headerStep_def imports_as_earning_def)
qed

lemma headerStep_deduction:
  assumes "monthYearHeader ctx = Some ''Month Year''"
    and "orgEarnings ctx = org_lookup ORG_EARNINGS org"
    and "orgDeductions ctx = org_lookup ORG_DEDUCTIONS org"
    and "imports_as_deduction org c" and "numVal_of (row_get row c) = Some v"
  shows "headerStep ctx row acc c =
           (if v = Fin 0 then acc
            else acc\<lparr>acc_deductions := acc_deductions acc @ [\<lparr>category = c, amount = v\<rparr>]\<rparr>)"
proof -
  from assms(4) have nf: "c \<notin> set fixedHeaders" by (simp add: imports_as_deduction_def)
  note n = not_fixed [OF nf]
  have nr: "\<not> RESERVED_HEADERS_has (monthYearHeader ctx) c"
    using n assms(1) by (simp add: RESERVED_HEADERS_has_def)
  show ?thesis
    using assms nr n by (auto simp: headerStep_def imports_as_deduction_def)
qed

lemma fold_earning_columns:
  assumes "monthYearHeader ctx = Some ''Month Year''"
    and "orgEarnings ctx = org_lookup ORG_EARNINGS org"
    and "orgDeductions ctx = org_lookup ORG_DEDUCTIONS org"
    and "\<forall>c \<in> set cs. imports_as_earning org c \<and> numVal_of (row_get row c) = Some (g c)"
  shows "foldl (headerStep ctx row) acc cs =
           acc\<lparr>acc_earnings := acc_earnings acc
                 @ map (\<lambda>c. \<lparr>category = c, amount = g c\<rparr>) (filter (\<lambda>c. g c \<noteq> Fin 0) cs)\<rparr>"
  using assms(4)
proof (induction cs arbitrary: acc)
  case Nil
  then show ?case by simp
next
  case (Cons c cs)
  have st: "headerStep ctx row acc c =
           (if g c = Fin 0 then acc
            else acc\<lparr>acc_earnings := acc_earnings acc @ [\<lparr>category = c, amount = g c\<rparr>]\<rparr>)"
    using Cons.prems by (intro headerStep_earning [OF assms(1-3)]) auto
  have "\<forall>c \<in> set cs. imports_as_earning org c \<and> numVal_of (row_get row c) = Some (g c)"
    using Cons.prems by simp
  note ih = Cons.IH [OF this]
  show ?case by (simp add: st ih)
qed

lemma fold_deduction_columns:
  assumes "monthYearHeader ctx = Some ''Month Year''"
    and "orgEarnings ctx = org_lookup ORG_EARNINGS org"
    and "orgDeductions ctx = org_lookup ORG_DEDUCTIONS org"
    and "\<forall>c \<in> set cs. imports_as_deduction org c \<and> numVal_of (row_get row c) = Some (g c)"
  shows "foldl (headerStep ctx row) acc cs =
           acc\<lparr>acc_deductions := acc_deductions acc
                 @ map (\<lambda>c. \<lparr>category = c, amount = g c\<rparr>) (filter (\<lambda>c. g c \<noteq> Fin 0) cs)\<rparr>"
  using assms(4)
proof (induction cs arbitrary: acc)
  case Nil
  then show ?case by simp
next
  case (Cons c cs)
  have st: "headerStep ctx row acc c =
           (if g c = Fin 0 then acc
            else acc\<lparr>acc_deductions := acc_deductions acc @ [\<lparr>category = c, amount = g c\<rparr>]\<rparr>)"
    using Cons.prems by (intro headerStep_deduction [OF assms(1-3)]) auto
  have "\<forall>c \<in> set cs. imports_as_deduction org c \<and> numVal_of (row_get row c) = Some (g c)"
    using Cons.prems by simp
  note ih = Cons.IH [OF this]
  show ?case by (simp add: st ih)
qed

lemma headerStep_month_year:
  assumes "monthYearHeader ctx = Some ''Month Year''"
  shows "headerStep ctx row acc ''Month Year'' = acc"
  using assms by (simp add: headerStep_def header_defs split: option.splits)

lemma headerStep_totals:
  assumes "numVal_of (row_get row ''Total Earnings'') = Some te"
    and "numVal_of (row_get row ''Total Deductions'') = Some td"
  shows "headerStep ctx row acc ''Total Earnings'' = acc\<lparr>earningsTotal := te\<rparr>"
    and "headerStep ctx row acc ''Total Deductions'' = acc\<lparr>deductionsTotal := td\<rparr>"
  using assms by (simp_all add: headerStep_def header_defs)

lemma headerStep_net_pay:
  assumes "monthYearHeader ctx = Some ''Month Year''"
    and "orgEarnings ctx = org_lookup ORG_EARNINGS org"
    and "orgDeductions ctx = org_lookup ORG_DEDUCTIONS org"
    and "numVal_of (row_get row ''Net Pay'') = Some v"
  shows "headerStep ctx row acc ''Net Pay'' =
           (if v = Fin 0 then acc
            else acc\<lparr>acc_earnings := acc_earnings acc @ [\<lparr>category = ''Net Pay'', amount = v\<rparr>]\<rparr>)"
  using assms org_tables_no_net_pay [of org] net_pay_no_keyword
  by (simp add: headerStep_def header_defs)

lemma parsedRecordOf_rowObject:
  assumes "monthYearHeader ctx = Some ''Month Year''"
    and "orgEarnings ctx = org_lookup ORG_EARNINGS org"
    and "orgDeductions ctx = org_lookup ORG_DEDUCTIONS org"
    and "ctx_organization ctx = org"
    and "headers ctx = sheetHeadersOf es ds"
    and "columns_fit org es ds"
  shows "parsedRecordOf ctx (rowObjectOf numStr es ds r) (exp_month r, exp_year r)
           = reimported org es ds r"
proof -
  let ?row = "rowObjectOf numStr es ds r"
  note get = rowObject_get [OF assms(6), where numStr = numStr and r = r]
  have e: "\<forall>c \<in> set es. imports_as_earning org c
             \<and> numVal_of (row_get ?row c) = Some (categoryValue (exp_earnings r) c)"
    using assms(6) get(2) by (simp add: columns_fit_def)
  have d: "\<forall>c \<in> set ds. imports_as_deduction org c
             \<and> numVal_of (row_get ?row c) = Some (categoryValue (exp_deductions r) c)"
    using assms(6) get(3) by (simp add: columns_fit_def)
  have t: "numVal_of (row_get ?row ''Total Earnings'') = Some (or_zero (exp_total_earnings r))"
    "numVal_of (row_get ?row ''Total Deductions'') = Some (or_zero (exp_total_deductions r))"
    "numVal_of (row_get ?row ''Net Pay'') = Some (or_zero (exp_net_salary r))"
    using get(4-6) by simp_all
  have "foldl (headerStep ctx ?row) emptyRowAcc (sheetHeadersOf es ds) =
          \<lparr>acc_earnings =
             map (\<lambda>c. \<lparr>category = c, amount = categoryValue (exp_earnings r) c\<rparr>)
               (filter (\<lambda>c. categoryValue (exp_earnings r) c \<noteq> Fin 0) es)
             @ (if or_zero (exp_net_salary r) = Fin 0 then []
                else [\<lparr>category = ''Net Pay'', amount = or_zero (exp_net_salary r)\<rparr>]),
           acc_deductions =
             map (\<lambda>c. \<lparr>category = c, amount = categoryValue (exp_deductions r) c\<rparr>)
               (filter (\<lambda>c. categoryValue (exp_deductions r) c \<noteq> Fin 0) ds),
           earningsTotal = or_zero (exp_total_earnings r),
           deductionsTotal = or_zero (exp_total_deductions r), acc_netSalary = Fin 0\<rparr>"
    by (simp add: sheetHeadersOf_def headerStep_month_year [OF assms(1)]
          fold_earning_columns [OF assms(1-3) e] fold_deduction_columns [OF assms(1-3) d]
          headerStep_totals [OF t(1,2)] headerStep_net_pay [OF assms(1-3) t(3)] emptyRowAcc_def)
  then show ?thesis
    by (simp add: parsedRecordOf_def assms(4,5) reimported_def)
qed

subsection \<open>One exported sheet, imported\<close>

lemma exportRows_all:
  assumes "\<forall>r \<in> set rs. \<exists>vals. f r = Some vals"
  shows "exportRows f rs = Some (map (\<lambda>r. the (f r)) rs)"
  using assms by (induction rs) auto

lemma orgSheets_all:
  assumes "\<forall>e \<in> set orgMap. \<exists>s. orgSheet numStr st e = Some s"
  shows "orgSheets numStr st orgMap = Some (map (\<lambda>e. the (orgSheet numStr st e)) orgMap)"
  using assms by (induction orgMap) auto

lemma rowObject_headers: "map fst (rowObjectOf numStr es ds r) = sheetHeadersOf es ds"
  by (simp add: rowObjectOf_def sheetHeadersOf_def comp_def)

lemma month_year_header_found: "find_monthYearHeader (sheetHeadersOf es ds) = Some ''Month Year''"
  by (simp add: find_monthYearHeader_def sheetHeadersOf_def str_defs)

lemma rowLoop_map_parsed:
  assumes "\<forall>r \<in> set rs. \<forall>i res. rowStep ctx i (h r) res = res\<lparr>records := records res @ [g r]\<rparr>"
  shows "rowLoop ctx i (map h rs) res = res\<lparr>records := records res @ map g rs\<rparr>"
  using assms by (induction rs arbitrary: i res) simp_all

text \<open>What the round trip needs of one record, apart from its organisation.\<close>

lemma ready_month:
  "roundtrip_ready numStr r \<Longrightarrow> \<exists>m. 1 \<le> m \<and> m \<le> 12 \<and> exp_month r = Fin (of_nat m)"
  by (simp add: roundtrip_ready_def)

lemma rowStep_rowObject:
  assumes "roundtrip_ready numStr r"
    and "numToString ctx = numStr"
    and "monthYearHeader ctx = Some ''Month Year''"
    and "orgEarnings ctx = org_lookup ORG_EARNINGS org"
    and "orgDeductions ctx = org_lookup ORG_DEDUCTIONS org"
    and "ctx_organization ctx = org"
    and "headers ctx = sheetHeadersOf es ds"
    and "columns_fit org es ds"
  shows "rowStep ctx i (rowObjectOf numStr es ds r) res =
           res\<lparr>records := records res @ [reimported org es ds r]\<rparr>"
proof -
  from ready_month [OF assms(1)] obtain m where
    m: "1 \<le> m" "m \<le> 12" "exp_month r = Fin (of_nat m)" by blast
  have yp: "year_prints numStr (exp_year r)" using assms(1) by (simp add: roundtrip_ready_def)
  note pl = parse_label [OF m yp]
  have cell: "monthYearCell ctx (rowObjectOf numStr es ds r) = Some (CStr (monthLabelOf numStr r))"
    using rowObject_get(1) [OF assms(8)] by (simp add: monthYearCell_def assms(3))
  have rec: "parsedRecordOf ctx (rowObjectOf numStr es ds r) (exp_month r, exp_year r)
           = reimported org es ds r"
    by (rule parsedRecordOf_rowObject [OF assms(3-8)])
  show ?thesis
    by (simp add: rowStep_def cell falsy_def String_of_def pl rec)
qed

lemma processSheet_rowObjects:
  assumes "rs \<noteq> []" and "\<forall>r \<in> set rs. roundtrip_ready numStr r" and "columns_fit org es ds"
  shows "processSheet numStr (map (rowObjectOf numStr es ds) rs) org =
           \<lparr>records = map (reimported org es ds) rs, skippedRows = 0, invalidRows = []\<rparr>"
proof -
  let ?data = "map (rowObjectOf numStr es ds) rs"
  let ?ctx = "sheetCtx numStr (hd ?data) org"
  have ne: "?data \<noteq> []" using assms(1) by simp
  have hd: "hd ?data = rowObjectOf numStr es ds (hd rs)" using assms(1) by (simp add: hd_map)
  have c1: "numToString ?ctx = numStr" "ctx_organization ?ctx = org"
    "orgEarnings ?ctx = org_lookup ORG_EARNINGS org"
    "orgDeductions ?ctx = org_lookup ORG_DEDUCTIONS org"
    by simp_all
  have c2: "headers ?ctx = sheetHeadersOf es ds"
    by (simp add: hd rowObject_headers)
  have c3: "monthYearHeader ?ctx = Some ''Month Year''"
    by (simp add: hd rowObject_headers month_year_header_found)
  have step: "\<forall>r \<in> set rs. \<forall>i res.
      rowStep ?ctx i (rowObjectOf numStr es ds r) res =
        res\<lparr>records := records res @ [reimported org es ds r]\<rparr>"
    using assms(2) rowStep_rowObject [OF _ c1(1) c3 c1(3,4,2) c2 assms(3)] by blast
  have "processSheet numStr ?data org = rowLoop ?ctx 0 ?data emptyResult"
    using ne by (rule processSheet_rowLoop)
  also have "\<dots> = emptyResult\<lparr>records := records emptyResult @ map (reimported org es ds) rs\<rparr>"
    using step by (rule rowLoop_map_parsed)
  finally show ?thesis by (simp add: emptyResult_def)
qed

subsection \<open>The export of ready records\<close>

lemma normalizeOrgName_nonempty: "normalizeOrgName x \<noteq> []"
  by (simp add: normalizeOrgName_def Let_def)

lemma exportOrgName_nonempty: "exportOrgName r \<noteq> []"
  by (simp add: exportOrgName_def normalizeOrgName_nonempty)

lemma sortedOf_set: "set (sortedOf rs k) = {r \<in> set rs. exportOrgName r = k}"
  by (auto simp: sortedOf_def groupData_props)

lemma sortedOf_nonempty: "k \<in> exportOrgName ` set rs \<Longrightarrow> sortedOf rs k \<noteq> []"
proof -
  assume "k \<in> exportOrgName ` set rs"
  then have "set (sortedOf rs k) \<noteq> {}" by (auto simp: sortedOf_set)
  then show ?thesis by auto
qed

lemma columns_fit_ready:
  assumes "\<forall>r \<in> set rs. roundtrip_ready numStr r"
  shows "columns_fit k (earningColumns rs k) (deductionColumns rs k)"
proof -
  have e: "imports_as_earning k c" if "c \<in> set (earningColumns rs k)" for c
  proof -
    from that obtain r e where "r \<in> set rs" "exportOrgName r = k" "e \<in> set (exp_earnings r)"
      "c = category e"
      by (auto simp: earningColumns_def groupData_props)
    then show ?thesis using assms by (auto simp: roundtrip_ready_def)
  qed
  have d: "imports_as_deduction k c" if "c \<in> set (deductionColumns rs k)" for c
  proof -
    from that obtain r e where "r \<in> set rs" "exportOrgName r = k" "e \<in> set (exp_deductions r)"
      "c = category e"
      by (auto simp: deductionColumns_def groupData_props)
    then show ?thesis using assms by (auto simp: roundtrip_ready_def)
  qed
  show ?thesis
    using e d
    by (simp add: columns_fit_def earningColumns_def deductionColumns_def groupData_props)
qed

lemma exportRows_ready:
  assumes "\<forall>r \<in> set rs. roundtrip_ready numStr r"
  shows "exportRows (exportRow numStr es ds) (sortedOf rs k)
           = Some (map (\<lambda>r. the (exportRow numStr es ds r)) (sortedOf rs k))"
proof (rule exportRows_all, rule ballI)
  fix r
  assume "r \<in> set (sortedOf rs k)"
  then have "roundtrip_ready numStr r" using assms by (simp add: sortedOf_set)
  from ready_month [OF this] obtain m where
    "1 \<le> m" "m \<le> 12" "exp_month r = Fin (of_nat m)" by blast
  from exportRow_rowObject [OF this] show "\<exists>vals. exportRow numStr es ds r = Some vals" by blast
qed

lemma orgSheet_ready:
  assumes "\<forall>r \<in> set rs. roundtrip_ready numStr r" and "k \<in> exportOrgName ` set rs"
  shows "orgSheet numStr defaultSettings (k, groupData k rs) = Some (exportedSheet numStr rs k)"
proof -
  from assms obtain r where r: "r \<in> set rs" "exportOrgName r = k" by auto
  then have len: "length k \<le> 31" using assms(1) by (auto simp: roundtrip_ready_def)
  have ne: "k \<noteq> []" using r exportOrgName_nonempty by auto
  have tk: "take 31 k = k" using len by simp
  show ?thesis
    using exportRows_ready [OF assms(1), of "earningColumns rs k" "deductionColumns rs k" k] ne
    by (simp add: orgSheet_def defaultSettings_def Let_def tk exportedSheet_def
          earningColumns_def [symmetric] deductionColumns_def [symmetric]
          sortedOf_def [symmetric] sheetHeadersOf_def)
qed

lemma exportedSheet_rowObjects:
  assumes "\<forall>r \<in> set rs. roundtrip_ready numStr r"
  shows "sheetRowObjects (exportedSheet numStr rs k) =
           map (rowObjectOf numStr (earningColumns rs k) (deductionColumns rs k)) (sortedOf rs k)"
proof -
  have "zip (sheetHeadersOf (earningColumns rs k) (deductionColumns rs k))
            (the (exportRow numStr (earningColumns rs k) (deductionColumns rs k) r))
          = rowObjectOf numStr (earningColumns rs k) (deductionColumns rs k) r"
    if "r \<in> set (sortedOf rs k)" for r
  proof -
    from that have "roundtrip_ready numStr r" using assms by (simp add: sortedOf_set)
    from ready_month [OF this] obtain m where
      "1 \<le> m" "m \<le> 12" "exp_month r = Fin (of_nat m)" by blast
    from exportRow_rowObject [OF this, of numStr "earningColumns rs k" "deductionColumns rs k"]
    show ?thesis by auto
  qed
  then show ?thesis by (simp add: sheetRowObjects_def exportedSheet_def)
qed

lemma orgMap_is_groups:
  assumes "orgMap_inv rs orgMap"
  shows "orgMap = map (\<lambda>k. (k, groupData k rs)) (map fst orgMap)"
proof -
  have "\<forall>e \<in> set orgMap. e = (fst e, groupData (fst e) rs)"
    using assms by (auto simp: orgMap_inv_def)
  then have "map (\<lambda>e. (fst e, groupData (fst e) rs)) orgMap = map (\<lambda>e. e) orgMap"
    by (intro map_cong) auto
  then show ?thesis by (simp add: comp_def)
qed

lemma handleExportToExcel_ready:
  assumes "rs \<noteq> []" and "\<forall>r \<in> set rs. roundtrip_ready numStr r"
  shows "\<exists>ks. distinct ks \<and> set ks = exportOrgName ` set rs
           \<and> handleExportToExcel numStr defaultSettings rs = Inr (map (exportedSheet numStr rs) ks)"
proof -
  let ?om = "foldl orgMapStep [] rs"
  let ?ks = "map fst ?om"
  have inv: "orgMap_inv rs ?om" by (rule foldl_orgMapStep_inv)
  have dist: "distinct ?ks" using inv by (simp add: orgMap_inv_def)
  have keys: "set ?ks = exportOrgName ` set rs"
    using inv by (auto simp: orgMap_inv_def)
  have om: "?om = map (\<lambda>k. (k, groupData k rs)) ?ks" using inv by (rule orgMap_is_groups)
  have each: "\<forall>e \<in> set ?om. orgSheet numStr defaultSettings e = Some (exportedSheet numStr rs (fst e))"
  proof
    fix e
    assume "e \<in> set ?om"
    then have "e = (fst e, groupData (fst e) rs)" "fst e \<in> exportOrgName ` set rs"
      using inv by (auto simp: orgMap_inv_def)
    then show "orgSheet numStr defaultSettings e = Some (exportedSheet numStr rs (fst e))"
      using orgSheet_ready [OF assms(2), of "fst e"] by simp
  qed
  then have "orgSheets numStr defaultSettings ?om
               = Some (map (\<lambda>e. the (orgSheet numStr defaultSettings e)) ?om)"
    by (intro orgSheets_all) auto
  also have "map (\<lambda>e. the (orgSheet numStr defaultSettings e)) ?om
               = map (\<lambda>e. exportedSheet numStr rs (fst e)) ?om"
    using each by (intro map_cong) auto
  finally have sheets: "orgSheets numStr defaultSettings ?om
               = Some (map (exportedSheet numStr rs) ?ks)"
    by (simp add: comp_def)
  have "handleExportToExcel numStr defaultSettings rs = Inr (map (exportedSheet numStr rs) ?ks)"
    using assms(1) sheets by (simp add: handleExportToExcel_def defaultSettings_def Let_def)
  then show ?thesis using dist keys by blast
qed

lemma find_exportedSheet:
  "k \<in> set ks \<Longrightarrow>
   find (\<lambda>s. sheet_name s = k) (map (exportedSheet numStr rs) ks) = Some (exportedSheet numStr rs k)"
  by (induction ks) (auto simp: exportedSheet_def)

lemma writeAndRead_ready:
  assumes "distinct ks"
  shows "\<exists>wb. writeAndRead (map (exportedSheet numStr rs) ks) = Some wb \<and> SheetNames wb = ks
           \<and> (\<forall>k \<in> set ks. Sheets wb k = sheetRowObjects (exportedSheet numStr rs k))"
proof -
  have names: "map sheet_name (map (exportedSheet numStr rs) ks) = ks"
    by (induction ks) (simp_all add: exportedSheet_def)
  show ?thesis
    using assms unfolding writeAndRead_def names by (simp add: find_exportedSheet)
qed

lemma foldl_sheetStep_kept:
  assumes "\<forall>n \<in> set names. records (processSheet numStr (Sheets wb n) n) \<noteq> []"
  shows "sheets (foldl (sheetStep numStr wb) plan names) =
           sheets plan @ map (\<lambda>n. \<lparr>sp_sheetName = n,
                                   sp_records = records (processSheet numStr (Sheets wb n) n),
                                   sp_skippedRows = skippedRows (processSheet numStr (Sheets wb n) n)\<rparr>)
                            names"
  using assms by (induction names arbitrary: plan) (simp_all add: sheetStep_def Let_def)

subsection \<open>The round trip\<close>

lemma amount_of_columns:
  assumes "category ` set items \<subseteq> set cs" and "distinct (map category items)"
    and "\<forall>e \<in> set items. amount e \<noteq> Fin 0"
  shows "amount_of (map (\<lambda>c. \<lparr>category = c, amount = categoryValue items c\<rparr>)
                      (filter (\<lambda>c. categoryValue items c \<noteq> Fin 0) cs)) c
           = amount_of items c"
proof -
  have lhs: "amount_of (map (\<lambda>c. \<lparr>category = c, amount = categoryValue items c\<rparr>)
                          (filter (\<lambda>c. categoryValue items c \<noteq> Fin 0) cs)) c
               = (if c \<in> set cs \<and> categoryValue items c \<noteq> Fin 0
                  then Some (categoryValue items c) else None)"
    by (simp add: amount_of_def comp_def map_of_map_key)
  show ?thesis
  proof (cases "find (\<lambda>e. category e = c) items")
    case None
    then have no: "\<forall>e \<in> set items. category e \<noteq> c" by (simp add: find_None_iff)
    then have "c \<notin> fst ` set (map (\<lambda>e. (category e, amount e)) items)" by auto
    then have "amount_of items c = None" by (simp add: amount_of_def map_of_eq_None_iff)
    moreover have "categoryValue items c = Fin 0" using None by (simp add: categoryValue_def)
    ultimately show ?thesis using lhs by simp
  next
    case (Some e)
    then have e: "e \<in> set items" "category e = c" by (auto simp: find_Some_iff)
    have cv: "categoryValue items c = amount e" using Some by (simp add: categoryValue_def)
    have "(c, amount e) \<in> set (map (\<lambda>e. (category e, amount e)) items)" using e by force
    moreover have "distinct (map fst (map (\<lambda>e. (category e, amount e)) items))"
      using assms(2) by (simp add: comp_def)
    ultimately have "amount_of items c = Some (amount e)"
      by (simp add: amount_of_def)
    moreover have "c \<in> set cs" using e assms(1) by auto
    moreover have "amount e \<noteq> Fin 0" using e assms(3) by auto
    ultimately show ?thesis using lhs cv by simp
  qed
qed

lemma amount_of_append_other:
  assumes "c \<notin> category ` set ys"
  shows "amount_of (xs @ ys) c = amount_of xs c"
proof -
  have "c \<notin> fst ` set (map (\<lambda>e. (category e, amount e)) ys)" using assms by auto
  then have "map_of (map (\<lambda>e. (category e, amount e)) ys) c = None"
    by (simp add: map_of_eq_None_iff)
  then show ?thesis by (simp add: amount_of_def map_add_def split: option.splits)
qed

lemma or_zero_id: "x \<noteq> NaN \<Longrightarrow> or_zero x = x"
  by (simp add: or_zero_def)

lemma corresponds_reimported:
  assumes "roundtrip_ready numStr r"
    and "category ` set (exp_earnings r) \<subseteq> set es"
    and "category ` set (exp_deductions r) \<subseteq> set ds"
  shows "corresponds r (reimported (exportOrgName r) es ds r)"
proof -
  from assms(1) have org: "exp_organization r = Some (exportOrgName r)"
    and te: "exp_total_earnings r \<noteq> NaN" and td: "exp_total_deductions r \<noteq> NaN"
    and de: "distinct (map category (exp_earnings r))"
    and dd: "distinct (map category (exp_deductions r))"
    and ae: "\<forall>e \<in> set (exp_earnings r). amount e \<noteq> Fin 0"
    and ad: "\<forall>e \<in> set (exp_deductions r). amount e \<noteq> Fin 0"
    by (simp_all add: roundtrip_ready_def)
  have e: "amount_of (earnings (reimported (exportOrgName r) es ds r)) c
             = amount_of (exp_earnings r) c" if "c \<noteq> ''Net Pay''" for c
  proof -
    have notin: "c \<notin> category ` set (if or_zero (exp_net_salary r) = Fin 0 then []
              else [\<lparr>category = ''Net Pay'', amount = or_zero (exp_net_salary r)\<rparr>])"
      using that by simp
    have "earnings (reimported (exportOrgName r) es ds r) =
            map (\<lambda>c. \<lparr>category = c, amount = categoryValue (exp_earnings r) c\<rparr>)
              (filter (\<lambda>c. categoryValue (exp_earnings r) c \<noteq> Fin 0) es) @
            (if or_zero (exp_net_salary r) = Fin 0 then []
             else [\<lparr>category = ''Net Pay'', amount = or_zero (exp_net_salary r)\<rparr>])"
      by (simp add: reimported_def)
    then show ?thesis
      using amount_of_append_other [OF notin] amount_of_columns [OF assms(2) de ae, of c]
      by simp
  qed
  have d: "amount_of (deductions (reimported (exportOrgName r) es ds r)) c
             = amount_of (exp_deductions r) c" for c
    using amount_of_columns [OF assms(3) dd ad, of c] by (simp add: reimported_def)
  show ?thesis
    using e d by (simp add: corresponds_def reimported_def org or_zero_id [OF te] or_zero_id [OF td])
qed

lemma processSheet_exported:
  assumes "\<forall>r \<in> set rs. roundtrip_ready numStr r" and "k \<in> exportOrgName ` set rs"
  shows "processSheet numStr (sheetRowObjects (exportedSheet numStr rs k)) k =
           \<lparr>records = reimportedOf rs k, skippedRows = 0, invalidRows = []\<rparr>"
proof -
  have ne: "sortedOf rs k \<noteq> []" using assms(2) by (rule sortedOf_nonempty)
  have rd: "\<forall>r \<in> set (sortedOf rs k). roundtrip_ready numStr r"
    using assms(1) by (simp add: sortedOf_set)
  show ?thesis
    unfolding exportedSheet_rowObjects [OF assms(1)] reimportedOf_def
    by (rule processSheet_rowObjects [OF ne rd columns_fit_ready [OF assms(1)]])
qed

lemma exportThenImport_ready:
  assumes "rs \<noteq> []" and "\<forall>r \<in> set rs. roundtrip_ready numStr r"
  shows "\<exists>plan ks. exportThenImport numStr defaultSettings rs = Some plan
           \<and> set ks = exportOrgName ` set rs
           \<and> concat (map sp_records (sheets plan)) = concat (map (reimportedOf rs) ks)
           \<and> plan_invalidRows plan = [] \<and> totalSkippedRows plan = 0"
proof -
  from handleExportToExcel_ready [OF assms] obtain ks where
    dist: "distinct ks" and keys: "set ks = exportOrgName ` set rs"
    and ex: "handleExportToExcel numStr defaultSettings rs = Inr (map (exportedSheet numStr rs) ks)"
    by blast
  from writeAndRead_ready [OF dist, of numStr rs] obtain wb where
    wr: "writeAndRead (map (exportedSheet numStr rs) ks) = Some wb" and names: "SheetNames wb = ks"
    and sh: "\<forall>k \<in> set ks. Sheets wb k = sheetRowObjects (exportedSheet numStr rs k)"
    by blast
  have ps: "processSheet numStr (Sheets wb k) k =
              \<lparr>records = reimportedOf rs k, skippedRows = 0, invalidRows = []\<rparr>"
    if "k \<in> set ks" for k
    using that sh keys processSheet_exported [OF assms(2), of k] by auto
  have nonempty: "\<forall>k \<in> set ks. records (processSheet numStr (Sheets wb k) k) \<noteq> []"
  proof
    fix k
    assume k: "k \<in> set ks"
    then have "sortedOf rs k \<noteq> []" using keys sortedOf_nonempty by auto
    then show "records (processSheet numStr (Sheets wb k) k) \<noteq> []"
      using ps [OF k] by (simp add: reimportedOf_def)
  qed
  let ?plan = "foldl (sheetStep numStr wb) emptyPlan ks"
  have sheets: "sheets ?plan =
      map (\<lambda>k. \<lparr>sp_sheetName = k, sp_records = records (processSheet numStr (Sheets wb k) k),
                sp_skippedRows = skippedRows (processSheet numStr (Sheets wb k) k)\<rparr>) ks"
    using foldl_sheetStep_kept [OF nonempty, of emptyPlan] by (simp add: emptyPlan_def)
  then have sheets': "sheets ?plan =
      map (\<lambda>k. \<lparr>sp_sheetName = k, sp_records = reimportedOf rs k, sp_skippedRows = 0\<rparr>) ks"
    using ps by (simp cong: map_cong)
  have ksne: "ks \<noteq> []" using keys assms(1) by auto
  have up: "handleFileUpload numStr wb = Inr ?plan"
    using sheets' ksne by (simp add: handleFileUpload_def names Let_def)
  from handleFileUpload_consistent [OF up] have cons: "plan_consistent numStr wb ?plan" .
  have inv: "plan_invalidRows ?plan = []"
    using cons ps by (simp add: plan_consistent_def sheets' comp_def)
  have sk: "totalSkippedRows ?plan = 0"
    using cons by (simp add: plan_consistent_def sheets' comp_def)
  have recs: "concat (map sp_records (sheets ?plan)) = concat (map (reimportedOf rs) ks)"
    by (simp add: sheets' comp_def)
  have "exportThenImport numStr defaultSettings rs = Some ?plan"
    by (simp add: exportThenImport_def ex wr up)
  then show ?thesis using keys recs inv sk by blast
qed


lemma ex_roundtrip_ready: "roundtrip_ready exDecimal exExportRecord"
proof -
  have m: "\<exists>m. 1 \<le> m \<and> m \<le> 12 \<and> exp_month exExportRecord = Fin (of_nat m)"
    by (rule exI [of _ 1]) (simp add: exExportRecord_def)
  have y: "year_prints exDecimal (exp_year exExportRecord)"
    by code_simp
  have org: "exp_organization exExportRecord = Some (exportOrgName exExportRecord)"
      "length (exportOrgName exExportRecord) \<le> 31"
    by code_simp+
  have tot: "exp_total_earnings exExportRecord \<noteq> NaN"
      "exp_total_deductions exExportRecord \<noteq> NaN"
    by (simp_all add: exExportRecord_def)
  have dist: "distinct (map category (exp_earnings exExportRecord))"
      "distinct (map category (exp_deductions exExportRecord))"
    by (simp_all add: exExportRecord_def)
  have e: "\<forall>e \<in> set (exp_earnings exExportRecord).
             amount e \<noteq> Fin 0 \<and> imports_as_earning (exportOrgName exExportRecord) (category e)"
    by code_simp
  have d: "\<forall>e \<in> set (exp_deductions exExportRecord).
             amount e \<noteq> Fin 0 \<and> imports_as_deduction (exportOrgName exExportRecord) (category e)"
    by code_simp
  show ?thesis
    unfolding roundtrip_ready_def using m y org tot dist e d by blast
qed



end
